(* ===== verification/Prelude.thy ===== *)
theory Prelude
  imports Main "HOL-Library.State_Monad" "HOL-Library.Multiset"
begin

text \<open>
  Shared base of the development: the collections the component proofs simplify with, the rules
  that run a state-monad program, and generic lemmas on lists.
\<close>

named_theorems io_simps \<open>rules that execute a program of the state monad\<close>
named_theorems go_defs \<open>definitions of operations that proofs unfold together\<close>

section \<open>The state monad\<close>

abbreviation ret :: "'a \<Rightarrow> ('s, 'a) state" where
  "ret \<equiv> State_Monad.return"

lemma run_state_bind [io_simps]:
  "run_state (State_Monad.bind m f) s = (case run_state m s of (a, s') \<Rightarrow> run_state (f a) s')"
  by (simp add: State_Monad.bind_def)

lemma run_state_ret [io_simps]: "run_state (ret x) s = (x, s)"
  by simp

lemma run_state_if [io_simps]:
  "run_state (if b then m else n) s = (if b then run_state m s else run_state n s)"
  by simp

lemma run_state_case_sum [io_simps]:
  "run_state (case x of Inl e \<Rightarrow> f e | Inr a \<Rightarrow> g a) s =
     (case x of Inl e \<Rightarrow> run_state (f e) s | Inr a \<Rightarrow> run_state (g a) s)"
  by (cases x) simp_all

lemma run_state_case_option [io_simps]:
  "run_state (case x of None \<Rightarrow> m | Some a \<Rightarrow> g a) s =
     (case x of None \<Rightarrow> run_state m s | Some a \<Rightarrow> run_state (g a) s)"
  by (cases x) simp_all

lemma run_state_case_prod [io_simps]:
  "run_state (case x of (a, b) \<Rightarrow> f a b) s = (case x of (a, b) \<Rightarrow> run_state (f a b) s)"
  by (cases x) simp

section \<open>Lists\<close>

lemma drop_length_append [simp]: "drop (length xs) (xs @ ys) = ys"
  by simp

lemma filter_set_subset_iff: "(\<forall>x \<in> set (filter P xs). Q x) \<longleftrightarrow> (\<forall>x \<in> set xs. P x \<longrightarrow> Q x)"
  by auto

lemma list_split_at:
  assumes "x \<in> set xs"
  shows "\<exists>ys zs. xs = ys @ x # zs \<and> x \<notin> set ys"
  using assms by (rule split_list_first)

end
