(* ===== verification/GoStrings.thy ===== *)
theory GoStrings
  imports Prelude
begin

text \<open>
  The functions of Go's package \<open>strings\<close> that the connector calls, on byte strings: a Go string
  is a sequence of bytes and so is an Isabelle \<open>string\<close> (a list of 8-bit characters).
\<close>

section \<open>HasPrefix, Contains\<close>

fun hasPrefix :: "string \<Rightarrow> string \<Rightarrow> bool" where
  "hasPrefix s [] = True"
| "hasPrefix [] (p # ps) = False"
| "hasPrefix (c # s) (p # ps) = (c = p \<and> hasPrefix s ps)"

lemma hasPrefix_iff: "hasPrefix s p \<longleftrightarrow> (\<exists>t. s = p @ t)"
  by (induction s p rule: hasPrefix.induct) auto

lemma hasPrefix_append [simp]: "hasPrefix (p @ t) p"
  by (auto simp: hasPrefix_iff)

lemma hasPrefix_refl [simp]: "hasPrefix p p"
  by (auto simp: hasPrefix_iff)

lemma hasPrefix_take: "hasPrefix s p \<longleftrightarrow> take (length p) s = p"
  by (metis append_eq_conv_conj append_take_drop_id hasPrefix_iff)

lemma hasPrefix_trans: "hasPrefix s p \<Longrightarrow> hasPrefix p q \<Longrightarrow> hasPrefix s q"
  by (auto simp: hasPrefix_iff)

definition hasSuffix :: "string \<Rightarrow> string \<Rightarrow> bool" where
  "hasSuffix s p = hasPrefix (rev s) (rev p)"

lemma hasSuffix_iff: "hasSuffix s p \<longleftrightarrow> (\<exists>t. s = t @ p)"
  unfolding hasSuffix_def hasPrefix_iff by (metis rev_append rev_rev_ident)

fun containsStr :: "string \<Rightarrow> string \<Rightarrow> bool" where
  "containsStr [] p = (p = [])"
| "containsStr (c # s) p = (hasPrefix (c # s) p \<or> containsStr s p)"

lemma containsStr_iff: "containsStr s p \<longleftrightarrow> (\<exists>u v. s = u @ p @ v)"
proof (induction s)
  case Nil
  show ?case by auto
next
  case (Cons c s)
  show ?case (is "?L \<longleftrightarrow> ?R")
  proof
    assume ?L
    then show ?R
    proof (elim containsStr.simps(2) [THEN iffD1, elim_format] disjE)
      assume "hasPrefix (c # s) p"
      then show ?R by (metis append_Nil hasPrefix_iff)
    next
      assume "containsStr s p"
      then show ?R using Cons.IH by (metis append_Cons)
    qed
  next
    assume ?R
    then obtain u v where uv: "c # s = u @ p @ v" by blast
    show ?L
    proof (cases u)
      case Nil
      with uv show ?thesis by (metis append_Nil containsStr.simps(2) hasPrefix_append)
    next
      case (Cons x u')
      with uv have "s = u' @ p @ v" by simp
      with Cons.IH show ?thesis by auto
    qed
  qed
qed

lemma containsStr_refl [simp]: "containsStr s s"
  by (metis append_Nil append_Nil2 containsStr_iff)

section \<open>Split and Join with a one-byte separator\<close>

fun splitOn :: "char \<Rightarrow> string \<Rightarrow> string list" where
  "splitOn c [] = [[]]"
| "splitOn c (x # xs) =
     (if x = c then [] # splitOn c xs
      else (case splitOn c xs of [] \<Rightarrow> [[x]] | p # ps \<Rightarrow> (x # p) # ps))"

fun joinWith :: "char \<Rightarrow> string list \<Rightarrow> string" where
  "joinWith c [] = []"
| "joinWith c [p] = p"
| "joinWith c (p # q # ps) = p @ c # joinWith c (q # ps)"

lemma splitOn_nonempty [simp]: "splitOn c s \<noteq> []"
  by (induction s) (auto split: list.splits)

lemma length_splitOn: "length (splitOn c s) = Suc (count_list s c)"
  by (induction s) (auto split: list.splits)

lemma joinWith_Cons: "ps \<noteq> [] \<Longrightarrow> joinWith c (p # ps) = p @ c # joinWith c ps"
  by (cases ps) auto

lemma join_splitOn [simp]: "joinWith c (splitOn c s) = s"
proof (induction s)
  case Nil
  show ?case by simp
next
  case (Cons x s)
  obtain p ps where ps: "splitOn c s = p # ps"
    by (cases "splitOn c s") auto
  with Cons.IH show ?case
    by (cases ps) (auto simp: joinWith_Cons)
qed

lemma splitOn_parts: "p \<in> set (splitOn c s) \<Longrightarrow> c \<notin> set p"
  by (induction s arbitrary: p) (auto split: list.splits if_splits)

lemma splitOn_no_sep [simp]: "c \<notin> set s \<Longrightarrow> splitOn c s = [s]"
  by (induction s) auto

lemma splitOn_append_sep: "c \<notin> set p \<Longrightarrow> splitOn c (p @ c # s) = p # splitOn c s"
  by (induction p) auto

lemma splitOn_join:
  "ps \<noteq> [] \<Longrightarrow> \<forall>p \<in> set ps. c \<notin> set p \<Longrightarrow> splitOn c (joinWith c ps) = ps"
  by (induction c ps rule: joinWith.induct) (auto simp: splitOn_append_sep)

lemma splitOn_eq_iff:
  "splitOn c s = ps \<longleftrightarrow> ps \<noteq> [] \<and> (\<forall>p \<in> set ps. c \<notin> set p) \<and> s = joinWith c ps"
  using splitOn_join splitOn_parts by auto

lemma hasPrefix_splitOn_hd:
  "c \<notin> set p \<Longrightarrow> hd (splitOn c s) = p \<Longrightarrow> hasPrefix s p"
proof -
  assume "hd (splitOn c s) = p"
  then obtain ps where "splitOn c s = p # ps"
    by (cases "splitOn c s") auto
  then have "s = joinWith c (p # ps)" by (metis join_splitOn)
  then show ?thesis by (cases ps) auto
qed

section \<open>ReplaceAll and Replace with count 1\<close>

text \<open>
  \<open>strings.ReplaceAll\<close> for a non-empty pattern scans from the left and continues behind each
  match. The connector guards every call against the empty pattern.
\<close>

function replaceAll :: "string \<Rightarrow> string \<Rightarrow> string \<Rightarrow> string" where
  "replaceAll [] old new = []"
| "replaceAll (c # s) old new =
     (if old \<noteq> [] \<and> hasPrefix (c # s) old then new @ replaceAll (drop (length old) (c # s)) old new
      else c # replaceAll s old new)"
  by pat_completeness auto
termination
  by (relation "measure (\<lambda>(s, old, new). length s)") auto

fun replaceFirst :: "string \<Rightarrow> string \<Rightarrow> string \<Rightarrow> string" where
  "replaceFirst [] old new = []"
| "replaceFirst (c # s) old new =
     (if hasPrefix (c # s) old then new @ drop (length old) (c # s)
      else c # replaceFirst s old new)"

lemma replaceFirst_prefix: "old \<noteq> [] \<Longrightarrow> replaceFirst (old @ t) old new = new @ t"
proof -
  assume "old \<noteq> []"
  then obtain c s where cs: "old @ t = c # s" by (cases "old @ t") auto
  moreover have "hasPrefix (c # s) old" by (metis cs hasPrefix_append)
  ultimately show ?thesis by (metis drop_length_append replaceFirst.simps(2))
qed

lemma replaceAll_absent: "\<not> containsStr s old \<Longrightarrow> replaceAll s old new = s"
  by (induction s) auto

section \<open>TrimSpace\<close>

text \<open>
  The code points of \<open>unicode.IsSpace\<close> in UTF-8. \<open>strings.TrimSpace\<close> decodes a rune at each end
  and drops it while it is one of these; a byte sequence at an end decodes to such a rune exactly
  when it is its encoding.
\<close>

definition spaceRunes :: "string list" where
  "spaceRunes = [[CHR 0x09], [CHR 0x0A], [CHR 0x0B], [CHR 0x0C], [CHR 0x0D], [CHR 0x20],
     [CHR 0xC2, CHR 0x85], [CHR 0xC2, CHR 0xA0], [CHR 0xE1, CHR 0x9A, CHR 0x80],
     [CHR 0xE2, CHR 0x80, CHR 0x80], [CHR 0xE2, CHR 0x80, CHR 0x81], [CHR 0xE2, CHR 0x80, CHR 0x82],
     [CHR 0xE2, CHR 0x80, CHR 0x83], [CHR 0xE2, CHR 0x80, CHR 0x84], [CHR 0xE2, CHR 0x80, CHR 0x85],
     [CHR 0xE2, CHR 0x80, CHR 0x86], [CHR 0xE2, CHR 0x80, CHR 0x87], [CHR 0xE2, CHR 0x80, CHR 0x88],
     [CHR 0xE2, CHR 0x80, CHR 0x89], [CHR 0xE2, CHR 0x80, CHR 0x8A], [CHR 0xE2, CHR 0x80, CHR 0xA8],
     [CHR 0xE2, CHR 0x80, CHR 0xA9], [CHR 0xE2, CHR 0x80, CHR 0xAF], [CHR 0xE2, CHR 0x81, CHR 0x9F],
     [CHR 0xE3, CHR 0x80, CHR 0x80]]"

fun stripAny :: "string list \<Rightarrow> nat \<Rightarrow> string \<Rightarrow> string" where
  "stripAny rs 0 s = s"
| "stripAny rs (Suc n) s =
     (case find (\<lambda>r. hasPrefix s r) rs of
        None \<Rightarrow> s
      | Some r \<Rightarrow> stripAny rs n (drop (length r) s))"

definition trimLeftSpace :: "string \<Rightarrow> string" where
  "trimLeftSpace s = stripAny spaceRunes (length s) s"

definition trimRightSpace :: "string \<Rightarrow> string" where
  "trimRightSpace s = rev (stripAny (map rev spaceRunes) (length s) (rev s))"

definition trimSpace :: "string \<Rightarrow> string" where
  "trimSpace s = trimRightSpace (trimLeftSpace s)"

lemma stripAny_done:
  assumes "\<forall>r \<in> set rs. r \<noteq> []" and "length s \<le> n"
  shows "find (\<lambda>r. hasPrefix (stripAny rs n s) r) rs = None"
  using assms(2)
proof (induction n arbitrary: s)
  case 0
  then show ?case using assms(1) by (auto simp: find_None_iff hasPrefix_iff)
next
  case (Suc n)
  show ?case
  proof (cases "find (\<lambda>r. hasPrefix s r) rs")
    case None
    then show ?thesis by simp
  next
    case (Some r)
    then have "r \<in> set rs" by (auto simp: find_Some_iff)
    with assms(1) have "0 < length r" by auto
    with Suc.prems have "length (drop (length r) s) \<le> n" by (cases r) auto
    with Suc.IH Some show ?thesis by simp
  qed
qed

lemma stripAny_suffix: "\<exists>u. s = u @ stripAny rs n s"
proof (induction n arbitrary: s)
  case 0
  show ?case by simp
next
  case (Suc n)
  show ?case
  proof (cases "find (\<lambda>r. hasPrefix s r) rs")
    case None
    then show ?thesis by simp
  next
    case (Some r)
    obtain u where "drop (length r) s = u @ stripAny rs n (drop (length r) s)"
      using Suc.IH by blast
    then have "s = (take (length r) s @ u) @ stripAny rs n (drop (length r) s)"
      by (metis append.assoc append_take_drop_id)
    moreover have "stripAny rs (Suc n) s = stripAny rs n (drop (length r) s)"
      using Some by simp
    ultimately show ?thesis by metis
  qed
qed

lemma trimLeftSpace_no_space: "r \<in> set spaceRunes \<Longrightarrow> \<not> hasPrefix (trimLeftSpace s) r"
proof -
  have "\<forall>r \<in> set spaceRunes. r \<noteq> []" by (simp add: spaceRunes_def)
  then have "find (\<lambda>r. hasPrefix (trimLeftSpace s) r) spaceRunes = None"
    unfolding trimLeftSpace_def by (rule stripAny_done) simp
  then show "r \<in> set spaceRunes \<Longrightarrow> ?thesis" by (auto simp: find_None_iff)
qed

lemma trimRightSpace_no_space: "r \<in> set spaceRunes \<Longrightarrow> \<not> hasSuffix (trimRightSpace s) r"
proof -
  have "\<forall>r \<in> set (map rev spaceRunes). r \<noteq> []" by (simp add: spaceRunes_def)
  then have "find (\<lambda>r. hasPrefix (stripAny (map rev spaceRunes) (length s) (rev s)) r)
      (map rev spaceRunes) = None"
    by (rule stripAny_done) simp
  then show "r \<in> set spaceRunes \<Longrightarrow> ?thesis"
    by (auto simp: find_None_iff hasSuffix_def trimRightSpace_def)
qed

section \<open>ToLower and ToUpper against ASCII names\<close>

text \<open>
  \<open>strings.ToLower\<close> as far as a comparison with an ASCII literal can see it: ASCII capitals, and
  the two non-ASCII code points whose lower case is an ASCII letter, U+0130 (to i) and U+212A
  (to k). Every other non-ASCII sequence stays non-ASCII in Go, and stays as it is here.
\<close>

definition lowerChar :: "char \<Rightarrow> char" where
  "lowerChar c = (if 65 \<le> (of_char c :: nat) \<and> (of_char c :: nat) \<le> 90
     then char_of ((of_char c :: nat) + 32) else c)"

definition upperChar :: "char \<Rightarrow> char" where
  "upperChar c = (if 97 \<le> (of_char c :: nat) \<and> (of_char c :: nat) \<le> 122
     then char_of ((of_char c :: nat) - 32) else c)"

fun toLower :: "string \<Rightarrow> string" where
  "toLower [] = []"
| "toLower (c # s) =
     (if c = CHR 0xC4 \<and> take 1 s = [CHR 0xB0] then CHR ''i'' # toLower (drop 1 s)
      else if c = CHR 0xE2 \<and> take 2 s = [CHR 0x84, CHR 0xAA] then CHR ''k'' # toLower (drop 2 s)
      else lowerChar c # toLower s)"

definition toUpper :: "string \<Rightarrow> string" where
  "toUpper s = map upperChar s"

section \<open>Decimal numbers\<close>

fun showNat :: "nat \<Rightarrow> string" where
  "showNat n = (if n < 10 then [char_of (48 + n)] else showNat (n div 10) @ [char_of (48 + n mod 10)])"

declare showNat.simps [simp del]

definition showInt :: "int \<Rightarrow> string" where
  "showInt i = (if i < 0 then CHR ''-'' # showNat (nat (- i)) else showNat (nat i))"

end
