(* ===== verification/Configuration.thy ===== *)
theory Configuration
  imports GoStrings
begin

text \<open>
  The configuration of the connector: \<open>ConfigStruct\<close> of \<open>lib/configuration/config.go\<close> field by field
  (integers as \<open>int\<close>, the one float as the text it is written with, the logger left out).
\<close>

record config =
  KafkaUrl :: string
  KafkaResponseTopic :: string
  KafkaGroupName :: string
  FatalKafkaError :: bool
  Protocol :: string
  DeviceManagerUrl :: string
  DeviceRepoUrl :: string
  AuthClientId :: string
  AuthClientSecret :: string
  AuthExpirationTimeBuffer :: string
  AuthEndpoint :: string
  JwtPrivateKey :: string
  JwtExpiration :: int
  JwtIssuer :: string
  WebhookPort :: string
  GatewayLogTopic :: string
  DeviceLogTopic :: string
  ConnectionLogQos :: int
  MemcachedUrl :: string
  MqttBroker :: string
  MqttVersion :: string
  CheckHub :: bool
  Debug :: bool
  MqttDebug :: bool
  CorrelationExpiration :: int
  IotCacheUrls :: string
  DeviceExpiration :: int
  DeviceTypeExpiration :: int
  CharacteristicExpiration :: int
  TokenCacheUrls :: string
  TokenCacheExpiration :: int
  MqttPublishAuthOnly :: bool
  StartupDelay :: int
  Log :: string
  WebhookTimeout :: int
  Validate :: bool
  ValidateAllowUnknownField :: bool
  ValidateAllowMissingField :: bool
  FogHandlerTopicPrefix :: string
  HealthTopic :: string
  GatewayHealthTopic :: string
  HealthHubCheckCacheDuration :: string
  HealthMaxPayloadSize :: int
  KafkaPartitionNum :: int
  KafkaReplicationFactor :: int
  ForceCleanSession :: bool
  CleanSessionAllowUserList :: "string list"
  PublishToPostgres :: bool
  PostgresHost :: string
  PostgresPort :: int
  PostgresUser :: string
  PostgresPw :: string
  PostgresDb :: string
  HttpCommandConsumerPort :: string
  AsyncPgThreadMax :: int
  AsyncFlushMessages :: int
  AsyncFlushFrequency :: string
  AsyncCompression :: string
  SyncCompression :: string
  KafkaConsumerMaxWait :: string
  KafkaConsumerMinBytes :: int
  KafkaConsumerMaxBytes :: int
  IotCacheMaxIdleConns :: int
  CorrelationMaxIdleConns :: int
  IotCacheTimeout :: string
  CorrelationTimeout :: string
  CommandWorkerCount :: int
  DeviceTypeTopic :: string
  NotificationUrl :: string
  PermissionsV2Url :: string
  NotificationsIgnoreDuplicatesWithinS :: int
  NotificationUserOverwrite :: string
  DeveloperNotificationUrl :: string
  MqttErrorOnEventValidationError :: bool
  KafkaTopicConfigs :: "(string \<times> (string \<times> string) list) list"
  MqttAuthMethod :: string
  ConnectionLimitCount :: int
  ConnectionLimitDurationInSeconds :: int
  ForceCommandSubscriptionServiceSingleLevelWildcard :: bool
  SecRemoteProtocol :: string
  ForceTopicsWithOwner :: bool
  MutedUserNotificationTitles :: "string list"
  ConnectionCheckUrl :: string
  ConnectionCheckHttpTimeout :: string
  ApiDocsProviderBaseUrl :: string
  VmqAdminApiUrl :: string
  DisconnectCommandDelay :: string
  InitTopics :: bool
  NimbusDeviceTypeId :: string
  WmbusDeviceTypeNamespace :: string
  WmbusDeviceClassId :: string
  SenergyProtocolId :: string
  SenergyProtoclSegment :: string
  WaitingRoomUrl :: string
  WmbusmetersExecutable :: string
  WmbusmetersDriversDir :: string
  LogLevel :: string

end
