(* ===== verification/GoJsonFacts.thy ===== *)
theory GoJsonFacts
  imports GoJson
begin

text \<open>
  Facts about the JSON grammar of \<open>GoJson\<close>: fuel is enough, a parsed value stays parsed when text
  is appended, and the encoder's output is read back as the value it encodes.
\<close>

section \<open>The parser consumes its input\<close>

lemma skipWs_length: "length (skipWs s) \<le> length s"
  by (simp add: skipWs_def length_dropWhile_le)

lemma skipWs_Cons: "skipWs s = c # t \<Longrightarrow> length t < length s"
  using skipWs_length [of s] by simp

lemma skipWs_append: "skipWs s = c # t \<Longrightarrow> skipWs (s @ u) = c # t @ u"
  by (induction s) (auto simp: skipWs_def split: if_splits)

lemma skipWs_nonempty: "skipWs s \<noteq> [] \<Longrightarrow> skipWs (s @ u) = skipWs s @ u"
  by (cases "skipWs s") (auto dest: skipWs_append)

lemma strBody_elim:
  assumes "strBody s = Some (v, r)"
  obtains (close) "s = CHR 0x22 # r" "v = []"
    | (esc) t out n d where "s = CHR 0x5C # t" "escapeSeq t = Some (out, n)" "strBody (drop n t) = Some (d, r)"
        "v = out @ d"
    | (bad) c t d where "s = c # t" "0x80 \<le> byte c" "runeLen s = 0" "strBody t = Some (d, r)" "v = runeError @ d"
    | (rune) c t d where "s = c # t" "c \<noteq> CHR 0x22" "c \<noteq> CHR 0x5C" "0x20 \<le> byte c" "runeLen s \<noteq> 0"
        "strBody (drop (runeLen s) s) = Some (d, r)" "v = take (runeLen s) s @ d"
proof (cases s)
  case Nil
  with assms show ?thesis by simp
next
  case (Cons c t)
  have "0x80 \<le> byte c" if "runeLen (c # t) = 0"
    using that runeLen_ascii [of c t] by (cases "byte c < 0x80") auto
  with assms Cons show ?thesis
    by (auto simp: strBody.simps(2) not_less split: if_splits option.splits
        intro: close esc bad rune)
qed

lemma strBody_length: "strBody s = Some (v, r) \<Longrightarrow> length r < length s"
proof (induction "length s" arbitrary: s v rule: less_induct)
  case less
  have le: "length (drop k xs) \<le> length xs" for k and xs :: string by simp
  from less.prems show ?case
  proof (cases rule: strBody_elim)
    case (esc t out n d)
    have "length (drop n t) < length s" using esc(1) by simp
    from less.hyps [OF this esc(3)] show ?thesis using le [of n t] esc(1) by simp
  next
    case (bad c t d)
    then show ?thesis using less.hyps [OF _ bad(4)] by simp
  next
    case (rune c t d)
    then show ?thesis using less.hyps [OF _ rune(6)] by simp
  qed simp
qed

lemma digits1_length: "digits1 s = Some (v, r) \<Longrightarrow> length r < length s"
  by (auto simp: digits1_def split: list.splits if_splits)
     (metis le_imp_less_Suc length_dropWhile_le)

lemma intPart_length: "intPart s = Some (v, r) \<Longrightarrow> length r < length s"
  by (auto simp: intPart_def split: list.splits if_splits)
     (metis le_imp_less_Suc length_dropWhile_le)

lemma fracPart_length: "fracPart s = Some (v, r) \<Longrightarrow> length r \<le> length s"
  by (auto simp: fracPart_def split: list.splits if_splits dest: digits1_length)

lemma expPart_length: "expPart s = Some (v, r) \<Longrightarrow> length r \<le> length s"
  by (auto simp: expPart_def split: list.splits if_splits dest!: digits1_length)

lemma optSign_length: "optSign s = (g, r) \<Longrightarrow> length r \<le> length s"
  by (auto simp: optSign_def split: list.splits if_splits)

lemma numLit_length: "numLit s = Some (v, r) \<Longrightarrow> length r < length s"
  by (auto simp: numLit_def split: prod.splits option.splits
      dest!: optSign_length intPart_length fracPart_length expPart_length)

lemma litTok_length: "w \<noteq> [] \<Longrightarrow> litTok w x s = Some (v, r) \<Longrightarrow> length r < length s"
  by (cases w; cases s) (auto simp: litTok_def split: if_splits)

section \<open>Case rules for the three parsers\<close>

lemma pValue_elim:
  assumes "pValue n d s = Some (v, r)"
  obtains (obj0) m t where "n = Suc m" "skipWs s = CHR ''{'' # t" "d \<noteq> 0" "skipWs t = CHR ''}'' # r" "v = JObj []"
    | (obj) m t x u ms where "n = Suc m" "skipWs s = CHR ''{'' # t" "d \<noteq> 0" "skipWs t = x # u"
        "x \<noteq> CHR ''}''" "pMembers m (d - 1) t = Some (ms, r)" "v = JObj ms"
    | (arr0) m t where "n = Suc m" "skipWs s = CHR ''['' # t" "d \<noteq> 0" "skipWs t = CHR '']'' # r" "v = JArr []"
    | (arr) m t x u vs where "n = Suc m" "skipWs s = CHR ''['' # t" "d \<noteq> 0" "skipWs t = x # u"
        "x \<noteq> CHR '']''" "pElems m (d - 1) t = Some (vs, r)" "v = JArr vs"
    | (str) m t w where "n = Suc m" "skipWs s = CHR 0x22 # t" "strBody t = Some (w, r)" "v = JStr w"
    | (tru) m t where "n = Suc m" "skipWs s = CHR ''t'' # t" "litTok ''true'' (JBool True) (CHR ''t'' # t) = Some (v, r)"
    | (fls) m t where "n = Suc m" "skipWs s = CHR ''f'' # t" "litTok ''false'' (JBool False) (CHR ''f'' # t) = Some (v, r)"
    | (nul) m t where "n = Suc m" "skipWs s = CHR ''n'' # t" "litTok ''null'' JNull (CHR ''n'' # t) = Some (v, r)"
    | (num) m c t w where "n = Suc m" "skipWs s = c # t" "c \<notin> {CHR ''{'', CHR ''['', CHR 0x22, CHR ''t'', CHR ''f'', CHR ''n''}"
        "numLit (c # t) = Some (w, r)" "v = JNum w"
proof (cases n)
  case 0
  with assms show ?thesis by simp
next
  case (Suc m)
  then obtain c t where ct: "skipWs s = c # t" using assms by (auto split: list.splits)
  consider "c = CHR ''{''" | "c = CHR ''[''" | "c = CHR 0x22" | "c = CHR ''t''" | "c = CHR ''f''"
    | "c = CHR ''n''" | "c \<notin> {CHR ''{'', CHR ''['', CHR 0x22, CHR ''t'', CHR ''f'', CHR ''n''}"
    by blast
  then show ?thesis
  proof cases
    case 1
    with assms Suc ct show ?thesis
      by (auto split: if_splits list.splits intro: obj0 obj)
  next
    case 2
    with assms Suc ct show ?thesis
      by (auto split: if_splits list.splits intro: arr0 arr)
  next
    case 3
    with assms Suc ct show ?thesis by (auto intro: str)
  next
    case 4
    with assms Suc ct show ?thesis by (auto intro: tru)
  next
    case 5
    with assms Suc ct show ?thesis by (auto intro: fls)
  next
    case 6
    with assms Suc ct show ?thesis by (auto intro: nul)
  next
    case 7
    with assms Suc ct show ?thesis by (auto intro: num)
  qed
qed

lemma pElems_elim:
  assumes "pElems n d s = Some (vs, r)"
  obtains (more) m v r1 u vs' where "n = Suc m" "pValue m d s = Some (v, r1)" "skipWs r1 = CHR '','' # u"
      "pElems m d u = Some (vs', r)" "vs = v # vs'"
    | (last) m v r1 where "n = Suc m" "pValue m d s = Some (v, r1)" "skipWs r1 = CHR '']'' # r" "vs = [v]"
  using assms by (cases n) (auto split: option.splits list.splits if_splits)

lemma pMembers_elim:
  assumes "pMembers n d s = Some (ms, r)"
  obtains (more) m t k r0 w v r1 u ms' where "n = Suc m" "skipWs s = CHR 0x22 # t" "strBody t = Some (k, r0)"
      "skipWs r0 = CHR '':'' # w" "pValue m d w = Some (v, r1)" "skipWs r1 = CHR '','' # u"
      "pMembers m d u = Some (ms', r)" "ms = (k, v) # ms'"
    | (last) m t k r0 w v r1 where "n = Suc m" "skipWs s = CHR 0x22 # t" "strBody t = Some (k, r0)"
      "skipWs r0 = CHR '':'' # w" "pValue m d w = Some (v, r1)" "skipWs r1 = CHR ''}'' # r" "ms = [(k, v)]"
  using assms by (cases n) (auto split: option.splits list.splits if_splits)

text \<open>All three parsers leave a strictly shorter rest: induction on the fuel.\<close>

lemma p_length:
  shows pValue_length: "pValue n d s = Some (v, r) \<Longrightarrow> length r < length s"
    and pElems_length: "pElems n d s = Some (vs, r) \<Longrightarrow> length r < length s"
    and pMembers_length: "pMembers n d s = Some (ms, r) \<Longrightarrow> length r < length s"
proof (induction n arbitrary: d s v vs ms r)
  case 0
  { case 1 then show ?case by simp }
  { case 2 then show ?case by simp }
  { case 3 then show ?case by simp }
next
  case (Suc n)
  { case 1
    then show ?case
      by (rule pValue_elim)
        (auto dest!: skipWs_Cons strBody_length numLit_length litTok_length [rotated]
          Suc.IH(2) Suc.IH(3)) }
  { case 2
    then show ?case
      by (rule pElems_elim) (auto dest!: skipWs_Cons Suc.IH(1) Suc.IH(2)) }
  { case 3
    then show ?case
      by (rule pMembers_elim) (auto dest!: skipWs_Cons strBody_length Suc.IH(1) Suc.IH(3)) }
qed


section \<open>Fuel is enough\<close>

text \<open>
  A value on \<open>s\<close> needs at most \<open>2 * length s + 1\<close> units, an element or member list one more: one
  more unit then changes nothing, whether the parse succeeds or not.
\<close>

lemma p_stable:
  shows "2 * length s + 1 \<le> n \<Longrightarrow> pValue (Suc n) d s = pValue n d s"
    and "2 * length s + 2 \<le> n \<Longrightarrow> pElems (Suc n) d s = pElems n d s"
    and "2 * length s + 2 \<le> n \<Longrightarrow> pMembers (Suc n) d s = pMembers n d s"
proof (induction n arbitrary: d s)
  case 0
  { case 1 then show ?case by simp }
  { case 2 then show ?case by simp }
  { case 3 then show ?case by simp }
next
  case (Suc n)
  { case 1
    show ?case
    proof (cases "skipWs s")
      case Nil
      then show ?thesis by simp
    next
      case (Cons c t)
      with 1 have "2 * length t + 2 \<le> n" using skipWs_Cons [OF Cons] by simp
      then have "pElems (Suc n) (d - 1) t = pElems n (d - 1) t"
        "pMembers (Suc n) (d - 1) t = pMembers n (d - 1) t"
        by (rule Suc.IH(2), rule Suc.IH(3))
      then show ?thesis
        by (simp only: pValue.simps(2) Cons list.case)
    qed }
  { case 2
    then have v: "pValue (Suc n) d s = pValue n d s" by (intro Suc.IH(1)) simp
    show ?case
    proof (cases "pValue n d s")
      case None
      with v show ?thesis by (simp only: pElems.simps option.case)
    next
      case (Some y)
      obtain w r where y: "y = (w, r)" by (cases y)
      have "pElems (Suc n) d u = pElems n d u" if "skipWs r = c # u" for c u
        using 2 that pValue_length [of n d s w r] Some y skipWs_Cons [OF that] by (intro Suc.IH(2)) simp
      then show ?thesis
        unfolding pElems.simps v Some y by (auto simp del: pElems.simps split: list.splits)
    qed }
  { case 3
    have "pValue (Suc n) d w = pValue n d w" if "length w < length s" for w
      using 3 that by (intro Suc.IH(1)) simp
    moreover have "pMembers (Suc n) d u = pMembers n d u" if "length u < length s" for u
      using 3 that by (intro Suc.IH(3)) simp
    moreover have "length u < length s"
      if "skipWs s = c # t" "strBody t = Some (k, r0)" "skipWs r0 = c' # w"
        "pValue n d w = Some (v, r1)" "skipWs r1 = c'' # u" for c t k r0 c' w v r1 c'' u
      using that skipWs_Cons strBody_length pValue_length by (meson less_trans)
    moreover have "length w < length s"
      if "skipWs s = c # t" "strBody t = Some (k, r0)" "skipWs r0 = c' # w" for c t k r0 c' w
      using that skipWs_Cons strBody_length by (meson less_trans)
    ultimately show ?case
      by (simp del: pMembers.simps pValue.simps add: pMembers.simps(2) split: list.split option.split) }
qed

lemma p_mono:
  shows "pValue n d s = Some (v, r) \<Longrightarrow> pValue (Suc n) d s = Some (v, r)"
    and "pElems n d s = Some (vs, r) \<Longrightarrow> pElems (Suc n) d s = Some (vs, r)"
    and "pMembers n d s = Some (ms, r) \<Longrightarrow> pMembers (Suc n) d s = Some (ms, r)"
proof (induction n arbitrary: d s v vs ms r)
  case 0
  { case 1 then show ?case by simp }
  { case 2 then show ?case by simp }
  { case 3 then show ?case by simp }
next
  case (Suc n)
  { case 1
    then show ?case
      by (rule pValue_elim) (auto simp del: pElems.simps pMembers.simps dest!: Suc.IH(2) Suc.IH(3)) }
  { case 2
    then show ?case
      by (rule pElems_elim)
        (auto simp: pElems.simps(2) [of "Suc n"] simp del: pValue.simps pElems.simps dest!: Suc.IH(1) Suc.IH(2)) }
  { case 3
    then show ?case
      by (rule pMembers_elim)
        (auto simp: pMembers.simps(2) [of "Suc n"] simp del: pValue.simps pMembers.simps dest!: Suc.IH(1) Suc.IH(3)) }
qed

lemma pValue_more: "n \<le> m \<Longrightarrow> pValue n d s = Some (v, r) \<Longrightarrow> pValue m d s = Some (v, r)"
  by (induction m rule: dec_induct) (auto simp del: pValue.simps dest: p_mono(1))

lemma pValue_enough: "fuelFor s \<le> m \<Longrightarrow> pValue m d s = pValue (fuelFor s) d s"
proof (induction m rule: dec_induct)
  case (step m)
  then show ?case using p_stable(1) [of s m d] by (simp add: fuelFor_def)
qed simp

text \<open>Whatever fuel a parse succeeds with, the fuel the parser starts with gives the same.\<close>

lemma pValue_fuelFor:
  assumes "pValue n d s = Some (v, r)"
  shows "pValue (fuelFor s) d s = Some (v, r)"
proof -
  have "pValue (max n (fuelFor s)) d s = Some (v, r)"
    by (rule pValue_more [OF _ assms]) simp
  then show ?thesis using pValue_enough [of s "max n (fuelFor s)" d] by simp
qed


section \<open>A parsed value stays parsed when text follows\<close>

text \<open>
  Text that may follow a value without becoming part of it: a number would swallow a digit, a
  fraction or an exponent, so what follows must be empty or start with a delimiter or a blank.
\<close>

definition stops :: "string \<Rightarrow> bool" where
  "stops t = (case t of [] \<Rightarrow> True
     | c # _ \<Rightarrow> c = CHR '','' \<or> c = CHR ''}'' \<or> c = CHR '']'' \<or> isWs c)"

lemma stops_head:
  assumes "stops (c # t)"
  shows "\<not> isDigit c" "c \<noteq> CHR ''.''" "c \<noteq> CHR ''e''" "c \<noteq> CHR ''E''" "c \<noteq> CHR ''-''"
  using assms by (auto simp: stops_def isWs_def isDigit_def inRange_def)

lemma stops_digits: "stops t \<Longrightarrow> takeWhile isDigit t = [] \<and> dropWhile isDigit t = t"
  by (cases t) (auto dest: stops_head(1))

lemma digits_append:
  "dropWhile isDigit s \<noteq> [] \<or> stops t \<Longrightarrow>
   takeWhile isDigit (s @ t) = takeWhile isDigit s \<and> dropWhile isDigit (s @ t) = dropWhile isDigit s @ t"
  by (induction s) (auto simp: stops_digits)

lemma optSign_append: "optSign s = (g, r) \<Longrightarrow> r \<noteq> [] \<Longrightarrow> optSign (s @ t) = (g, r @ t)"
  by (auto simp: optSign_def split: list.splits if_splits)

lemma intPart_append:
  "intPart s = Some (i, r) \<Longrightarrow> r \<noteq> [] \<or> stops t \<Longrightarrow> intPart (s @ t) = Some (i, r @ t)"
  using digits_append [of s t]
  by (auto simp: intPart_def split: list.splits if_splits)

lemma digits1_append:
  "digits1 s = Some (i, r) \<Longrightarrow> r \<noteq> [] \<or> stops t \<Longrightarrow> digits1 (s @ t) = Some (i, r @ t)"
  using digits_append [of s t]
  by (auto simp: digits1_def split: list.splits if_splits)

lemma fracPart_append:
  "fracPart s = Some (i, r) \<Longrightarrow> r \<noteq> [] \<or> stops t \<Longrightarrow> fracPart (s @ t) = Some (i, r @ t)"
  by (cases s; cases t) (auto simp: fracPart_def dest: stops_head(2) digits1_append split: if_splits)

lemma expPart_append:
  "expPart s = Some (i, r) \<Longrightarrow> r \<noteq> [] \<or> stops t \<Longrightarrow> expPart (s @ t) = Some (i, r @ t)"
  by (cases s; cases t)
    (auto simp: expPart_def dest: stops_head(3,4) digits1_append split: if_splits list.splits)

lemma numLit_append:
  assumes "numLit s = Some (v, r)" "r \<noteq> [] \<or> stops t"
  shows "numLit (s @ t) = Some (v, r @ t)"
proof -
  obtain g s1 i s2 f s3 e where p: "optSign s = (g, s1)" "intPart s1 = Some (i, s2)"
      "fracPart s2 = Some (f, s3)" "expPart s3 = Some (e, r)" "v = g @ i @ f @ e"
    using assms(1) by (auto simp: numLit_def split: prod.splits option.splits)
  have "s1 \<noteq> []" using p(2) by (auto simp: intPart_def)
  moreover have e: "expPart (s3 @ t) = Some (e, r @ t)"
    using p(4) assms(2) by (rule expPart_append)
  moreover have s3: "s3 \<noteq> [] \<or> stops t"
    using assms(2) expPart_length [OF p(4)] by (cases s3) auto
  then have "fracPart (s2 @ t) = Some (f, s3 @ t)"
    using p(3) by (blast intro: fracPart_append)
  moreover have "s2 \<noteq> [] \<or> stops t"
    using s3 fracPart_length [OF p(3)] by (cases s2) auto
  then have "intPart (s1 @ t) = Some (i, s2 @ t)"
    using p(2) by (blast intro: intPart_append)
  ultimately show ?thesis
    using optSign_append [OF p(1)] by (simp add: numLit_def p(5))
qed

lemma litTok_append: "litTok w x s = Some (v, r) \<Longrightarrow> litTok w x (s @ t) = Some (v, r @ t)"
  by (auto simp: litTok_def hasPrefix_iff split: if_splits)

lemma getu4_append: "getu4 u = Some q \<Longrightarrow> getu4 (u @ t) = Some q"
  by (auto simp: getu4_def split: list.splits)

lemma getu4_length: "getu4 u = Some q \<Longrightarrow> 4 \<le> length u"
  by (auto simp: getu4_def split: list.splits)

text \<open>A parsed rest of a string that starts a \<open>\u\<close> escape holds all of it.\<close>

lemma strBody_unicode:
  assumes "strBody u = Some x" "take 2 (u @ t) = [CHR 0x5C, CHR ''u'']"
  obtains q where "take 2 u = [CHR 0x5C, CHR ''u'']" "getu4 (drop 2 u) = Some q"
proof -
  obtain y u1 where u: "u = y # u1" using assms(1) by (cases u) auto
  with assms(2) have y: "y = CHR 0x5C" by simp
  obtain z u2 where u1: "u1 = z # u2"
    using assms(1) u y by (cases u1) (auto simp: strBody.simps(2) escapeSeq_def)
  with assms(2) u have z: "z = CHR ''u''" by simp
  obtain q where "getu4 u2 = Some q"
    using assms(1) u y u1 z
    by (cases "getu4 u2") (auto simp: strBody.simps(2) escapeSeq_def)
  with u y u1 z show ?thesis by (intro that [of q]) simp_all
qed

lemma take_two: "take 2 u = [a, b] \<Longrightarrow> take 2 (u @ t) = [a, b]"
  by (cases u; cases "tl u") auto

lemma escapeSeq_append:
  assumes esc: "escapeSeq s = Some (out, n)" and rest: "strBody (drop n s) = Some x"
  shows "escapeSeq (s @ t) = Some (out, n) \<and> n \<le> length s"
proof (cases s)
  case Nil
  with esc show ?thesis by (simp add: escapeSeq_def)
next
  case (Cons c w)
  show ?thesis
  proof (cases "c = CHR ''u''")
    case False
    with esc Cons show ?thesis by (auto simp: escapeSeq_def split: if_splits)
  next
    case True
    obtain r where r: "getu4 w = Some r"
      using esc Cons True by (auto simp: escapeSeq_def split: option.splits)
    have lw: "4 \<le> length w" and rt: "getu4 (w @ t) = Some r"
      using r by (simp_all add: getu4_length getu4_append)
    have dw: "drop 4 (w @ t) = drop 4 w @ t" using lw by simp
    show ?thesis
    proof (cases "isSurrogate r \<and> r < 0xDC00 \<and> take 2 (drop 4 w @ t) = [CHR 0x5C, CHR ''u'']")
      case no: False
      then have "\<not> (isSurrogate r \<and> r < 0xDC00 \<and> take 2 (drop 4 w) = [CHR 0x5C, CHR ''u''])"
        using take_two [of "drop 4 w" _ _ t] by auto
      with no esc Cons True r rt dw lw show ?thesis
        by (auto simp: escapeSeq_def split: if_splits)
    next
      case yes: True
      have two: "take 2 (drop 4 w) = [CHR 0x5C, CHR ''u''] \<and> (\<exists>q. getu4 (drop 6 w) = Some q)"
      proof (cases "n = 5")
        case True
        then have "strBody (drop 4 w) = Some x" using rest Cons by simp
        from strBody_unicode [OF this, of t] yes show ?thesis by (auto simp: add.commute)
      next
        case False
        with esc Cons \<open>c = CHR ''u''\<close> r show ?thesis
          by (auto simp: escapeSeq_def split: if_splits option.splits)
      qed
      then obtain q where q: "getu4 (drop 6 w) = Some q" by blast
      have l6: "10 \<le> length w" using getu4_length [OF q] by simp
      then have "drop 6 (w @ t) = drop 6 w @ t" by simp
      with q have "getu4 (drop 6 (w @ t)) = Some q" by (simp add: getu4_append)
      with esc Cons True r rt dw q two yes l6 show ?thesis
        by (auto simp: escapeSeq_def split: if_splits)
    qed
  qed
qed

lemma strBody_has_quote: "strBody s = Some (v, r) \<Longrightarrow> CHR 0x22 \<in> set s"
proof (induction "length s" arbitrary: s v rule: less_induct)
  case less
  from less.prems show ?case
  proof (cases rule: strBody_elim)
    case (esc t out n d)
    have "length (drop n t) < length s" using esc(1) by simp
    from less.hyps [OF this esc(3)] show ?thesis using esc(1) by (auto dest: in_set_dropD)
  next
    case (bad c t d)
    then show ?thesis using less.hyps [OF _ bad(4)] by simp
  next
    case (rune c t d)
    then show ?thesis using less.hyps [OF _ rune(6)] by (auto dest: in_set_dropD)
  qed simp
qed

lemma runeLen_strBody:
  assumes "strBody (c # s) = Some (v, r)" "0x80 \<le> byte c"
  shows "runeLen (c # s @ t) = runeLen (c # s)"
proof (rule ccontr)
  assume "runeLen (c # s @ t) \<noteq> runeLen (c # s)"
  moreover have "CHR 0x22 \<in> set s"
    using strBody_has_quote [OF assms(1)] assms(2) by auto
  ultimately have "0x80 \<le> byte (CHR 0x22)" by (rule runeLen_extend)
  then show False by simp
qed


lemma strBody_head:
  assumes "runeLen s \<noteq> 0" "hd s \<noteq> CHR 0x22" "hd s \<noteq> CHR 0x5C" "0x20 \<le> byte (hd s)"
  shows "strBody s = map_option (\<lambda>(d, r). (take (runeLen s) s @ d, r)) (strBody (drop (runeLen s) s))"
  using assms by (cases s) (simp_all add: strBody.simps(2))

lemma strBody_append: "strBody s = Some (v, r) \<Longrightarrow> strBody (s @ t) = Some (v, r @ t)"
proof (induction "length s" arbitrary: s v rule: less_induct)
  case less
  note prems = less.prems
  from prems show ?case
  proof (cases rule: strBody_elim)
    case close
    then show ?thesis by (simp add: strBody_quote)
  next
    case (esc u out n d)
    have "escapeSeq (u @ t) = Some (out, n)" "n \<le> length u"
      using escapeSeq_append [OF esc(2,3)] by auto
    moreover have "strBody (drop n u @ t) = Some (d, r @ t)"
      using esc by (intro less.hyps) simp_all
    ultimately show ?thesis using esc by (simp add: strBody.simps(2))
  next
    case (bad c u d)
    have "runeLen (c # u @ t) = 0"
      using runeLen_strBody [of c u v r t] prems bad by simp
    moreover have "strBody (u @ t) = Some (d, r @ t)"
      using bad by (intro less.hyps) simp_all
    moreover have "c \<noteq> CHR 0x22" "c \<noteq> CHR 0x5C" "\<not> byte c < 0x20" using bad(2) by auto
    ultimately show ?thesis using bad by (simp add: strBody.simps(2))
  next
    case (rune c u d)
    have rl: "runeLen (s @ t) = runeLen s" using runeLen_append rune(5) by blast
    moreover have "strBody (drop (runeLen s) s @ t) = Some (d, r @ t)"
      using rune by (intro less.hyps) simp_all
    moreover have "hd (s @ t) = c" using rune(1) by simp
    ultimately show ?thesis
      using strBody_head [of "s @ t"] rune(2-7) runeLen_le [of s] by simp
  qed
qed

lemma p_append:
  shows pValue_append: "pValue n d s = Some (v, r) \<Longrightarrow> r \<noteq> [] \<or> stops t \<Longrightarrow>
      pValue n d (s @ t) = Some (v, r @ t)"
    and pElems_append: "pElems n d s = Some (vs, r) \<Longrightarrow> pElems n d (s @ t) = Some (vs, r @ t)"
    and pMembers_append: "pMembers n d s = Some (ms, r) \<Longrightarrow> pMembers n d (s @ t) = Some (ms, r @ t)"
proof (induction n arbitrary: d s v vs ms r)
  case 0
  { case 1 then show ?case by simp }
  { case 2 then show ?case by simp }
  { case 3 then show ?case by simp }
next
  case (Suc n)
  have numc: "numLit (c # x @ t) = Some (w, r @ t)"
    if "numLit (c # x) = Some (w, r)" "r \<noteq> [] \<or> stops t" for c x w r
    using numLit_append [OF that] by simp
  have litc: "litTok w x (c # y @ t) = Some (v, r @ t)"
    if "litTok w x (c # y) = Some (v, r)" for w x c y v r
    using litTok_append [OF that, of t] by simp
  { case 1
    note prems = 1
    from prems(1) show ?case
    proof (cases rule: pValue_elim)
      case (obj m u x w ms)
      then have "pMembers n (d - 1) (u @ t) = Some (ms, r @ t)" by (intro Suc.IH(3)) simp
      with obj show ?thesis by (simp add: skipWs_append)
    next
      case (arr m u x w vs)
      then have "pElems n (d - 1) (u @ t) = Some (vs, r @ t)" by (intro Suc.IH(2)) simp
      with arr show ?thesis by (simp add: skipWs_append)
    qed (use prems(2) in \<open>simp_all add: skipWs_append strBody_append numc litc\<close>) }
  { case 2
    then show ?case
    proof (cases rule: pElems_elim)
      case (more m v r1 u vs')
      then have "pValue n d (s @ t) = Some (v, r1 @ t)"
        by (intro Suc.IH(1)) (auto simp: skipWs_def)
      moreover have "pElems n d (u @ t) = Some (vs', r @ t)" using more by (intro Suc.IH(2)) simp
      ultimately show ?thesis using more by (simp add: skipWs_append)
    next
      case (last m v r1)
      then have "pValue n d (s @ t) = Some (v, r1 @ t)"
        by (intro Suc.IH(1)) (auto simp: skipWs_def)
      with last show ?thesis by (simp add: skipWs_append)
    qed }
  { case 3
    then show ?case
    proof (cases rule: pMembers_elim)
      case (more m u k r0 w v r1 u' ms')
      then have "pValue n d (w @ t) = Some (v, r1 @ t)"
        by (intro Suc.IH(1)) (auto simp: skipWs_def)
      moreover have "pMembers n d (u' @ t) = Some (ms', r @ t)" using more by (intro Suc.IH(3)) simp
      ultimately show ?thesis using more by (simp add: skipWs_append strBody_append)
    next
      case (last m u k r0 w v r1)
      then have "pValue n d (w @ t) = Some (v, r1 @ t)"
        by (intro Suc.IH(1)) (auto simp: skipWs_def)
      with last show ?thesis by (simp add: skipWs_append strBody_append)
    qed }
qed

section \<open>The encoder\<close>

text \<open>
  \<open>json.Marshal\<close> of a value, compact, the members of an object in the order given (for a struct,
  the order of its fields). \<open>json.Encoder\<close> adds a line feed.
\<close>

fun marshal :: "json \<Rightarrow> string" where
  "marshal JNull = ''null''"
| "marshal (JBool b) = (if b then ''true'' else ''false'')"
| "marshal (JNum n) = n"
| "marshal (JStr s) = quote s"
| "marshal (JArr vs) = CHR ''['' # joinWith CHR '','' (map marshal vs) @ '']''"
| "marshal (JObj ms) =
     CHR ''{'' # joinWith CHR '','' (map (\<lambda>(k, v). quote k @ CHR '':'' # marshal v) ms) @ ''}''"

definition encodeLine :: "json \<Rightarrow> string" where
  "encodeLine v = marshal v @ [CHR 0x0A]"

text \<open>What a reader gets back: strings made valid UTF-8.\<close>

fun normJson :: "json \<Rightarrow> json" where
  "normJson (JStr s) = JStr (normUtf8 s)"
| "normJson (JArr vs) = JArr (map normJson vs)"
| "normJson (JObj ms) = JObj (map (\<lambda>(k, v). (normUtf8 k, normJson v)) ms)"
| "normJson v = v"

text \<open>Well-formed: numbers are number literals, and nesting stays within a bound.\<close>

definition numOk :: "string \<Rightarrow> bool" where
  "numOk n \<longleftrightarrow> numLit n = Some (n, []) \<and> n \<noteq> [] \<and>
     hd n \<in> set ''-0123456789''"

fun jsonOk :: "nat \<Rightarrow> json \<Rightarrow> bool" where
  "jsonOk d (JNum n) = numOk n"
| "jsonOk d (JArr vs) = (0 < d \<and> (\<forall>v \<in> set vs. jsonOk (d - 1) v))"
| "jsonOk d (JObj ms) = (0 < d \<and> (\<forall>(k, v) \<in> set ms. jsonOk (d - 1) v))"
| "jsonOk d v = True"

definition parses :: "nat \<Rightarrow> string \<Rightarrow> json \<Rightarrow> string \<Rightarrow> bool" where
  "parses d s v r \<longleftrightarrow> (\<exists>n. pValue n d s = Some (v, r))"

lemma marshal_head:
  assumes "jsonOk d v"
  obtains c t where "marshal v = c # t" "\<not> isWs c" "c \<noteq> CHR '']''"
proof (cases v)
  case (JNum n)
  with assms obtain c t where "n = c # t" "c \<in> set ''-0123456789''"
    by (cases n) (auto simp: numOk_def)
  with JNum that show ?thesis by (auto simp: isWs_def)
next
  case (JBool b)
  with that show ?thesis by (cases b) (auto simp: isWs_def)
qed (use that in \<open>auto simp: isWs_def quote_def split: if_splits\<close>)

lemma skipWs_head: "\<not> isWs c \<Longrightarrow> skipWs (c # t) = c # t"
  by (simp add: skipWs_def)

lemma parses_num:
  assumes "numOk n" "stops r"
  shows "parses d (n @ r) (JNum n) r"
proof -
  obtain c t where c: "n = c # t" "c \<in> set ''-0123456789''"
    using assms(1) by (cases n) (auto simp: numOk_def)
  have "numLit (c # t @ r) = Some (n, r)"
    using numLit_append [of n n "[]" r] assms c(1) by (simp add: numOk_def)
  moreover have "\<not> isWs c" using c(2) by (auto simp: isWs_def)
  ultimately have "pValue (Suc 0) d (n @ r) = Some (JNum n, r)"
    using c by (auto simp: skipWs_head)
  then show ?thesis unfolding parses_def by blast
qed


definition parsesE :: "nat \<Rightarrow> string \<Rightarrow> json list \<Rightarrow> string \<Rightarrow> bool" where
  "parsesE d s vs r \<longleftrightarrow> (\<exists>n. pElems n d s = Some (vs, r))"

definition parsesM :: "nat \<Rightarrow> string \<Rightarrow> (string \<times> json) list \<Rightarrow> string \<Rightarrow> bool" where
  "parsesM d s ms r \<longleftrightarrow> (\<exists>n. pMembers n d s = Some (ms, r))"

lemma pElems_more: "n \<le> m \<Longrightarrow> pElems n d s = Some (v, r) \<Longrightarrow> pElems m d s = Some (v, r)"
  by (induction m rule: dec_induct) (auto simp del: pElems.simps dest: p_mono(2))

lemma pMembers_more: "n \<le> m \<Longrightarrow> pMembers n d s = Some (v, r) \<Longrightarrow> pMembers m d s = Some (v, r)"
  by (induction m rule: dec_induct) (auto simp del: pMembers.simps dest: p_mono(3))

lemma parseDepth_iff: "parseDepth d s = Some v \<longleftrightarrow> (\<exists>r. parses d s v r \<and> skipWs r = [])"
  unfolding parseDepth_def parses_def
  by (auto split: option.splits if_splits dest: pValue_fuelFor)

lemma parses_str: "parses d (quote s @ r) (JStr (normUtf8 s)) r"
proof -
  have "pValue (Suc 0) d (quote s @ r) = Some (JStr (normUtf8 s), r)"
    by (simp add: quote_def skipWs_def isWs_def strBody_quoteBody)
  then show ?thesis unfolding parses_def by blast
qed

lemma parsesE_last:
  assumes "parses d s v r1" "skipWs r1 = CHR '']'' # r"
  shows "parsesE d s [v] r"
proof -
  obtain n where "pValue n d s = Some (v, r1)" using assms(1) unfolding parses_def by blast
  with assms(2) have "pElems (Suc n) d s = Some ([v], r)" by simp
  then show ?thesis unfolding parsesE_def by blast
qed

lemma parsesE_more:
  assumes "parses d s v r1" "skipWs r1 = CHR '','' # u" "parsesE d u vs r"
  shows "parsesE d s (v # vs) r"
proof -
  obtain n m where "pValue n d s = Some (v, r1)" "pElems m d u = Some (vs, r)"
    using assms(1,3) unfolding parses_def parsesE_def by blast
  then have "pValue (max n m) d s = Some (v, r1)" "pElems (max n m) d u = Some (vs, r)"
    using pValue_more [of n "max n m"] pElems_more [of m "max n m"] by auto
  with assms(2) have "pElems (Suc (max n m)) d s = Some (v # vs, r)"
    by (simp del: pElems.simps add: pElems.simps(2))
  then show ?thesis unfolding parsesE_def by blast
qed

lemma pMembers_key:
  "pMembers (Suc n) d (quote k @ CHR '':'' # s) =
     (case pValue n d s of None \<Rightarrow> None | Some (v, r) \<Rightarrow>
        (case skipWs r of [] \<Rightarrow> None | c # u \<Rightarrow>
           if c = CHR '','' then map_option (\<lambda>(ms, r'). ((normUtf8 k, v) # ms, r')) (pMembers n d u)
           else if c = CHR ''}'' then Some ([(normUtf8 k, v)], u)
           else None))"
  by (simp add: quote_def skipWs_def isWs_def strBody_quoteBody)

lemma parsesM_last:
  assumes "parses d s v r1" "skipWs r1 = CHR ''}'' # r"
  shows "parsesM d (quote k @ CHR '':'' # s) [(normUtf8 k, v)] r"
proof -
  obtain n where "pValue n d s = Some (v, r1)" using assms(1) unfolding parses_def by blast
  with assms(2) have "pMembers (Suc n) d (quote k @ CHR '':'' # s) = Some ([(normUtf8 k, v)], r)"
    by (simp only: pMembers_key option.case prod.case list.case) simp
  then show ?thesis unfolding parsesM_def by blast
qed

lemma parsesM_more:
  assumes "parses d s v r1" "skipWs r1 = CHR '','' # u" "parsesM d u ms r"
  shows "parsesM d (quote k @ CHR '':'' # s) ((normUtf8 k, v) # ms) r"
proof -
  obtain n m where "pValue n d s = Some (v, r1)" "pMembers m d u = Some (ms, r)"
    using assms(1,3) unfolding parses_def parsesM_def by blast
  then have "pValue (max n m) d s = Some (v, r1)" "pMembers (max n m) d u = Some (ms, r)"
    using pValue_more [of n "max n m"] pMembers_more [of m "max n m"] by auto
  with assms(2) have "pMembers (Suc (max n m)) d (quote k @ CHR '':'' # s) = Some ((normUtf8 k, v) # ms, r)"
    by (simp only: pMembers_key option.case prod.case list.case) simp
  then show ?thesis unfolding parsesM_def by blast
qed

lemma parses_arr0: "parses (Suc d) (CHR ''['' # CHR '']'' # r) (JArr []) r"
  unfolding parses_def by (rule exI [of _ "Suc 0"]) (simp add: skipWs_def isWs_def)

lemma parses_obj0: "parses (Suc d) (CHR ''{'' # CHR ''}'' # r) (JObj []) r"
  unfolding parses_def by (rule exI [of _ "Suc 0"]) (simp add: skipWs_def isWs_def)

lemma parses_arr:
  assumes "parsesE d (c # t) vs r" "\<not> isWs c" "c \<noteq> CHR '']''"
  shows "parses (Suc d) (CHR ''['' # c # t) (JArr vs) r"
proof -
  obtain n where "pElems n d (c # t) = Some (vs, r)" using assms(1) unfolding parsesE_def by blast
  with assms(2,3) have "pValue (Suc n) (Suc d) (CHR ''['' # c # t) = Some (JArr vs, r)"
    by (simp del: pElems.simps add: skipWs_head isWs_def [of "CHR ''[''"])
  then show ?thesis unfolding parses_def by blast
qed

lemma parses_obj:
  assumes "parsesM d (CHR 0x22 # t) ms r"
  shows "parses (Suc d) (CHR ''{'' # CHR 0x22 # t) (JObj ms) r"
proof -
  obtain n where "pMembers n d (CHR 0x22 # t) = Some (ms, r)" using assms unfolding parsesM_def by blast
  then have "pValue (Suc n) (Suc d) (CHR ''{'' # CHR 0x22 # t) = Some (JObj ms, r)"
    by (simp del: pMembers.simps add: skipWs_def isWs_def)
  then show ?thesis unfolding parses_def by blast
qed

lemma parses_lit:
  "parses d (''null'' @ r) JNull r"
  "parses d (''true'' @ r) (JBool True) r"
  "parses d (''false'' @ r) (JBool False) r"
  unfolding parses_def
  by (rule exI [of _ "Suc 0"], simp add: skipWs_def isWs_def litTok_def)+

lemma parses_append: "parses d s v r \<Longrightarrow> r \<noteq> [] \<or> stops t \<Longrightarrow> parses d (s @ t) v (r @ t)"
  unfolding parses_def using pValue_append by blast

lemma parses_ws: "parses d (skipWs s) v r \<Longrightarrow> parses d s v r"
proof -
  have "pValue n d (skipWs s) = pValue n d s" for n
    by (cases n) (simp_all add: skipWs_def)
  then show "parses d (skipWs s) v r \<Longrightarrow> parses d s v r" by (simp add: parses_def)
qed


section \<open>What the encoder writes is read back\<close>

lemma stops_delim: "stops (CHR '','' # t)" "stops (CHR '']'' # t)" "stops (CHR ''}'' # t)" "stops []"
  by (simp_all add: stops_def)

lemma skipWs_delim: "skipWs (CHR '','' # t) = CHR '','' # t" "skipWs (CHR '']'' # t) = CHR '']'' # t"
  "skipWs (CHR ''}'' # t) = CHR ''}'' # t"
  by (simp_all add: skipWs_def isWs_def)

lemma parsesE_marshal:
  assumes "vs \<noteq> []"
    and "\<And>v r. v \<in> set vs \<Longrightarrow> stops r \<Longrightarrow> parses d (marshal v @ r) (normJson v) r"
  shows "parsesE d (joinWith CHR '','' (map marshal vs) @ CHR '']'' # r) (map normJson vs) r"
  using assms
proof (induction vs)
  case (Cons v vs)
  show ?case
  proof (cases vs)
    case Nil
    then show ?thesis
      using Cons.prems(2) [of v "CHR '']'' # r"] by (auto simp: stops_delim skipWs_delim intro: parsesE_last)
  next
    case (Cons w ws)
    let ?t = "joinWith CHR '','' (map marshal vs) @ CHR '']'' # r"
    have "parsesE d ?t (map normJson vs) r"
      using Cons Cons.prems by (intro Cons.IH) auto
    moreover have "parses d (marshal v @ CHR '','' # ?t) (normJson v) (CHR '','' # ?t)"
      using Cons.prems(2) by (simp add: stops_delim)
    ultimately show ?thesis
      using Cons by (simp add: joinWith_Cons parsesE_more [OF _ skipWs_delim(1)])
  qed
qed simp

lemma parsesM_marshal:
  assumes "ms \<noteq> []"
    and "\<And>k v r. (k, v) \<in> set ms \<Longrightarrow> stops r \<Longrightarrow> parses d (marshal v @ r) (normJson v) r"
  shows "parsesM d (joinWith CHR '','' (map (\<lambda>(k, v). quote k @ CHR '':'' # marshal v) ms) @ CHR ''}'' # r)
    (map (\<lambda>(k, v). (normUtf8 k, normJson v)) ms) r"
  using assms
proof (induction ms)
  case (Cons m ms)
  obtain k v where m: "m = (k, v)" by (cases m)
  let ?f = "\<lambda>(k, v). quote k @ CHR '':'' # marshal v"
  show ?case
  proof (cases ms)
    case Nil
    then show ?thesis
      using Cons.prems(2) [of k v "CHR ''}'' # r"] m
      by (simp add: stops_delim parsesM_last [OF _ skipWs_delim(3)])
  next
    case (Cons w ws)
    let ?t = "joinWith CHR '','' (map ?f ms) @ CHR ''}'' # r"
    have "parsesM d ?t (map (\<lambda>(k, v). (normUtf8 k, normJson v)) ms) r"
      using Cons Cons.prems by (intro Cons.IH) auto
    moreover have "parses d (marshal v @ CHR '','' # ?t) (normJson v) (CHR '','' # ?t)"
      using Cons.prems(2) [of k v "CHR '','' # ?t"] m by (simp add: stops_delim)
    ultimately show ?thesis
      using Cons m by (simp add: joinWith_Cons parsesM_more [OF _ skipWs_delim(1)])
  qed
qed simp

lemma join_quote_head:
  "ms \<noteq> [] \<Longrightarrow> \<exists>t. joinWith CHR '','' (map (\<lambda>(k, v). quote k @ CHR '':'' # marshal v) ms) @ r = CHR 0x22 # t"
  by (cases ms; cases "tl ms") (auto simp: quote_def split: prod.splits)

lemma join_marshal_head:
  assumes "vs \<noteq> []" "\<forall>v \<in> set vs. jsonOk d v"
  obtains c t where "joinWith CHR '','' (map marshal vs) @ r = c # t" "\<not> isWs c" "c \<noteq> CHR '']''"
proof -
  obtain v ws where vs: "vs = v # ws" using assms(1) by (cases vs) auto
  obtain c t where "marshal v = c # t" "\<not> isWs c" "c \<noteq> CHR '']''"
    using marshal_head assms(2) vs by (metis list.set_intros(1))
  then show ?thesis using that vs by (cases ws) auto
qed

lemma parses_marshal: "jsonOk d v \<Longrightarrow> stops r \<Longrightarrow> parses d (marshal v @ r) (normJson v) r"
proof (induction v arbitrary: d r)
  case (JNum n)
  then show ?case by (simp add: parses_num)
next
  case (JStr s)
  then show ?case by (simp add: parses_str)
next
  case (JArr vs)
  then obtain d' where d: "d = Suc d'" by (cases d) auto
  show ?case
  proof (cases "vs = []")
    case True
    then show ?thesis using d by (simp add: parses_arr0)
  next
    case False
    have ok: "\<forall>v \<in> set vs. jsonOk d' v" using JArr.prems(1) d by simp
    have "parsesE d' (joinWith CHR '','' (map marshal vs) @ CHR '']'' # r) (map normJson vs) r"
      using False ok JArr.IH by (intro parsesE_marshal) auto
    with join_marshal_head [OF False ok, of "CHR '']'' # r"] show ?thesis
      using d by (metis marshal.simps(5) normJson.simps(2) append_Cons append.assoc append_Nil parses_arr)
  qed
next
  case (JObj ms)
  then obtain d' where d: "d = Suc d'" by (cases d) auto
  show ?case
  proof (cases "ms = []")
    case True
    then show ?thesis using d by (simp add: parses_obj0)
  next
    case False
    have "parsesM d' (joinWith CHR '','' (map (\<lambda>(k, v). quote k @ CHR '':'' # marshal v) ms) @ CHR ''}'' # r)
        (map (\<lambda>(k, v). (normUtf8 k, normJson v)) ms) r"
      using False JObj.prems d by (intro parsesM_marshal) (auto intro!: JObj.IH)
    with join_quote_head [OF False, of "CHR ''}'' # r"] show ?thesis
      using d by (metis marshal.simps(6) normJson.simps(3) append_Cons append.assoc append_Nil parses_obj)
  qed
qed (simp_all add: parses_lit [simplified])

theorem parse_marshal: "jsonOk d v \<Longrightarrow> parseDepth d (marshal v) = Some (normJson v)"
  using parses_marshal [of d v "[]"] by (auto simp: parseDepth_iff stops_def skipWs_def)

theorem parse_encodeLine: "jsonOk d v \<Longrightarrow> parseDepth d (encodeLine v) = Some (normJson v)"
  using parses_marshal [of d v "[CHR 0x0A]"]
  by (auto simp: parseDepth_iff stops_def skipWs_def isWs_def encodeLine_def)

end
