(* ===== verification/GoUnmarshal.thy ===== *)
theory GoUnmarshal
  imports GoJsonFacts
begin

text \<open>
  Decoding of JSON into the structs and maps of the connector, as \<open>encoding/json\<close> does it: members
  are matched to fields exactly, then case-insensitively; unknown members are ignored; \<open>null\<close> leaves
  a field alone; a value of the wrong kind makes the call fail. A repeated member overwrites.
\<close>

section \<open>Field names\<close>

text \<open>
  \<open>foldName\<close> against an ASCII field name: ASCII letters to upper case, and the two other code points
  that fold to an ASCII letter, U+017F and U+212A.
\<close>

fun foldName :: "string \<Rightarrow> string" where
  "foldName [] = []"
| "foldName (c # s) =
     (if c = CHR 0xC5 \<and> take 1 s = [CHR 0xBF] then CHR ''S'' # foldName (drop 1 s)
      else if c = CHR 0xE2 \<and> take 2 s = [CHR 0x84, CHR 0xAA] then CHR ''K'' # foldName (drop 2 s)
      else upperChar c # foldName s)"

type_synonym 'r field = "string \<times> (json \<Rightarrow> 'r \<Rightarrow> 'r option)"

definition fieldFor :: "'r field list \<Rightarrow> string \<Rightarrow> 'r field option" where
  "fieldFor fs k = (case find (\<lambda>f. fst f = k) fs of
     Some f \<Rightarrow> Some f
   | None \<Rightarrow> find (\<lambda>f. foldName (fst f) = foldName k) fs)"

section \<open>Structs\<close>

fun decodeMembers :: "'r field list \<Rightarrow> (string \<times> json) list \<Rightarrow> 'r \<Rightarrow> 'r option" where
  "decodeMembers fs [] r = Some r"
| "decodeMembers fs ((k, v) # ms) r =
     (case fieldFor fs k of
        None \<Rightarrow> decodeMembers fs ms r
      | Some f \<Rightarrow> (case snd f v r of None \<Rightarrow> None | Some r' \<Rightarrow> decodeMembers fs ms r'))"

definition decodeStruct :: "'r field list \<Rightarrow> json \<Rightarrow> 'r \<Rightarrow> 'r option" where
  "decodeStruct fs v r = (case v of
     JNull \<Rightarrow> Some r
   | JObj ms \<Rightarrow> decodeMembers fs ms r
   | _ \<Rightarrow> None)"

definition strField :: "string \<Rightarrow> ((string \<Rightarrow> string) \<Rightarrow> 'r \<Rightarrow> 'r) \<Rightarrow> 'r field" where
  "strField n upd = (n, \<lambda>v r. case v of JStr s \<Rightarrow> Some (upd (\<lambda>_. s) r) | JNull \<Rightarrow> Some r | _ \<Rightarrow> None)"

definition boolField :: "string \<Rightarrow> ((bool \<Rightarrow> bool) \<Rightarrow> 'r \<Rightarrow> 'r) \<Rightarrow> 'r field" where
  "boolField n upd = (n, \<lambda>v r. case v of JBool b \<Rightarrow> Some (upd (\<lambda>_. b) r) | JNull \<Rightarrow> Some r | _ \<Rightarrow> None)"

text \<open>A number literal as an \<open>int64\<close>: an integer literal within range, anything else is an error.\<close>

definition digitsVal :: "string \<Rightarrow> int" where
  "digitsVal ds = foldl (\<lambda>n c. n * 10 + (int (byte c) - 48)) 0 ds"

definition intLit :: "string \<Rightarrow> int option" where
  "intLit s =
     (let neg = (take 1 s = ''-''); ds = (if neg then drop 1 s else s);
          n = (if neg then - digitsVal ds else digitsVal ds)
      in if ds \<noteq> [] \<and> list_all isDigit ds \<and> - (2 ^ 63) \<le> n \<and> n < 2 ^ 63 then Some n else None)"

definition intField :: "string \<Rightarrow> ((int \<Rightarrow> int) \<Rightarrow> 'r \<Rightarrow> 'r) \<Rightarrow> 'r field" where
  "intField n upd = (n, \<lambda>v r. case v of
      JNum s \<Rightarrow> (case intLit s of Some i \<Rightarrow> Some (upd (\<lambda>_. i) r) | None \<Rightarrow> None)
    | JNull \<Rightarrow> Some r
    | _ \<Rightarrow> None)"

fun decodeList :: "(json \<Rightarrow> 'a option) \<Rightarrow> json list \<Rightarrow> 'a list option" where
  "decodeList f [] = Some []"
| "decodeList f (v # vs) =
     (case f v of None \<Rightarrow> None | Some x \<Rightarrow> map_option ((#) x) (decodeList f vs))"

definition listField :: "string \<Rightarrow> (json \<Rightarrow> 'a option) \<Rightarrow> (('a list \<Rightarrow> 'a list) \<Rightarrow> 'r \<Rightarrow> 'r) \<Rightarrow> 'r field" where
  "listField n f upd = (n, \<lambda>v r. case v of
      JArr vs \<Rightarrow> map_option (\<lambda>xs. upd (\<lambda>_. xs) r) (decodeList f vs)
    | JNull \<Rightarrow> Some (upd (\<lambda>_. []) r)
    | _ \<Rightarrow> None)"

definition decodeString :: "json \<Rightarrow> string option" where
  "decodeString v = (case v of JStr s \<Rightarrow> Some s | JNull \<Rightarrow> Some [] | _ \<Rightarrow> None)"

section \<open>Maps of strings\<close>

fun decodeEntries :: "(string \<times> json) list \<Rightarrow> (string \<rightharpoonup> string) \<Rightarrow> (string \<rightharpoonup> string) option" where
  "decodeEntries [] m = Some m"
| "decodeEntries ((k, v) # ms) m =
     (case decodeString v of None \<Rightarrow> None | Some s \<Rightarrow> decodeEntries ms (m(k \<mapsto> s)))"

definition decodeStringMap :: "json \<Rightarrow> (string \<rightharpoonup> string) option" where
  "decodeStringMap v = (case v of
     JNull \<Rightarrow> Some Map.empty
   | JObj ms \<Rightarrow> decodeEntries ms Map.empty
   | _ \<Rightarrow> None)"

section \<open>Unmarshal and Decoder.Decode\<close>

text \<open>\<open>json.Unmarshal\<close> reads the whole text, \<open>Decoder.Decode\<close> the first value of a stream.\<close>

definition unmarshal :: "(json \<Rightarrow> 'a option) \<Rightarrow> string \<Rightarrow> 'a option" where
  "unmarshal f s = (case parseJson s of None \<Rightarrow> None | Some v \<Rightarrow> f v)"

definition decodeFirst :: "(json \<Rightarrow> 'a option) \<Rightarrow> string \<Rightarrow> 'a option" where
  "decodeFirst f s = (case pValue (fuelFor s) maxNestingDepth s of None \<Rightarrow> None | Some (v, _) \<Rightarrow> f v)"

lemma unmarshal_decodeFirst: "unmarshal f s = Some x \<Longrightarrow> decodeFirst f s = Some x"
  by (auto simp: unmarshal_def decodeFirst_def parseJson_def parseDepth_def
      split: option.splits if_splits)

lemma decodeEntries_keys:
  "decodeEntries ms m = Some m' \<Longrightarrow> dom m' = dom m \<union> fst ` set ms"
proof (induction ms m rule: decodeEntries.induct)
  case (2 k v ms m)
  then obtain s where "decodeString v = Some s" "decodeEntries ms (m(k \<mapsto> s)) = Some m'"
    by (auto split: option.splits)
  with 2(1) have "dom m' = dom (m(k \<mapsto> s)) \<union> fst ` set ms" by blast
  then show ?case by (simp add: insert_commute)
qed simp

lemma decodeMembers_unknown:
  "\<forall>(k, v) \<in> set ms. fieldFor fs k = None \<Longrightarrow> decodeMembers fs ms r = Some r"
  by (induction ms) auto

end
