(* ===== verification/HubCheckCache.thy ===== *)
theory HubCheckCache
  imports Prelude "HOL-Library.Finite_Map"
begin

text \<open>
  \<open>lib/handler/health/cache.go\<close>: the cache of positive hub access checks. Times are nanoseconds
  since Go's zero time (so the zero \<open>nextPrune\<close> is 0), durations nanoseconds; the mutex makes each
  operation one atomic step, so a run is a sequence of them. Shown here: the cache never holds more
  than \<open>maxEntries\<close>, and \<open>has\<close> answers true only for a key added within the duration.
\<close>

section \<open>State and operations\<close>

type_synonym hubCheckKey = "string \<times> string"

record hubCheckCache =
  duration :: int
  maxEntries :: int
  expiry :: "(hubCheckKey, int) fmap"
  nextPrune :: int

definition newHubCheckCache :: "int \<Rightarrow> int \<Rightarrow> hubCheckCache" where
  "newHubCheckCache d m = \<lparr>duration = d, maxEntries = m, expiry = fmempty, nextPrune = 0\<rparr>"

definition cacheHas :: "hubCheckCache \<Rightarrow> hubCheckKey \<Rightarrow> int \<Rightarrow> bool" where
  "cacheHas c key now =
     (if duration c \<le> 0 then False
      else (case fmlookup (expiry c) key of None \<Rightarrow> False | Some e \<Rightarrow> now < e))"

text \<open>The pruning loop deletes every key whose expiry is not after \<open>now\<close>.\<close>

definition prune :: "hubCheckCache \<Rightarrow> int \<Rightarrow> hubCheckCache" where
  "prune c now =
     (if \<not> now < nextPrune c
      then c\<lparr>expiry := fmfilter
                 (\<lambda>k. case fmlookup (expiry c) k of None \<Rightarrow> True | Some e \<Rightarrow> now < e) (expiry c),
             nextPrune := now + duration c\<rparr>
      else c)"

definition cacheSize :: "hubCheckCache \<Rightarrow> int" where
  "cacheSize c = int (fcard (fmdom (expiry c)))"

definition cacheAdd :: "hubCheckCache \<Rightarrow> hubCheckKey \<Rightarrow> int \<Rightarrow> hubCheckCache" where
  "cacheAdd c key now =
     (if duration c \<le> 0 then c
      else
        let c1 = prune c now;
            c2 = (if fmlookup (expiry c1) key = None \<and> maxEntries c1 \<le> cacheSize c1
                  then c1\<lparr>expiry := fmempty\<rparr> else c1)
        in c2\<lparr>expiry := fmupd key (now + duration c2) (expiry c2)\<rparr>)"

section \<open>What a run of additions leaves\<close>

lemma prune_simps [simp]:
  "duration (prune c now) = duration c" "maxEntries (prune c now) = maxEntries c"
  by (simp_all add: prune_def)

lemma prune_lookup:
  "fmlookup (expiry (prune c now)) k = Some e \<Longrightarrow> fmlookup (expiry c) k = Some e"
  by (auto simp: prune_def split: if_splits option.splits)

lemma prune_keeps:
  "fmlookup (expiry c) k = Some e \<Longrightarrow> now < e \<Longrightarrow> fmlookup (expiry (prune c now)) k = Some e"
  by (auto simp: prune_def)

lemma cacheSize_alt: "cacheSize c = int (card (dom (fmlookup (expiry c))))"
  by (simp add: cacheSize_def fcard.rep_eq fmdom.rep_eq)

lemma prune_size: "cacheSize (prune c now) \<le> cacheSize c"
proof -
  have "dom (fmlookup (expiry (prune c now))) \<subseteq> dom (fmlookup (expiry c))"
    using prune_lookup by blast
  then show ?thesis by (simp add: cacheSize_alt card_mono)
qed

lemma cacheAdd_simps [simp]:
  "duration (cacheAdd c k now) = duration c" "maxEntries (cacheAdd c k now) = maxEntries c"
  by (simp_all add: cacheAdd_def Let_def)

lemma cacheAdd_lookup:
  "fmlookup (expiry (cacheAdd c k now)) k' = Some e \<Longrightarrow>
   fmlookup (expiry c) k' = Some e \<or> k' = k \<and> e = now + duration c \<and> 0 < duration c"
  by (auto simp: cacheAdd_def Let_def split: if_splits dest: prune_lookup)

lemma cacheAdd_self:
  "0 < duration c \<Longrightarrow> fmlookup (expiry (cacheAdd c k now)) k = Some (now + duration c)"
  by (simp add: cacheAdd_def Let_def)

text \<open>The bound: with room for at least one entry, no addition takes the cache past \<open>maxEntries\<close>.\<close>

definition withinMax :: "hubCheckCache \<Rightarrow> bool" where
  "withinMax c \<longleftrightarrow> cacheSize c \<le> maxEntries c"

lemma cacheSize_fmupd:
  "cacheSize (c\<lparr>expiry := fmupd k e m\<rparr>) =
     (if fmlookup m k = None then int (card (dom (fmlookup m))) + 1 else int (card (dom (fmlookup m))))"
proof -
  have "dom (fmlookup (fmupd k e m)) = insert k (dom (fmlookup m))" by auto
  then show ?thesis by (auto simp: cacheSize_alt card_insert_if domIff fmlookup_dom'_iff)
qed

lemma withinMax_new: "0 \<le> m \<Longrightarrow> withinMax (newHubCheckCache d m)"
  by (simp add: withinMax_def newHubCheckCache_def cacheSize_alt)

lemma withinMax_add:
  assumes "withinMax c" "1 \<le> maxEntries c"
  shows "withinMax (cacheAdd c k now)"
proof -
  have "cacheSize (prune c now) \<le> maxEntries c"
    using assms(1) prune_size [of c now] by (simp add: withinMax_def)
  then show ?thesis
    using assms by (auto simp: cacheAdd_def Let_def withinMax_def cacheSize_fmupd) (auto simp: cacheSize_alt)
qed

section \<open>The contract of a cache of positive answers\<close>

text \<open>
  What the health handler relies on: a positive answer is one that was added, and it is forgotten
  when its time to live is over. \<open>has\<close> may forget earlier, it may never invent.
\<close>

locale positive_cache =
  fixes has :: "'c \<Rightarrow> 'k \<Rightarrow> int \<Rightarrow> bool"
    and add :: "'c \<Rightarrow> 'k \<Rightarrow> int \<Rightarrow> 'c"
    and ttl :: "'c \<Rightarrow> int"
  assumes ttl_add: "ttl (add c k now) = ttl c"
    and has_add: "has (add c k now) k' t \<Longrightarrow> has c k' t \<or> k' = k \<and> t < now + ttl c"
    and has_new: "0 < ttl c \<Longrightarrow> t < now + ttl c \<Longrightarrow> has (add c k now) k t"
    and has_before: "has c k t \<Longrightarrow> t' \<le> t \<Longrightarrow> has c k t'"
    and disabled: "ttl c \<le> 0 \<Longrightarrow> \<not> has c k t"
begin

fun adds :: "'c \<Rightarrow> ('k \<times> int) list \<Rightarrow> 'c" where
  "adds c [] = c"
| "adds c ((k, now) # h) = adds (add c k now) h"

lemma ttl_adds: "ttl (adds c h) = ttl c"
  by (induction c h rule: adds.induct) (simp_all add: ttl_add)

lemma has_adds:
  "has (adds c h) k t \<Longrightarrow> has c k t \<or> (\<exists>u. (k, u) \<in> set h \<and> t < u + ttl c)"
proof (induction c h rule: adds.induct)
  case (2 c k' now h)
  then show ?case using has_add [of c k' now k t] by (auto simp: ttl_add)
qed simp

lemma has_fresh: "\<forall>k t. \<not> has c k t \<Longrightarrow> has (adds c h) k t \<Longrightarrow> \<exists>u. (k, u) \<in> set h \<and> t < u + ttl c"
  using has_adds by blast

end

interpretation hcc: positive_cache cacheHas cacheAdd duration
proof unfold_locales
  fix c k now k' t
  assume "cacheHas (cacheAdd c k now) k' t"
  then obtain e where "0 < duration c" "fmlookup (expiry (cacheAdd c k now)) k' = Some e" "t < e"
    by (auto simp: cacheHas_def split: if_splits option.splits)
  then show "cacheHas c k' t \<or> k' = k \<and> t < now + duration c"
    using cacheAdd_lookup [of c k now k' e] by (auto simp: cacheHas_def)
qed (auto simp: cacheHas_def cacheAdd_self split: if_splits option.splits)

text \<open>Additions that miss the expiry of the pruned keys only: an answer still valid survives pruning.\<close>

lemma cacheAdd_keeps:
  assumes "cacheHas c k' t" "now \<le> t" "cacheSize c < maxEntries c" "k' \<noteq> k"
  shows "cacheHas (cacheAdd c k now) k' t"
proof -
  obtain e where e: "0 < duration c" "fmlookup (expiry c) k' = Some e" "t < e"
    using assms(1) by (auto simp: cacheHas_def split: if_splits option.splits)
  have "fmlookup (expiry (prune c now)) k' = Some e"
    using e assms(2) by (intro prune_keeps) simp_all
  moreover have "\<not> maxEntries c \<le> cacheSize (prune c now)"
    using assms(3) prune_size [of c now] by simp
  ultimately show ?thesis
    using e assms(4) by (simp add: cacheHas_def cacheAdd_def Let_def)
qed

text \<open>Two prunes are at least one duration apart.\<close>

lemma prune_next: "nextPrune c \<le> now \<Longrightarrow> nextPrune (prune c now) = now + duration c"
  by (simp add: prune_def)

lemma prune_idle: "now < nextPrune c \<Longrightarrow> prune c now = c"
  by (simp add: prune_def)

end
