(* ===== verification/Services.thy ===== *)
theory Services
  imports Configuration GoUnmarshal HubCheckCache
begin

text \<open>
  What the connector is built on and does not contain: the platform connector library, its security,
  device repository, cache, producer and logging services, the HTTP client, the MQTT client and the
  wmbusmeters program. They are parameters of the model, functions of an abstract world \<open>'w\<close> gathered
  in the record \<open>connector\<close>; nothing is assumed of them. Each call is recorded with its arguments and
  its answer in the call log of the system state, so a property can say which calls an operation
  makes, in which order, and on the strength of which answers.
\<close>

section \<open>Errors\<close>

text \<open>
  A Go \<open>error\<close>: its text and the sentinel errors in its chain, which is what \<open>errors.Is\<close> looks at.
  A nil error is \<open>None\<close>.
\<close>

datatype sentinel =
    ErrorNotFound | ErrorAccessDenied | ErrorUnknownLocalServiceId | MarshallingErr
  | ErrUnexpectedField | ErrMissingField | ErrUnexpectedType | CacheErrNotFound
  | ServiceNotFound | ErrReportTooLarge | ErrInvalidReport | ErrHubAccessDenied | ErrMissingUserId
  | MissingHubIdInTopicError | NonAdminRequestToPlaceholderTopicError | HubAccessDeniedError
  | ErrorEncrypted | ErrorWrongKey | ErrorUnknownDriver | ErrorInvalidDriversDir

datatype goerror = GoError (errText: string) (errChain: "sentinel list")

definition errorsNew :: "string \<Rightarrow> goerror" where
  "errorsNew t = GoError t []"

definition errorsIs :: "goerror \<Rightarrow> sentinel \<Rightarrow> bool" where
  "errorsIs e x \<longleftrightarrow> x \<in> set (errChain e)"

section \<open>Data of the platform\<close>

record attribute = attrKey :: string  attrValue :: string  attrOrigin :: string

record device =
  devId :: string
  devLocalId :: string
  devName :: string
  devAttributes :: "attribute list"
  devTypeId :: string

text \<open>\<open>event.DeviceStub\<close>: a device of the waiting room.\<close>

record deviceStub =
  stDevice :: device
  stUserId :: "string option"
  stHidden :: bool
  stCreatedAt :: "int option"
  stLastUpdate :: "int option"

text \<open>\<open>EncryptedMessage\<close> of the wmbus device connector: a received telegram and who sent it.\<close>

record encryptedMsg =
  emManufacturer :: string
  emType :: string
  emVersion :: string
  emMeterId :: string
  emTelegram :: string

record contentVar = cvName :: string  cvType :: string

text \<open>A service with, for each output, the sub content variables of its content variable.\<close>

record service = svLocalId :: string  svOutputs :: "contentVar list list"

record deviceType =
  dtId :: string
  dtAttributes :: "attribute list"
  dtServices :: "service list"

record hub = hubOwnerId :: string  hubDeviceLocalIds :: "string list"

record jwtToken = jwtUserId :: string  jwtIsAdmin :: bool

record jwtPayload = plUserId :: string  plRoles :: "string list"

record trace = trTimestamp :: int  trTimeUnit :: string  trLocation :: string

record protocolMsg =
  pmDeviceId :: string
  pmDeviceOwnerId :: string
  pmDeviceLocalId :: string
  pmServiceLocalId :: string
  pmCompletionStrategy :: string
  pmTrace :: "trace list"

text \<open>\<open>model.RemoteInfo\<close>: where a login comes from.\<close>

record remoteInfo = riIp :: string  riPort :: string  riProtocol :: string

type_synonym eventMsg = "string \<rightharpoonup> string"

record handledInfo = hiDeviceId :: string  hiDeviceTypeId :: string  hiServiceIds :: "string list"

text \<open>\<open>response.ResponseEnvelope\<close>; its payload is a message type of the platform library.\<close>

record responseEnvelope =
  reCorrelationId :: string
  rePayload :: eventMsg
  reTrace :: "trace list"

section \<open>The call log\<close>

datatype stat =
    SourceReceive nat string
  | SourceReceiveHandled nat string
  | DeviceMsgReceive nat string string string "string list"
  | DeviceMsgHandled nat string string string "string list"

datatype call =
    CToken string "goerror + string"
  | CUserToken string string remoteInfo "goerror + string"
  | CExchangeToken string remoteInfo "goerror + string"
  | CAccess "goerror + string"
  | CUserId string "goerror + string"
  | CGetHub string string "goerror + hub"
  | CExistsHub string string "bool \<times> goerror option"
  | CDevice string string "goerror + device"
  | CDeviceType string string "goerror + deviceType"
  | CUpdateDeviceType string deviceType "goerror + deviceType"
  | CDeviceEvent string string string eventMsg int "handledInfo \<times> goerror option"
  | CCommandResponse protocolMsg eventMsg int "goerror option"
  | CClientError string string string
  | CDeviceError string device string
  | CCommandError string protocolMsg string
  | CGetProducer int "goerror option"
  | CProduce int string string string "goerror option"
  | CCorrelationGet string "goerror + protocolMsg"
  | CCorrelationSave protocolMsg "goerror + string"
  | CDeviceConnect string "goerror option"
  | CDeviceDisconnect string "goerror option"
  | CHubConnect string "goerror option"
  | CHubDisconnect string "goerror option"
  | CLimit string "goerror option"
  | CErrorMetric
  | CStat stat
  | CNow int
  | CCacheGet string "goerror + string"
  | CCacheSet string string int "goerror option"
  | CExec string "string list" "string \<times> goerror option"
  | CHead string string "goerror + int"
  | CPutAttributes string string "attribute list" "goerror option"
  | CPutStub string string deviceStub "deviceStub \<times> goerror option"
  | CUseLookup string "(goerror + deviceStub) option"
  | CUseFinish string "goerror + deviceStub" "goerror + deviceStub"
  | CGetJsonDevice string string "goerror + device"
  | CHttpGet string "goerror + (int \<times> string)"
  | CMqttConnected bool
  | CMqttPublish string int bool string "goerror option"
  | CRange "nat list"
  | CAfterFunc int string

section \<open>The services\<close>

type_synonym ('w, 'a) ext = "'w \<Rightarrow> 'a \<times> 'w"

record 'w connector =
  getCachedUserToken :: "string \<Rightarrow> ('w, goerror + string) ext"
  getUserToken :: "string \<Rightarrow> string \<Rightarrow> remoteInfo \<Rightarrow> ('w, goerror + string) ext"
  exchangeUserToken :: "string \<Rightarrow> remoteInfo \<Rightarrow> ('w, goerror + string) ext"
  access :: "('w, goerror + string) ext"
  getUserId :: "string \<Rightarrow> ('w, goerror + string) ext"
  getHub :: "string \<Rightarrow> string \<Rightarrow> ('w, goerror + hub) ext"
  existsHub :: "string \<Rightarrow> string \<Rightarrow> ('w, bool \<times> goerror option) ext"
  getDeviceByLocalId :: "string \<Rightarrow> string \<Rightarrow> ('w, goerror + device) ext"
  getDeviceType :: "string \<Rightarrow> string \<Rightarrow> ('w, goerror + deviceType) ext"
  updateDeviceType :: "string \<Rightarrow> deviceType \<Rightarrow> ('w, goerror + deviceType) ext"
  handleDeviceEvent :: "string \<Rightarrow> string \<Rightarrow> string \<Rightarrow> eventMsg \<Rightarrow> int \<Rightarrow>
    ('w, handledInfo \<times> goerror option) ext"
  handleCommandResponse :: "protocolMsg \<Rightarrow> eventMsg \<Rightarrow> int \<Rightarrow> ('w, goerror option) ext"
  handleClientError :: "string \<Rightarrow> string \<Rightarrow> string \<Rightarrow> ('w, unit) ext"
  handleDeviceError :: "string \<Rightarrow> device \<Rightarrow> string \<Rightarrow> ('w, unit) ext"
  handleCommandErr :: "string \<Rightarrow> protocolMsg \<Rightarrow> string \<Rightarrow> ('w, unit) ext"
  getProducer :: "int \<Rightarrow> ('w, goerror option) ext"
  produceWithKey :: "int \<Rightarrow> string \<Rightarrow> string \<Rightarrow> string \<Rightarrow> ('w, goerror option) ext"
  correlationGet :: "string \<Rightarrow> ('w, goerror + protocolMsg) ext"
  correlationSave :: "protocolMsg \<Rightarrow> ('w, goerror + string) ext"
  logDeviceConnect :: "string \<Rightarrow> ('w, goerror option) ext"
  logDeviceDisconnect :: "string \<Rightarrow> ('w, goerror option) ext"
  logHubConnect :: "string \<Rightarrow> ('w, goerror option) ext"
  logHubDisconnect :: "string \<Rightarrow> ('w, goerror option) ext"
  limitCheck :: "string \<Rightarrow> ('w, goerror option) ext"
  errorMetricInc :: "('w, unit) ext"
  statistics :: "stat \<Rightarrow> ('w, unit) ext"
  timeNow :: "('w, int) ext"
  cacheGet :: "string \<Rightarrow> ('w, goerror + string) ext"
  cacheSet :: "string \<Rightarrow> string \<Rightarrow> int \<Rightarrow> ('w, goerror option) ext"
  execCommand :: "string \<Rightarrow> string list \<Rightarrow> ('w, string \<times> goerror option) ext"
  httpHead :: "string \<Rightarrow> string \<Rightarrow> ('w, goerror + int) ext"
  putAttributes :: "string \<Rightarrow> string \<Rightarrow> attribute list \<Rightarrow> ('w, goerror option) ext"
  putStub :: "string \<Rightarrow> string \<Rightarrow> deviceStub \<Rightarrow> ('w, deviceStub \<times> goerror option) ext"
  cacheUseLookup :: "string \<Rightarrow> ('w, (goerror + deviceStub) option) ext"
  cacheUseFinish :: "string \<Rightarrow> goerror + deviceStub \<Rightarrow> ('w, goerror + deviceStub) ext"
  getJsonDevice :: "string \<Rightarrow> string \<Rightarrow> ('w, goerror + device) ext"
  httpGet :: "string \<Rightarrow> ('w, goerror + (int \<times> string)) ext"
  mqttConnected :: "('w, bool) ext"
  mqttSend :: "string \<Rightarrow> int \<Rightarrow> bool \<Rightarrow> string \<Rightarrow> ('w, goerror option) ext"
  rangeChoice :: "('w, nat list) ext"
  afterFunc :: "int \<Rightarrow> string \<Rightarrow> ('w, unit) ext"
  jwtParse :: "string \<Rightarrow> goerror + jwtToken"
  jwtGetPayload :: "string \<Rightarrow> goerror + jwtPayload"
  jsonErrorText :: "string \<Rightarrow> string \<Rightarrow> string"
  decodeResponse :: "string \<Rightarrow> goerror + responseEnvelope"
  decodeEncrypted :: "string \<Rightarrow> goerror + encryptedMsg"
  uuidParse :: "string \<Rightarrow> string option"
  utilDeviceTypeId :: "string \<Rightarrow> string \<Rightarrow> string \<Rightarrow> string \<Rightarrow> goerror + string"
  utilDeviceType :: "string \<Rightarrow> string \<Rightarrow> string \<Rightarrow> string \<Rightarrow> string \<Rightarrow> string \<Rightarrow> string \<Rightarrow> json option \<Rightarrow> deviceType"
  floatText :: "string \<Rightarrow> string option"
  newRequestErr :: "string \<Rightarrow> goerror option"

text \<open>
  The last fields are pure: \<open>jsonErrorText\<close> is the text of the error \<open>encoding/json\<close> reports for a Go
  target type and a document it does not accept, \<open>floatText\<close> the number \<open>encoding/json\<close> writes for the
  float64 that a number literal denotes, and \<open>None\<close> when it is out of range, \<open>newRequestErr\<close> the error
  of \<open>http.NewRequest\<close> for a URL. \<open>cacheUseLookup\<close> and \<open>cacheUseFinish\<close> are the two halves of
  \<open>cache.Use\<close>, before and after the call of the function it was given, which is not called when the
  first half already has an answer. \<open>rangeChoice\<close> is the order in which the runtime walks a map, as a
  list of choices among the entries that are left.
\<close>

text \<open>Walking a map: the next entry is the chosen one of those left.\<close>

fun pickOrder :: "nat list \<Rightarrow> 'a list \<Rightarrow> 'a list" where
  "pickOrder cs [] = []"
| "pickOrder [] (x # xs) = x # xs"
| "pickOrder (c # cs) (x # xs) =
     (let ys = x # xs; i = c mod length ys in ys ! i # pickOrder cs (take i ys @ drop (Suc i) ys))"

lemma mset_pickOrder: "mset (pickOrder cs xs) = mset xs"
proof (induction cs xs rule: pickOrder.induct)
  case (3 c cs x xs)
  let ?ys = "x # xs" and ?i = "c mod length (x # xs)"
  have "?i < length ?ys" by (rule mod_less_divisor) simp
  then have "mset ?ys = mset (take ?i ?ys @ ?ys ! ?i # drop (Suc ?i) ?ys)" by (metis id_take_nth_drop)
  then have "mset ?ys = add_mset (?ys ! ?i) (mset (take ?i ?ys @ drop (Suc ?i) ?ys))" by simp
  moreover have "mset (pickOrder cs (take ?i ?ys @ drop (Suc ?i) ?ys)) = mset (take ?i ?ys @ drop (Suc ?i) ?ys)"
    by (rule 3) simp_all
  ultimately show ?case unfolding pickOrder.simps(3) Let_def mset.simps(2) [of "_ ! _"] by metis
qed simp_all

text \<open>Every order is possible.\<close>

lemma pickOrder_any: "mset ys = mset xs \<Longrightarrow> \<exists>cs. pickOrder cs xs = ys"
proof (induction ys arbitrary: xs)
  case (Cons y ys)
  then have "y \<in> set xs" by (metis list.set_intros(1) set_mset_mset)
  then obtain i where i: "i < length xs" "xs ! i = y" by (meson in_set_conv_nth)
  have "mset xs = add_mset y (mset (take i xs @ drop (Suc i) xs))"
    using arg_cong [OF id_take_nth_drop [OF i(1)], of mset] i(2) by simp
  with Cons.prems have "mset ys = mset (take i xs @ drop (Suc i) xs)" by simp
  then obtain cs where "pickOrder cs (take i xs @ drop (Suc i) xs) = ys" using Cons.IH by blast
  with i have "pickOrder (i # cs) xs = y # ys" by (cases xs) (simp_all add: Let_def)
  then show ?case by blast
qed simp

section \<open>The system state and the calls\<close>

text \<open>
  The world, the calls made so far, the response body of the request being served, and the one
  piece of state a handler owns, the hub check cache of the health handler.
\<close>

record 'w sys =
  world :: 'w
  calls :: "call list"
  written :: string
  hubCache :: hubCheckCache

type_synonym ('w, 'a) io = "('w sys, 'a) state"

definition perform :: "('w, 'a) ext \<Rightarrow> ('a \<Rightarrow> call) \<Rightarrow> ('w, 'a) io" where
  "perform f c = State (\<lambda>s. case f (world s) of
     (a, w) \<Rightarrow> (a, s\<lparr>world := w, calls := calls s @ [c a]\<rparr>))"

definition writeBody :: "string \<Rightarrow> ('w, unit) io" where
  "writeBody t = State (\<lambda>s. ((), s\<lparr>written := written s @ t\<rparr>))"

definition readCache :: "('w, hubCheckCache) io" where
  "readCache = State (\<lambda>s. (hubCache s, s))"

definition writeCache :: "hubCheckCache \<Rightarrow> ('w, unit) io" where
  "writeCache c = State (\<lambda>s. ((), s\<lparr>hubCache := c\<rparr>))"

lemma run_perform [io_simps]:
  "run_state (perform f c) s = (case f (world s) of
     (a, w) \<Rightarrow> (a, s\<lparr>world := w, calls := calls s @ [c a]\<rparr>))"
  by (simp add: perform_def)

lemma run_writeBody [io_simps]:
  "run_state (writeBody t) s = ((), s\<lparr>written := written s @ t\<rparr>)"
  by (simp add: writeBody_def)

lemma run_readCache [io_simps]: "run_state readCache s = (hubCache s, s)"
  by (simp add: readCache_def)

lemma run_writeCache [io_simps]: "run_state (writeCache c) s = ((), s\<lparr>hubCache := c\<rparr>)"
  by (simp add: writeCache_def)

abbreviation callToken :: "'w connector \<Rightarrow> string \<Rightarrow> ('w, goerror + string) io" where
  "callToken cn u \<equiv> perform (getCachedUserToken cn u) (CToken u)"

abbreviation callUserId :: "'w connector \<Rightarrow> string \<Rightarrow> ('w, goerror + string) io" where
  "callUserId cn u \<equiv> perform (getUserId cn u) (CUserId u)"

abbreviation callAccess :: "'w connector \<Rightarrow> ('w, goerror + string) io" where
  "callAccess cn \<equiv> perform (access cn) CAccess"

abbreviation callExistsHub :: "'w connector \<Rightarrow> string \<Rightarrow> string \<Rightarrow> ('w, bool \<times> goerror option) io" where
  "callExistsHub cn h t \<equiv> perform (existsHub cn h t) (CExistsHub h t)"

abbreviation callGetHub :: "'w connector \<Rightarrow> string \<Rightarrow> string \<Rightarrow> ('w, goerror + hub) io" where
  "callGetHub cn h t \<equiv> perform (getHub cn h t) (CGetHub h t)"

abbreviation callDevice :: "'w connector \<Rightarrow> string \<Rightarrow> string \<Rightarrow> ('w, goerror + device) io" where
  "callDevice cn t l \<equiv> perform (getDeviceByLocalId cn t l) (CDevice t l)"

abbreviation callDeviceType :: "'w connector \<Rightarrow> string \<Rightarrow> string \<Rightarrow> ('w, goerror + deviceType) io" where
  "callDeviceType cn t i \<equiv> perform (getDeviceType cn t i) (CDeviceType t i)"

abbreviation callEvent ::
  "'w connector \<Rightarrow> string \<Rightarrow> string \<Rightarrow> string \<Rightarrow> eventMsg \<Rightarrow> int \<Rightarrow> ('w, handledInfo \<times> goerror option) io" where
  "callEvent cn t d s m q \<equiv> perform (handleDeviceEvent cn t d s m q) (CDeviceEvent t d s m q)"

abbreviation callStat :: "'w connector \<Rightarrow> stat \<Rightarrow> ('w, unit) io" where
  "callStat cn x \<equiv> perform (statistics cn x) (\<lambda>_. CStat x)"

abbreviation callClientError :: "'w connector \<Rightarrow> string \<Rightarrow> string \<Rightarrow> string \<Rightarrow> ('w, unit) io" where
  "callClientError cn u c m \<equiv> perform (handleClientError cn u c m) (\<lambda>_. CClientError u c m)"

section \<open>Frames: what an operation may touch\<close>

text \<open>
  The state after an operation that only makes calls: the log has grown, the response body is as
  before. \<open>newCalls\<close> are the calls in between.
\<close>

definition newCalls :: "'w sys \<Rightarrow> 'w sys \<Rightarrow> call list" where
  "newCalls s s' = drop (length (calls s)) (calls s')"

definition extends :: "'w sys \<Rightarrow> 'w sys \<Rightarrow> bool" where
  "extends s s' \<longleftrightarrow> (\<exists>cs. calls s' = calls s @ cs)"

lemma extends_refl [simp]: "extends s s"
  by (simp add: extends_def)

lemma extends_trans: "extends s s' \<Longrightarrow> extends s' s'' \<Longrightarrow> extends s s''"
  by (auto simp: extends_def)

lemma newCalls_self [simp]: "newCalls s s = []"
  by (simp add: newCalls_def)

lemma newCalls_trans:
  "extends s s' \<Longrightarrow> extends s' s'' \<Longrightarrow> newCalls s s'' = newCalls s s' @ newCalls s' s''"
  by (auto simp: extends_def newCalls_def)

lemma extends_eq: "extends s s' \<Longrightarrow> calls s' = calls s @ newCalls s s'"
  by (auto simp: extends_def newCalls_def)

text \<open>
  \<open>quiet m\<close>: whatever happens, \<open>m\<close> only appends calls, writes no response and leaves the cache of
  the health handler alone. Closed under the constructs of the handlers.
\<close>

definition quiet :: "('w, 'a) io \<Rightarrow> bool" where
  "quiet m \<longleftrightarrow> (\<forall>s a s'. run_state m s = (a, s') \<longrightarrow>
     extends s s' \<and> written s' = written s \<and> hubCache s' = hubCache s)"

named_theorems quiet_intros \<open>operations that only make calls\<close>

lemma quiet_ret [quiet_intros]: "quiet (ret x)"
  by (simp add: quiet_def)

lemma quiet_perform [quiet_intros]: "quiet (perform f c)"
  by (auto simp: quiet_def io_simps extends_def split: prod.splits)

lemma quiet_bind [quiet_intros]:
  assumes "quiet m" "\<And>a. quiet (f a)"
  shows "quiet (State_Monad.bind m f)"
  unfolding quiet_def
proof (intro allI impI)
  fix s b s''
  assume "run_state (State_Monad.bind m f) s = (b, s'')"
  then obtain a s' where "run_state m s = (a, s')" "run_state (f a) s' = (b, s'')"
    by (auto simp: io_simps split: prod.splits)
  with assms show "extends s s'' \<and> written s'' = written s \<and> hubCache s'' = hubCache s"
    unfolding quiet_def by (metis extends_trans)
qed

lemma quiet_if [quiet_intros]: "quiet m \<Longrightarrow> quiet n \<Longrightarrow> quiet (if b then m else n)"
  by simp

lemma quiet_sum [quiet_intros]:
  "(\<And>e. quiet (f e)) \<Longrightarrow> (\<And>a. quiet (g a)) \<Longrightarrow> quiet (case x of Inl e \<Rightarrow> f e | Inr a \<Rightarrow> g a)"
  by (cases x) simp_all

lemma quiet_option [quiet_intros]:
  "quiet m \<Longrightarrow> (\<And>a. quiet (g a)) \<Longrightarrow> quiet (case x of None \<Rightarrow> m | Some a \<Rightarrow> g a)"
  by (cases x) simp_all

lemma quiet_prod [quiet_intros]: "(\<And>a b. quiet (f a b)) \<Longrightarrow> quiet (case x of (a, b) \<Rightarrow> f a b)"
  by (cases x) simp

lemma quiet_let [quiet_intros]: "quiet (f x) \<Longrightarrow> quiet (Let x f)"
  by simp

text \<open>\<open>logs m\<close>, for operations that may also use the cache: calls are appended, no response is written.\<close>

definition logs :: "('w, 'a) io \<Rightarrow> bool" where
  "logs m \<longleftrightarrow> (\<forall>s a s'. run_state m s = (a, s') \<longrightarrow> extends s s' \<and> written s' = written s)"

named_theorems logs_intros \<open>operations that write no response\<close>

lemma quiet_logs: "quiet m \<Longrightarrow> logs m"
  by (auto simp: quiet_def logs_def)

lemma logs_basic [logs_intros]:
  "logs (ret x)" "logs (perform f c)" "logs readCache" "logs (writeCache k)"
  by (rule quiet_logs, rule quiet_ret, rule quiet_logs, rule quiet_perform)
    (auto simp: logs_def io_simps extends_def)

lemma logs_bind [logs_intros]:
  assumes "logs m" "\<And>a. logs (f a)"
  shows "logs (State_Monad.bind m f)"
  unfolding logs_def
proof (intro allI impI)
  fix s b s''
  assume "run_state (State_Monad.bind m f) s = (b, s'')"
  then obtain a s' where "run_state m s = (a, s')" "run_state (f a) s' = (b, s'')"
    by (auto simp: io_simps split: prod.splits)
  with assms show "extends s s'' \<and> written s'' = written s"
    unfolding logs_def by (metis extends_trans)
qed

lemma logs_cases [logs_intros]:
  "logs m \<Longrightarrow> logs n \<Longrightarrow> logs (if b then m else n)"
  "(\<And>e. logs (f e)) \<Longrightarrow> (\<And>a. logs (g a)) \<Longrightarrow> logs (case x of Inl e \<Rightarrow> f e | Inr a \<Rightarrow> g a)"
  "logs m \<Longrightarrow> (\<And>a. logs (k a)) \<Longrightarrow> logs (case y of None \<Rightarrow> m | Some a \<Rightarrow> k a)"
  "(\<And>a b. logs (h a b)) \<Longrightarrow> logs (case z of (a, b) \<Rightarrow> h a b)"
  "logs (l v) \<Longrightarrow> logs (Let v l)"
  by (simp_all split: sum.splits option.splits prod.splits)

lemma logsD:
  assumes "logs m" "run_state m s = (a, s')"
  shows "extends s s'" "written s' = written s"
  using assms unfolding logs_def by blast+

lemma quietD:
  assumes "quiet m" "run_state m s = (a, s')"
  shows "extends s s'" "written s' = written s" "hubCache s' = hubCache s"
  using assms unfolding quiet_def by blast+


section \<open>Facts about the answer of an operation\<close>

text \<open>\<open>yields P m\<close>: whatever the services answer, the value \<open>m\<close> returns satisfies \<open>P\<close>.\<close>

definition yields :: "('a \<Rightarrow> bool) \<Rightarrow> ('w, 'a) io \<Rightarrow> bool" where
  "yields P m \<longleftrightarrow> (\<forall>s a s'. run_state m s = (a, s') \<longrightarrow> P a)"

named_theorems yields_intros \<open>the answer of an operation, construct by construct\<close>

lemma yields_ret [yields_intros]: "P x \<Longrightarrow> yields P (ret x)"
  by (simp add: yields_def)

lemma yields_bind [yields_intros]: "(\<And>a. yields P (f a)) \<Longrightarrow> yields P (State_Monad.bind m f)"
  by (auto simp: yields_def io_simps split: prod.splits)

lemma yields_if [yields_intros]: "(b \<Longrightarrow> yields P m) \<Longrightarrow> (\<not> b \<Longrightarrow> yields P n) \<Longrightarrow> yields P (if b then m else n)"
  by simp

lemma yields_sum [yields_intros]:
  "(\<And>e. x = Inl e \<Longrightarrow> yields P (f e)) \<Longrightarrow> (\<And>a. x = Inr a \<Longrightarrow> yields P (g a)) \<Longrightarrow>
   yields P (case x of Inl e \<Rightarrow> f e | Inr a \<Rightarrow> g a)"
  by (cases x) simp_all

lemma yields_option [yields_intros]:
  "(x = None \<Longrightarrow> yields P m) \<Longrightarrow> (\<And>a. x = Some a \<Longrightarrow> yields P (g a)) \<Longrightarrow>
   yields P (case x of None \<Rightarrow> m | Some a \<Rightarrow> g a)"
  by (cases x) simp_all

lemma yields_prod [yields_intros]:
  "(\<And>a b. x = (a, b) \<Longrightarrow> yields P (f a b)) \<Longrightarrow> yields P (case x of (a, b) \<Rightarrow> f a b)"
  by (cases x) simp

lemma yields_let [yields_intros]: "yields P (f x) \<Longrightarrow> yields P (Let x f)"
  by simp

lemma yieldsD: "yields P m \<Longrightarrow> run_state m s = (a, s') \<Longrightarrow> P a"
  by (auto simp: yields_def)

end
