(* ===== verification/LibConfig.thy ===== *)
theory LibConfig
  imports Services
begin

text \<open>
  The configuration that \<open>lib/lib.go\<close> hands to the platform connector library, and the helpers it is
  computed with (\<open>StringToList\<close> of \<open>lib/helper.go\<close>, \<open>getKafkaCompression\<close>, the event time provider).
  A field \<open>X\<close> of the library's \<open>Config\<close> is \<open>lcX\<close> here. Integers of the connector's own configuration
  are 64 bits wide; those narrowed to 32 bits wrap.
\<close>

definition StringToList :: "string \<Rightarrow> string list" where
  "StringToList str = filter (\<lambda>t. t \<noteq> []) (map trimSpace (splitOn CHR '','' str))"

definition toInt32 :: "int \<Rightarrow> int" where
  "toInt32 i = signed_take_bit 31 i"

datatype compression = NoCompression | Gzip | Snappy

definition getKafkaCompression :: "string \<Rightarrow> compression" where
  "getKafkaCompression c =
     (let l = toLower c in
      if l = [] \<or> l = ''-'' \<or> l = ''none'' then NoCompression
      else if l = ''gzip'' then Gzip
      else if l = ''snappy'' then Snappy
      else NoCompression)"

text \<open>
  \<open>CreateTLSConfig\<close>. \<open>loadKeyPair\<close> and \<open>readFile\<close> read the files, \<open>poolOf\<close> is the certificate pool that holds
  what could be read of a PEM text. The host name of the peer is not verified.
\<close>

record ('c, 'p) tlsConfig =
  tlsCertificates :: "'c list"
  tlsRootCAs :: 'p
  tlsInsecureSkipVerify :: bool

definition CreateTLSConfig ::
  "(string \<Rightarrow> string \<Rightarrow> goerror + 'c) \<Rightarrow> (string \<Rightarrow> goerror + string) \<Rightarrow> (string \<Rightarrow> 'p) \<Rightarrow>
   string \<Rightarrow> string \<Rightarrow> string \<Rightarrow> goerror + ('c, 'p) tlsConfig" where
  "CreateTLSConfig loadKeyPair readFile poolOf certPath keyPath caPath = (case loadKeyPair certPath keyPath of
     Inl e \<Rightarrow> Inl e
   | Inr cer \<Rightarrow>
       (case readFile caPath of
          Inl e \<Rightarrow> Inl e
        | Inr caCert \<Rightarrow> Inr \<lparr>tlsCertificates = [cer], tlsRootCAs = poolOf caCert, tlsInsecureSkipVerify = True\<rparr>))"

text \<open>
  \<open>EventTimeProvider\<close>: takes the timestamp field out of the message. \<open>parse\<close> is \<open>time.Parse\<close> with
  \<open>time.RFC3339Nano\<close>, \<open>now\<close> the clock.
\<close>

definition eventTimeProvider ::
  "(string \<Rightarrow> int option) \<Rightarrow> int \<Rightarrow> eventMsg \<Rightarrow> eventMsg \<times> int" where
  "eventTimeProvider parse now msg =
     (let field = ''timestamp_rfc3339nano'' in
      case msg field of
        None \<Rightarrow> (msg, now)
      | Some s \<Rightarrow>
          (let t = trimSpace s; msg' = msg(field := None) in
           if t = [] then (msg', now)
           else (case parse t of None \<Rightarrow> (msg', now) | Some time \<Rightarrow> (msg', time))))"

record libConfig =
  lcPartitionsNum :: int
  lcReplicationFactor :: int
  lcFatalKafkaError :: bool
  lcProtocol :: string
  lcKafkaGroupName :: string
  lcKafkaUrl :: string
  lcAuthExpirationTimeBuffer :: string
  lcJwtExpiration :: int
  lcJwtPrivateKey :: string
  lcJwtIssuer :: string
  lcAuthClientSecret :: string
  lcAuthClientId :: string
  lcAuthEndpoint :: string
  lcDeviceManagerUrl :: string
  lcDeviceRepoUrl :: string
  lcKafkaResponseTopic :: string
  lcIotCacheUrl :: "string list"
  lcDeviceExpiration :: int
  lcDeviceTypeExpiration :: int
  lcCharacteristicExpiration :: int
  lcTokenCacheUrl :: "string list"
  lcTokenCacheExpiration :: int
  lcDebug :: bool
  lcValidate :: bool
  lcValidateAllowMissingField :: bool
  lcValidateAllowUnknownField :: bool
  lcPublishToPostgres :: bool
  lcPostgresHost :: string
  lcPostgresPort :: int
  lcPostgresUser :: string
  lcPostgresPw :: string
  lcPostgresDb :: string
  lcHttpCommandConsumerPort :: string
  lcSyncCompression :: compression
  lcAsyncCompression :: compression
  lcAsyncFlushFrequency :: int
  lcAsyncFlushMessages :: int
  lcAsyncPgThreadMax :: int
  lcKafkaConsumerMinBytes :: int
  lcKafkaConsumerMaxBytes :: int
  lcKafkaConsumerMaxWait :: string
  lcIotCacheTimeout :: string
  lcIotCacheMaxIdleConns :: int
  lcDeviceTypeTopic :: string
  lcNotificationUrl :: string
  lcPermissionsV2Url :: string
  lcKafkaTopicConfigs :: "(string \<times> (string \<times> string) list) list"
  lcNotificationsIgnoreDuplicatesWithinS :: int
  lcNotificationUserOverwrite :: string
  lcDeveloperNotificationUrl :: string
  lcMutedUserNotificationTitles :: "string list"
  lcInitTopics :: bool
  lcLogLevel :: string

definition libConfigOf :: "config \<Rightarrow> int \<Rightarrow> libConfig" where
  "libConfigOf cfg asyncFlushFrequency = \<lparr>
     lcPartitionsNum = KafkaPartitionNum cfg,
     lcReplicationFactor = KafkaReplicationFactor cfg,
     lcFatalKafkaError = FatalKafkaError cfg,
     lcProtocol = Protocol cfg,
     lcKafkaGroupName = KafkaGroupName cfg,
     lcKafkaUrl = KafkaUrl cfg,
     lcAuthExpirationTimeBuffer = AuthExpirationTimeBuffer cfg,
     lcJwtExpiration = JwtExpiration cfg,
     lcJwtPrivateKey = JwtPrivateKey cfg,
     lcJwtIssuer = JwtIssuer cfg,
     lcAuthClientSecret = AuthClientSecret cfg,
     lcAuthClientId = AuthClientId cfg,
     lcAuthEndpoint = AuthEndpoint cfg,
     lcDeviceManagerUrl = DeviceManagerUrl cfg,
     lcDeviceRepoUrl = DeviceRepoUrl cfg,
     lcKafkaResponseTopic = KafkaResponseTopic cfg,
     lcIotCacheUrl = StringToList (IotCacheUrls cfg),
     lcDeviceExpiration = toInt32 (DeviceExpiration cfg),
     lcDeviceTypeExpiration = toInt32 (DeviceTypeExpiration cfg),
     lcCharacteristicExpiration = toInt32 (CharacteristicExpiration cfg),
     lcTokenCacheUrl = StringToList (TokenCacheUrls cfg),
     lcTokenCacheExpiration = toInt32 (TokenCacheExpiration cfg),
     lcDebug = Debug cfg,
     lcValidate = Validate cfg,
     lcValidateAllowMissingField = ValidateAllowMissingField cfg,
     lcValidateAllowUnknownField = ValidateAllowUnknownField cfg,
     lcPublishToPostgres = PublishToPostgres cfg,
     lcPostgresHost = PostgresHost cfg,
     lcPostgresPort = PostgresPort cfg,
     lcPostgresUser = PostgresUser cfg,
     lcPostgresPw = PostgresPw cfg,
     lcPostgresDb = PostgresDb cfg,
     lcHttpCommandConsumerPort = HttpCommandConsumerPort cfg,
     lcSyncCompression = getKafkaCompression (SyncCompression cfg),
     lcAsyncCompression = getKafkaCompression (AsyncCompression cfg),
     lcAsyncFlushFrequency = asyncFlushFrequency,
     lcAsyncFlushMessages = AsyncFlushMessages cfg,
     lcAsyncPgThreadMax = AsyncPgThreadMax cfg,
     lcKafkaConsumerMinBytes = KafkaConsumerMinBytes cfg,
     lcKafkaConsumerMaxBytes = KafkaConsumerMaxBytes cfg,
     lcKafkaConsumerMaxWait = KafkaConsumerMaxWait cfg,
     lcIotCacheTimeout = IotCacheTimeout cfg,
     lcIotCacheMaxIdleConns = IotCacheMaxIdleConns cfg,
     lcDeviceTypeTopic = DeviceTypeTopic cfg,
     lcNotificationUrl = NotificationUrl cfg,
     lcPermissionsV2Url = PermissionsV2Url cfg,
     lcKafkaTopicConfigs = KafkaTopicConfigs cfg,
     lcNotificationsIgnoreDuplicatesWithinS = NotificationsIgnoreDuplicatesWithinS cfg,
     lcNotificationUserOverwrite = NotificationUserOverwrite cfg,
     lcDeveloperNotificationUrl = DeveloperNotificationUrl cfg,
     lcMutedUserNotificationTitles = MutedUserNotificationTitles cfg,
     lcInitTopics = InitTopics cfg,
     lcLogLevel = LogLevel cfg\<rparr>"

end
