(* ===== verification/ConfigEnv.thy ===== *)
theory ConfigEnv
  imports Services
begin

text \<open>
  Loading the configuration, \<open>lib/configuration/config.go\<close>: the configuration file, the environment
  variables that override it, and the log level. The reflection over \<open>ConfigStruct\<close> is a table of its
  fields in order, each with its kind, its \<open>secret\<close> tag and its setter.
\<close>

section \<open>The fields\<close>

datatype fieldKind =
    StringF "(string \<Rightarrow> string) \<Rightarrow> config \<Rightarrow> config"
  | IntF "(int \<Rightarrow> int) \<Rightarrow> config \<Rightarrow> config"
  | FloatF "(string \<Rightarrow> string) \<Rightarrow> config \<Rightarrow> config"
  | BoolF "(bool \<Rightarrow> bool) \<Rightarrow> config \<Rightarrow> config"
  | SliceF "(string list \<Rightarrow> string list) \<Rightarrow> config \<Rightarrow> config"
  | TopicMapF "((string \<times> (string \<times> string) list) list \<Rightarrow> (string \<times> (string \<times> string) list) list) \<Rightarrow> config \<Rightarrow> config"

record configField = cfName :: string  cfSecret :: bool  cfKind :: fieldKind

definition plainField :: "string \<Rightarrow> fieldKind \<Rightarrow> configField" where
  "plainField n k = \<lparr>cfName = n, cfSecret = False, cfKind = k\<rparr>"

definition secretField :: "string \<Rightarrow> fieldKind \<Rightarrow> configField" where
  "secretField n k = \<lparr>cfName = n, cfSecret = True, cfKind = k\<rparr>"

definition configFields :: "configField list" where
  "configFields = [
     plainField ''KafkaUrl'' (StringF KafkaUrl_update),
     plainField ''KafkaResponseTopic'' (StringF KafkaResponseTopic_update),
     plainField ''KafkaGroupName'' (StringF KafkaGroupName_update),
     plainField ''FatalKafkaError'' (BoolF FatalKafkaError_update),
     plainField ''Protocol'' (StringF Protocol_update),
     plainField ''DeviceManagerUrl'' (StringF DeviceManagerUrl_update),
     plainField ''DeviceRepoUrl'' (StringF DeviceRepoUrl_update),
     secretField ''AuthClientId'' (StringF AuthClientId_update),
     secretField ''AuthClientSecret'' (StringF AuthClientSecret_update),
     plainField ''AuthExpirationTimeBuffer'' (FloatF AuthExpirationTimeBuffer_update),
     plainField ''AuthEndpoint'' (StringF AuthEndpoint_update),
     secretField ''JwtPrivateKey'' (StringF JwtPrivateKey_update),
     plainField ''JwtExpiration'' (IntF JwtExpiration_update),
     secretField ''JwtIssuer'' (StringF JwtIssuer_update),
     plainField ''WebhookPort'' (StringF WebhookPort_update),
     plainField ''GatewayLogTopic'' (StringF GatewayLogTopic_update),
     plainField ''DeviceLogTopic'' (StringF DeviceLogTopic_update),
     plainField ''ConnectionLogQos'' (IntF ConnectionLogQos_update),
     plainField ''MemcachedUrl'' (StringF MemcachedUrl_update),
     plainField ''MqttBroker'' (StringF MqttBroker_update),
     plainField ''MqttVersion'' (StringF MqttVersion_update),
     plainField ''CheckHub'' (BoolF CheckHub_update),
     plainField ''Debug'' (BoolF Debug_update),
     plainField ''MqttDebug'' (BoolF MqttDebug_update),
     plainField ''CorrelationExpiration'' (IntF CorrelationExpiration_update),
     plainField ''IotCacheUrls'' (StringF IotCacheUrls_update),
     plainField ''DeviceExpiration'' (IntF DeviceExpiration_update),
     plainField ''DeviceTypeExpiration'' (IntF DeviceTypeExpiration_update),
     plainField ''CharacteristicExpiration'' (IntF CharacteristicExpiration_update),
     secretField ''TokenCacheUrls'' (StringF TokenCacheUrls_update),
     plainField ''TokenCacheExpiration'' (IntF TokenCacheExpiration_update),
     plainField ''MqttPublishAuthOnly'' (BoolF MqttPublishAuthOnly_update),
     plainField ''StartupDelay'' (IntF StartupDelay_update),
     plainField ''Log'' (StringF Log_update),
     plainField ''WebhookTimeout'' (IntF WebhookTimeout_update),
     plainField ''Validate'' (BoolF Validate_update),
     plainField ''ValidateAllowUnknownField'' (BoolF ValidateAllowUnknownField_update),
     plainField ''ValidateAllowMissingField'' (BoolF ValidateAllowMissingField_update),
     plainField ''FogHandlerTopicPrefix'' (StringF FogHandlerTopicPrefix_update),
     plainField ''HealthTopic'' (StringF HealthTopic_update),
     plainField ''GatewayHealthTopic'' (StringF GatewayHealthTopic_update),
     plainField ''HealthHubCheckCacheDuration'' (StringF HealthHubCheckCacheDuration_update),
     plainField ''HealthMaxPayloadSize'' (IntF HealthMaxPayloadSize_update),
     plainField ''KafkaPartitionNum'' (IntF KafkaPartitionNum_update),
     plainField ''KafkaReplicationFactor'' (IntF KafkaReplicationFactor_update),
     plainField ''ForceCleanSession'' (BoolF ForceCleanSession_update),
     plainField ''CleanSessionAllowUserList'' (SliceF CleanSessionAllowUserList_update),
     plainField ''PublishToPostgres'' (BoolF PublishToPostgres_update),
     plainField ''PostgresHost'' (StringF PostgresHost_update),
     plainField ''PostgresPort'' (IntF PostgresPort_update),
     secretField ''PostgresUser'' (StringF PostgresUser_update),
     secretField ''PostgresPw'' (StringF PostgresPw_update),
     plainField ''PostgresDb'' (StringF PostgresDb_update),
     plainField ''HttpCommandConsumerPort'' (StringF HttpCommandConsumerPort_update),
     plainField ''AsyncPgThreadMax'' (IntF AsyncPgThreadMax_update),
     plainField ''AsyncFlushMessages'' (IntF AsyncFlushMessages_update),
     plainField ''AsyncFlushFrequency'' (StringF AsyncFlushFrequency_update),
     plainField ''AsyncCompression'' (StringF AsyncCompression_update),
     plainField ''SyncCompression'' (StringF SyncCompression_update),
     plainField ''KafkaConsumerMaxWait'' (StringF KafkaConsumerMaxWait_update),
     plainField ''KafkaConsumerMinBytes'' (IntF KafkaConsumerMinBytes_update),
     plainField ''KafkaConsumerMaxBytes'' (IntF KafkaConsumerMaxBytes_update),
     plainField ''IotCacheMaxIdleConns'' (IntF IotCacheMaxIdleConns_update),
     plainField ''CorrelationMaxIdleConns'' (IntF CorrelationMaxIdleConns_update),
     plainField ''IotCacheTimeout'' (StringF IotCacheTimeout_update),
     plainField ''CorrelationTimeout'' (StringF CorrelationTimeout_update),
     plainField ''CommandWorkerCount'' (IntF CommandWorkerCount_update),
     plainField ''DeviceTypeTopic'' (StringF DeviceTypeTopic_update),
     plainField ''NotificationUrl'' (StringF NotificationUrl_update),
     plainField ''PermissionsV2Url'' (StringF PermissionsV2Url_update),
     plainField ''NotificationsIgnoreDuplicatesWithinS'' (IntF NotificationsIgnoreDuplicatesWithinS_update),
     plainField ''NotificationUserOverwrite'' (StringF NotificationUserOverwrite_update),
     plainField ''DeveloperNotificationUrl'' (StringF DeveloperNotificationUrl_update),
     plainField ''MqttErrorOnEventValidationError'' (BoolF MqttErrorOnEventValidationError_update),
     plainField ''KafkaTopicConfigs'' (TopicMapF KafkaTopicConfigs_update),
     plainField ''MqttAuthMethod'' (StringF MqttAuthMethod_update),
     plainField ''ConnectionLimitCount'' (IntF ConnectionLimitCount_update),
     plainField ''ConnectionLimitDurationInSeconds'' (IntF ConnectionLimitDurationInSeconds_update),
     plainField ''ForceCommandSubscriptionServiceSingleLevelWildcard'' (BoolF ForceCommandSubscriptionServiceSingleLevelWildcard_update),
     plainField ''SecRemoteProtocol'' (StringF SecRemoteProtocol_update),
     plainField ''ForceTopicsWithOwner'' (BoolF ForceTopicsWithOwner_update),
     plainField ''MutedUserNotificationTitles'' (SliceF MutedUserNotificationTitles_update),
     plainField ''ConnectionCheckUrl'' (StringF ConnectionCheckUrl_update),
     plainField ''ConnectionCheckHttpTimeout'' (StringF ConnectionCheckHttpTimeout_update),
     plainField ''ApiDocsProviderBaseUrl'' (StringF ApiDocsProviderBaseUrl_update),
     plainField ''VmqAdminApiUrl'' (StringF VmqAdminApiUrl_update),
     plainField ''DisconnectCommandDelay'' (StringF DisconnectCommandDelay_update),
     plainField ''InitTopics'' (BoolF InitTopics_update),
     plainField ''NimbusDeviceTypeId'' (StringF NimbusDeviceTypeId_update),
     plainField ''WmbusDeviceTypeNamespace'' (StringF WmbusDeviceTypeNamespace_update),
     plainField ''WmbusDeviceClassId'' (StringF WmbusDeviceClassId_update),
     plainField ''SenergyProtocolId'' (StringF SenergyProtocolId_update),
     plainField ''SenergyProtoclSegment'' (StringF SenergyProtoclSegment_update),
     plainField ''WaitingRoomUrl'' (StringF WaitingRoomUrl_update),
     plainField ''WmbusmetersExecutable'' (StringF WmbusmetersExecutable_update),
     plainField ''WmbusmetersDriversDir'' (StringF WmbusmetersDriversDir_update),
     plainField ''LogLevel'' (StringF LogLevel_update)]"

section \<open>Names of environment variables\<close>

definition isUpperA :: "char \<Rightarrow> bool" where
  "isUpperA c \<longleftrightarrow> inRange 0x41 0x5A c"

definition notUpperA :: "char \<Rightarrow> bool" where
  "notUpperA c \<longleftrightarrow> \<not> isUpperA c"

lemma camel_shorter:
  "takeWhile P s \<noteq> [] \<Longrightarrow> length (dropWhile Q (dropWhile P s)) < length s"
proof -
  assume "takeWhile P s \<noteq> []"
  then have "length (dropWhile P s) < length s" by (cases s) (auto simp: less_Suc_eq_le length_dropWhile_le split: if_splits)
  then show ?thesis using length_dropWhile_le [of Q "dropWhile P s"] by simp
qed

text \<open>
  The matches of \<open>(^[^A-Z]*|[A-Z]*)([A-Z][^A-Z]+|$)\<close> from a position behind the start on. The first
  group takes the longest run of capitals that leaves one capital for the second, or, at the end of
  the text, all of it; where neither works the search moves on by a character.
\<close>

function camelRest :: "string \<Rightarrow> (string \<times> string) list" where
  "camelRest s =
     (if s = [] then []
      else let u = takeWhile isUpperA s; r = dropWhile isUpperA s in
        if u = [] then camelRest (tl s)
        else if r = [] then [(u, [])]
        else (butlast u, last u # takeWhile notUpperA r) # camelRest (dropWhile notUpperA r))"
  by pat_completeness auto

termination
  by (relation "measure length") (use camel_shorter in auto)

declare camelRest.simps [simp del]

text \<open>At the start of the text the first alternative is tried first.\<close>

definition camelMatches :: "string \<Rightarrow> (string \<times> string) list" where
  "camelMatches s =
     (let p = takeWhile notUpperA s; r = dropWhile notUpperA s in
      if r = [] then [(p, [])]
      else if 2 \<le> length r \<and> notUpperA (r ! 1)
        then (p, hd r # takeWhile notUpperA (tl r)) # camelRest (dropWhile notUpperA (tl r))
      else camelRest s)"

definition fieldNameToEnvName :: "string \<Rightarrow> string" where
  "fieldNameToEnvName s = toUpper (joinWith CHR ''_''
     (concat (map (\<lambda>(a, b). filter (\<lambda>x. x \<noteq> []) [a, b]) (camelMatches s))))"

section \<open>Values\<close>

text \<open>\<open>strconv.ParseInt\<close> in base 10 with the error dropped: 0 for a bad text, the bound when out of range.\<close>

definition parseInt64 :: "string \<Rightarrow> int" where
  "parseInt64 s =
     (let neg = (take 1 s = ''-''); ds = (if take 1 s = ''-'' \<or> take 1 s = ''+'' then drop 1 s else s);
          n = digitsVal ds
      in if ds = [] \<or> \<not> list_all isDigit ds then 0
         else if neg then max (- (2 ^ 63)) (- n) else min (2 ^ 63 - 1) n)"

definition parseBool :: "string \<Rightarrow> bool" where
  "parseBool s \<longleftrightarrow> s \<in> set [''1'', ''t'', ''T'', ''TRUE'', ''true'', ''True'']"

definition splitTrim :: "string \<Rightarrow> string list" where
  "splitTrim s = map trimSpace (splitOn CHR '','' s)"

text \<open>
  The environment is what \<open>os.Getenv\<close> returns, the empty text for a variable that is not set.
  \<open>parseFloat\<close> is \<open>strconv.ParseFloat\<close> on number texts, \<open>decodeTopics\<close> reads the map of Kafka topic
  configurations, whose entries are a type of the Kafka client; a text it does not accept ends the
  process (\<open>None\<close>).
\<close>

record envLib =
  elParseFloat :: "string \<Rightarrow> string"
  elDecodeTopics :: "json \<Rightarrow> (string \<times> (string \<times> string) list) list option"

definition setField :: "envLib \<Rightarrow> fieldKind \<Rightarrow> string \<Rightarrow> config \<Rightarrow> config option" where
  "setField lib k v cfg = (case k of
     StringF upd \<Rightarrow> Some (upd (\<lambda>_. v) cfg)
   | IntF upd \<Rightarrow> Some (upd (\<lambda>_. parseInt64 v) cfg)
   | FloatF upd \<Rightarrow> Some (upd (\<lambda>_. elParseFloat lib v) cfg)
   | BoolF upd \<Rightarrow> Some (upd (\<lambda>_. parseBool v) cfg)
   | SliceF upd \<Rightarrow> Some (upd (\<lambda>_. splitTrim v) cfg)
   | TopicMapF upd \<Rightarrow> map_option (\<lambda>m. upd (\<lambda>_. m) cfg) (unmarshal (elDecodeTopics lib) v))"

fun envFields :: "envLib \<Rightarrow> (string \<Rightarrow> string) \<Rightarrow> configField list \<Rightarrow> config \<Rightarrow> config option" where
  "envFields lib env [] cfg = Some cfg"
| "envFields lib env (f # fs) cfg =
     (let v = env (fieldNameToEnvName (cfName f)) in
      if v = [] then envFields lib env fs cfg
      else (case setField lib (cfKind f) v cfg of None \<Rightarrow> None | Some c \<Rightarrow> envFields lib env fs c))"

definition HandleEnvironmentVars :: "envLib \<Rightarrow> (string \<Rightarrow> string) \<Rightarrow> config \<Rightarrow> config option" where
  "HandleEnvironmentVars lib env cfg = envFields lib env configFields cfg"

text \<open>
  The lines the loop prints: a variable with its value, unless its field is tagged as a secret. The loop
  also meets the field \<open>logger\<close>, of a kind it does not set.
\<close>

definition envLog :: "(string \<Rightarrow> string) \<Rightarrow> (string \<times> string) list" where
  "envLog env = map (\<lambda>n. (n, env n)) (filter (\<lambda>n. env n \<noteq> [])
     (map (\<lambda>f. fieldNameToEnvName (cfName f)) (filter (\<lambda>f. \<not> cfSecret f) configFields) @
      [fieldNameToEnvName ''logger'']))"

section \<open>The file\<close>

definition floatField :: "string \<Rightarrow> ((string \<Rightarrow> string) \<Rightarrow> 'r \<Rightarrow> 'r) \<Rightarrow> 'r field" where
  "floatField n upd = (n, \<lambda>v r. case v of JNum s \<Rightarrow> Some (upd (\<lambda>_. s) r) | JNull \<Rightarrow> Some r | _ \<Rightarrow> None)"

definition jsonField :: "envLib \<Rightarrow> configField \<Rightarrow> config field" where
  "jsonField lib f = (case cfKind f of
     StringF upd \<Rightarrow> strField (cfName f) upd
   | IntF upd \<Rightarrow> intField (cfName f) upd
   | FloatF upd \<Rightarrow> floatField (cfName f) upd
   | BoolF upd \<Rightarrow> boolField (cfName f) upd
   | SliceF upd \<Rightarrow> listField (cfName f) decodeString upd
   | TopicMapF upd \<Rightarrow> (cfName f, \<lambda>v r. map_option (\<lambda>m. upd (\<lambda>_. m) r) (elDecodeTopics lib v)))"

definition emptyConfig :: config where
  "emptyConfig = \<lparr>
     KafkaUrl = [],
     KafkaResponseTopic = [],
     KafkaGroupName = [],
     FatalKafkaError = False,
     Protocol = [],
     DeviceManagerUrl = [],
     DeviceRepoUrl = [],
     AuthClientId = [],
     AuthClientSecret = [],
     AuthExpirationTimeBuffer = ''0'',
     AuthEndpoint = [],
     JwtPrivateKey = [],
     JwtExpiration = 0,
     JwtIssuer = [],
     WebhookPort = [],
     GatewayLogTopic = [],
     DeviceLogTopic = [],
     ConnectionLogQos = 0,
     MemcachedUrl = [],
     MqttBroker = [],
     MqttVersion = [],
     CheckHub = False,
     Debug = False,
     MqttDebug = False,
     CorrelationExpiration = 0,
     IotCacheUrls = [],
     DeviceExpiration = 0,
     DeviceTypeExpiration = 0,
     CharacteristicExpiration = 0,
     TokenCacheUrls = [],
     TokenCacheExpiration = 0,
     MqttPublishAuthOnly = False,
     StartupDelay = 0,
     Log = [],
     WebhookTimeout = 0,
     Validate = False,
     ValidateAllowUnknownField = False,
     ValidateAllowMissingField = False,
     FogHandlerTopicPrefix = [],
     HealthTopic = [],
     GatewayHealthTopic = [],
     HealthHubCheckCacheDuration = [],
     HealthMaxPayloadSize = 0,
     KafkaPartitionNum = 0,
     KafkaReplicationFactor = 0,
     ForceCleanSession = False,
     CleanSessionAllowUserList = [],
     PublishToPostgres = False,
     PostgresHost = [],
     PostgresPort = 0,
     PostgresUser = [],
     PostgresPw = [],
     PostgresDb = [],
     HttpCommandConsumerPort = [],
     AsyncPgThreadMax = 0,
     AsyncFlushMessages = 0,
     AsyncFlushFrequency = [],
     AsyncCompression = [],
     SyncCompression = [],
     KafkaConsumerMaxWait = [],
     KafkaConsumerMinBytes = 0,
     KafkaConsumerMaxBytes = 0,
     IotCacheMaxIdleConns = 0,
     CorrelationMaxIdleConns = 0,
     IotCacheTimeout = [],
     CorrelationTimeout = [],
     CommandWorkerCount = 0,
     DeviceTypeTopic = [],
     NotificationUrl = [],
     PermissionsV2Url = [],
     NotificationsIgnoreDuplicatesWithinS = 0,
     NotificationUserOverwrite = [],
     DeveloperNotificationUrl = [],
     MqttErrorOnEventValidationError = False,
     KafkaTopicConfigs = [],
     MqttAuthMethod = [],
     ConnectionLimitCount = 0,
     ConnectionLimitDurationInSeconds = 0,
     ForceCommandSubscriptionServiceSingleLevelWildcard = False,
     SecRemoteProtocol = [],
     ForceTopicsWithOwner = False,
     MutedUserNotificationTitles = [],
     ConnectionCheckUrl = [],
     ConnectionCheckHttpTimeout = [],
     ApiDocsProviderBaseUrl = [],
     VmqAdminApiUrl = [],
     DisconnectCommandDelay = [],
     InitTopics = False,
     NimbusDeviceTypeId = [],
     WmbusDeviceTypeNamespace = [],
     WmbusDeviceClassId = [],
     SenergyProtocolId = [],
     SenergyProtoclSegment = [],
     WaitingRoomUrl = [],
     WmbusmetersExecutable = [],
     WmbusmetersDriversDir = [],
     LogLevel = []\<rparr>"

text \<open>
  \<open>LoadConfig\<close>: the text of the file, or the error of opening it. The configuration is a pointer, so
  the document \<open>null\<close> leaves it nil and the reflection over it panics; that and an invalid topic map
  in the environment end the process.
\<close>

datatype loadResult = Loaded config | LoadError goerror | LoadCrash

definition LoadConfig ::
  "envLib \<Rightarrow> (string \<Rightarrow> string) \<Rightarrow> (string \<Rightarrow> string) \<Rightarrow> goerror + string \<Rightarrow> loadResult" where
  "LoadConfig lib decodeErr env file = (case file of
     Inl e \<Rightarrow> LoadError e
   | Inr text \<Rightarrow>
       (case decodeFirst (\<lambda>v. if v = JNull then Some None
            else map_option Some (decodeStruct (map (jsonField lib) configFields) v emptyConfig)) text of
          None \<Rightarrow> LoadError (errorsNew (decodeErr text))
        | Some None \<Rightarrow> LoadCrash
        | Some (Some cfg) \<Rightarrow>
            (case HandleEnvironmentVars lib env cfg of None \<Rightarrow> LoadCrash | Some c \<Rightarrow> Loaded c)))"

section \<open>The logger\<close>

text \<open>
  \<open>GetLogger\<close> on the first call: the level it settles on, which it stores, and the organisation and
  project it reads off the module path.
\<close>

definition loggerLevel :: "config \<Rightarrow> config" where
  "loggerLevel cfg =
     (let c = (if Debug cfg then cfg\<lparr>LogLevel := ''debug''\<rparr> else cfg)
      in if LogLevel c = [] then c\<lparr>LogLevel := ''info''\<rparr> else c)"

definition loggerOrigin :: "string option \<Rightarrow> string \<times> string" where
  "loggerOrigin path = (case path of
     None \<Rightarrow> ([], [])
   | Some p \<Rightarrow>
       (let parts = splitOn CHR 0x2F p
        in if 2 < length parts then (joinWith CHR 0x2F (take 2 parts), joinWith CHR 0x2F (drop 2 parts))
           else ([], [])))"

section \<open>Every field has an environment variable of its own\<close>


definition noUnderscore :: "string \<Rightarrow> string" where
  "noUnderscore s = filter (\<lambda>c. c \<noteq> CHR ''_'') s"

lemma noUnderscore_append: "noUnderscore (a @ b) = noUnderscore a @ noUnderscore b"
  by (simp add: noUnderscore_def)

lemma noUnderscore_join: "noUnderscore (joinWith CHR ''_'' ps) = noUnderscore (concat ps)"
  by (induction "CHR ''_''" ps rule: joinWith.induct) (auto simp: noUnderscore_def)

lemma upperChar_underscore: "upperChar c = CHR ''_'' \<longleftrightarrow> c = CHR ''_''"
proof
  assume a: "upperChar c = CHR ''_''"
  show "c = CHR ''_''"
  proof (cases "97 \<le> byte c \<and> byte c \<le> 122")
    case True
    with a have "char_of (byte c - 32) = CHR ''_''" by (simp add: upperChar_def)
    then have "byte (char_of (byte c - 32) :: char) = byte CHR ''_''" by (rule arg_cong)
    moreover have "(byte c - 32) mod 256 = byte c - 32" by (rule mod_less) (use True in linarith)
    ultimately have "byte c - 32 = 95" by simp
    with True show ?thesis by linarith
  qed (use a in \<open>auto simp: upperChar_def split: if_splits\<close>)
qed (simp add: upperChar_def)

lemma noUnderscore_upper: "noUnderscore (toUpper s) = toUpper (noUnderscore s)"
  by (simp add: noUnderscore_def toUpper_def filter_map o_def upperChar_underscore)

lemma camelRest_concat: "concat (map (\<lambda>(a, b). a @ b) (camelRest s)) = dropWhile notUpperA s"
proof (induction s rule: camelRest.induct)
  case (1 s)
  show ?case
  proof (cases "s = []")
    case False
    then obtain c t where s: "s = c # t" by (cases s) auto
    show ?thesis
    proof (cases "isUpperA c")
      case lower: False
      then show ?thesis using 1(1) s by (simp add: camelRest.simps [of "c # t"] notUpperA_def)
    next
      case up: True
      let ?u = "takeWhile isUpperA s" and ?r = "dropWhile isUpperA s"
      have u: "?u \<noteq> []" using s up by simp
      have ds: "dropWhile notUpperA s = s" using s up by (simp add: notUpperA_def)
      show ?thesis
      proof (cases "?r = []")
        case True
        then have "?u = s" by (metis append_Nil2 takeWhile_dropWhile_id)
        moreover have "isUpperA (hd s)" using s up by simp
        ultimately show ?thesis using True u ds
          by (subst camelRest.simps) (auto simp: Let_def takeWhile_eq_Nil_iff)
      next
        case False
        have "butlast ?u @ last ?u # takeWhile notUpperA ?r @ dropWhile notUpperA ?r = s"
          using u by (metis append.assoc append_Cons append_butlast_last_id append_self_conv2 takeWhile_dropWhile_id)
        moreover have "dropWhile notUpperA (dropWhile notUpperA ?r) = dropWhile notUpperA ?r"
          by (simp add: dropWhile_eq_self_iff)
        moreover have "camelRest s = (butlast ?u, last ?u # takeWhile notUpperA ?r) #
            camelRest (dropWhile notUpperA ?r)"
          using u False \<open>s \<noteq> []\<close> by (subst camelRest.simps) (simp only: Let_def if_False)
        moreover have "concat (map (\<lambda>(a, b). a @ b) (camelRest (dropWhile notUpperA ?r))) =
            dropWhile notUpperA (dropWhile notUpperA ?r)"
          by (rule 1(2) [OF \<open>s \<noteq> []\<close> refl refl u False])
        ultimately show ?thesis by (simp add: ds del: dropWhile.simps takeWhile.simps)
      qed
    qed
  qed (simp add: camelRest.simps)
qed

lemma camelMatches_concat:
  "isUpperA c \<Longrightarrow> concat (map (\<lambda>(a, b). a @ b) (camelMatches (c # s))) = c # s"
  using camelRest_concat [of "c # s"] camelRest_concat [of "dropWhile notUpperA s"]
  by (auto simp: camelMatches_def notUpperA_def Let_def)

text \<open>Taking the underscores out of an environment name gives back the field name in capitals.\<close>

lemma fieldNameToEnvName_letters:
  assumes "isUpperA c"
  shows "noUnderscore (fieldNameToEnvName (c # s)) = toUpper (noUnderscore (c # s))"
proof -
  have "concat (concat (map (\<lambda>(a, b). filter (\<lambda>x. x \<noteq> []) [a, b]) ms)) = concat (map (\<lambda>(a, b). a @ b) ms)"
    for ms :: "(string \<times> string) list"
    by (induction ms) auto
  then show ?thesis
    unfolding fieldNameToEnvName_def noUnderscore_upper noUnderscore_join
    by (simp add: camelMatches_concat [OF assms])
qed

text \<open>The field names in capitals, which are pairwise different.\<close>

lemma upperChar_table:
  "upperChar CHR ''2'' = CHR ''2''"
  "upperChar CHR ''A'' = CHR ''A''"
  "upperChar CHR ''B'' = CHR ''B''"
  "upperChar CHR ''C'' = CHR ''C''"
  "upperChar CHR ''D'' = CHR ''D''"
  "upperChar CHR ''E'' = CHR ''E''"
  "upperChar CHR ''F'' = CHR ''F''"
  "upperChar CHR ''G'' = CHR ''G''"
  "upperChar CHR ''H'' = CHR ''H''"
  "upperChar CHR ''I'' = CHR ''I''"
  "upperChar CHR ''J'' = CHR ''J''"
  "upperChar CHR ''K'' = CHR ''K''"
  "upperChar CHR ''L'' = CHR ''L''"
  "upperChar CHR ''M'' = CHR ''M''"
  "upperChar CHR ''N'' = CHR ''N''"
  "upperChar CHR ''O'' = CHR ''O''"
  "upperChar CHR ''P'' = CHR ''P''"
  "upperChar CHR ''Q'' = CHR ''Q''"
  "upperChar CHR ''R'' = CHR ''R''"
  "upperChar CHR ''S'' = CHR ''S''"
  "upperChar CHR ''T'' = CHR ''T''"
  "upperChar CHR ''U'' = CHR ''U''"
  "upperChar CHR ''V'' = CHR ''V''"
  "upperChar CHR ''W'' = CHR ''W''"
  "upperChar CHR ''a'' = CHR ''A''"
  "upperChar CHR ''b'' = CHR ''B''"
  "upperChar CHR ''c'' = CHR ''C''"
  "upperChar CHR ''d'' = CHR ''D''"
  "upperChar CHR ''e'' = CHR ''E''"
  "upperChar CHR ''f'' = CHR ''F''"
  "upperChar CHR ''g'' = CHR ''G''"
  "upperChar CHR ''h'' = CHR ''H''"
  "upperChar CHR ''i'' = CHR ''I''"
  "upperChar CHR ''k'' = CHR ''K''"
  "upperChar CHR ''l'' = CHR ''L''"
  "upperChar CHR ''m'' = CHR ''M''"
  "upperChar CHR ''n'' = CHR ''N''"
  "upperChar CHR ''o'' = CHR ''O''"
  "upperChar CHR ''p'' = CHR ''P''"
  "upperChar CHR ''q'' = CHR ''Q''"
  "upperChar CHR ''r'' = CHR ''R''"
  "upperChar CHR ''s'' = CHR ''S''"
  "upperChar CHR ''t'' = CHR ''T''"
  "upperChar CHR ''u'' = CHR ''U''"
  "upperChar CHR ''v'' = CHR ''V''"
  "upperChar CHR ''w'' = CHR ''W''"
  "upperChar CHR ''x'' = CHR ''X''"
  "upperChar CHR ''y'' = CHR ''Y''"
  "upperChar CHR ''z'' = CHR ''Z''"
  by code_simp+
definition upperNames :: "string list" where "upperNames = [
     ''KAFKAURL'', ''KAFKARESPONSETOPIC'', ''KAFKAGROUPNAME'', ''FATALKAFKAERROR'', ''PROTOCOL'',
     ''DEVICEMANAGERURL'', ''DEVICEREPOURL'', ''AUTHCLIENTID'', ''AUTHCLIENTSECRET'',
     ''AUTHEXPIRATIONTIMEBUFFER'', ''AUTHENDPOINT'', ''JWTPRIVATEKEY'', ''JWTEXPIRATION'', ''JWTISSUER'',
     ''WEBHOOKPORT'', ''GATEWAYLOGTOPIC'', ''DEVICELOGTOPIC'', ''CONNECTIONLOGQOS'', ''MEMCACHEDURL'',
     ''MQTTBROKER'', ''MQTTVERSION'', ''CHECKHUB'', ''DEBUG'', ''MQTTDEBUG'', ''CORRELATIONEXPIRATION'',
     ''IOTCACHEURLS'', ''DEVICEEXPIRATION'', ''DEVICETYPEEXPIRATION'', ''CHARACTERISTICEXPIRATION'',
     ''TOKENCACHEURLS'', ''TOKENCACHEEXPIRATION'', ''MQTTPUBLISHAUTHONLY'', ''STARTUPDELAY'', ''LOG'',
     ''WEBHOOKTIMEOUT'', ''VALIDATE'', ''VALIDATEALLOWUNKNOWNFIELD'', ''VALIDATEALLOWMISSINGFIELD'',
     ''FOGHANDLERTOPICPREFIX'', ''HEALTHTOPIC'', ''GATEWAYHEALTHTOPIC'', ''HEALTHHUBCHECKCACHEDURATION'',
     ''HEALTHMAXPAYLOADSIZE'', ''KAFKAPARTITIONNUM'', ''KAFKAREPLICATIONFACTOR'', ''FORCECLEANSESSION'',
     ''CLEANSESSIONALLOWUSERLIST'', ''PUBLISHTOPOSTGRES'', ''POSTGRESHOST'', ''POSTGRESPORT'',
     ''POSTGRESUSER'', ''POSTGRESPW'', ''POSTGRESDB'', ''HTTPCOMMANDCONSUMERPORT'', ''ASYNCPGTHREADMAX'',
     ''ASYNCFLUSHMESSAGES'', ''ASYNCFLUSHFREQUENCY'', ''ASYNCCOMPRESSION'', ''SYNCCOMPRESSION'',
     ''KAFKACONSUMERMAXWAIT'', ''KAFKACONSUMERMINBYTES'', ''KAFKACONSUMERMAXBYTES'',
     ''IOTCACHEMAXIDLECONNS'', ''CORRELATIONMAXIDLECONNS'', ''IOTCACHETIMEOUT'', ''CORRELATIONTIMEOUT'',
     ''COMMANDWORKERCOUNT'', ''DEVICETYPETOPIC'', ''NOTIFICATIONURL'', ''PERMISSIONSV2URL'',
     ''NOTIFICATIONSIGNOREDUPLICATESWITHINS'', ''NOTIFICATIONUSEROVERWRITE'',
     ''DEVELOPERNOTIFICATIONURL'', ''MQTTERRORONEVENTVALIDATIONERROR'', ''KAFKATOPICCONFIGS'',
     ''MQTTAUTHMETHOD'', ''CONNECTIONLIMITCOUNT'', ''CONNECTIONLIMITDURATIONINSECONDS'',
     ''FORCECOMMANDSUBSCRIPTIONSERVICESINGLELEVELWILDCARD'', ''SECREMOTEPROTOCOL'',
     ''FORCETOPICSWITHOWNER'', ''MUTEDUSERNOTIFICATIONTITLES'', ''CONNECTIONCHECKURL'',
     ''CONNECTIONCHECKHTTPTIMEOUT'', ''APIDOCSPROVIDERBASEURL'', ''VMQADMINAPIURL'',
     ''DISCONNECTCOMMANDDELAY'', ''INITTOPICS'', ''NIMBUSDEVICETYPEID'', ''WMBUSDEVICETYPENAMESPACE'',
     ''WMBUSDEVICECLASSID'', ''SENERGYPROTOCOLID'', ''SENERGYPROTOCLSEGMENT'', ''WAITINGROOMURL'',
     ''WMBUSMETERSEXECUTABLE'', ''WMBUSMETERSDRIVERSDIR'', ''LOGLEVEL'']"
lemma upperNames: "map (\<lambda>f. toUpper (cfName f)) configFields = upperNames"
  unfolding configFields_def upperNames_def plainField_def secretField_def toUpper_def list.map
  by (simp only: configField.simps list.map upperChar_table)
lemma upperNames_distinct: "distinct upperNames"
  by (simp add: upperNames_def)

lemma configFields_capital:
  "list_all (\<lambda>f. cfName f \<noteq> [] \<and> isUpperA (hd (cfName f)) \<and> CHR ''_'' \<notin> set (cfName f)) configFields"
  unfolding configFields_def plainField_def secretField_def
  by (simp add: isUpperA_def inRange_def)

lemma envName_letters:
  assumes "f \<in> set configFields"
  shows "noUnderscore (fieldNameToEnvName (cfName f)) = toUpper (cfName f)"
proof -
  have f: "cfName f \<noteq> []" "isUpperA (hd (cfName f))" "CHR ''_'' \<notin> set (cfName f)"
    using configFields_capital assms by (auto simp: list_all_iff)
  then have "noUnderscore (cfName f) = cfName f" by (auto simp: noUnderscore_def filter_id_conv)
  with f fieldNameToEnvName_letters [of "hd (cfName f)" "tl (cfName f)"] show ?thesis by simp
qed

lemma envNames_distinct: "distinct (map (\<lambda>f. fieldNameToEnvName (cfName f)) configFields)"
proof -
  have "map (\<lambda>f. noUnderscore (fieldNameToEnvName (cfName f))) configFields = upperNames"
    using envName_letters by (subst upperNames [symmetric]) (rule map_cong; simp)
  then have "distinct (map noUnderscore (map (\<lambda>f. fieldNameToEnvName (cfName f)) configFields))"
    using upperNames_distinct by (simp add: o_def)
  then show ?thesis by (simp only: distinct_map)
qed

section \<open>What an environment variable changes\<close>

text \<open>\<open>keeps get k\<close>: setting a field of kind \<open>k\<close> does not change what \<open>get\<close> reads.\<close>

definition keeps :: "(config \<Rightarrow> 'a) \<Rightarrow> fieldKind \<Rightarrow> bool" where
  "keeps get k \<longleftrightarrow> (\<forall>lib v c c'. setField lib k v c = Some c' \<longrightarrow> get c' = get c)"

lemma envFields_keeps:
  "\<forall>f \<in> set fs. keeps get (cfKind f) \<Longrightarrow> envFields lib env fs c = Some c' \<Longrightarrow> get c' = get c"
  by (induction fs arbitrary: c) (auto simp: Let_def keeps_def split: if_splits option.splits)

lemma envFields_append:
  "envFields lib env (fs @ gs) c =
     (case envFields lib env fs c of None \<Rightarrow> None | Some c' \<Rightarrow> envFields lib env gs c')"
  by (induction fs arbitrary: c) (auto simp: Let_def split: option.splits)

lemma envFields_field:
  assumes "envFields lib env (fs @ f # gs) c = Some c'"
    and "\<forall>g \<in> set gs. keeps get (cfKind g)"
    and "env (fieldNameToEnvName (cfName f)) \<noteq> []"
  obtains c0 c1 where "setField lib (cfKind f) (env (fieldNameToEnvName (cfName f))) c0 = Some c1" "get c' = get c1"
  using assms envFields_keeps [OF assms(2)]
  by (auto simp: envFields_append Let_def split: option.splits)

lemma envFields_unset: "\<forall>f \<in> set fs. env (fieldNameToEnvName (cfName f)) = [] \<Longrightarrow> envFields lib env fs c = Some c"
  by (induction fs) auto

end
