(* ===== verification/HandlerCore.thy ===== *)
theory HandlerCore
  imports Services
begin

text \<open>
  \<open>lib/handler/handler.go\<close> and \<open>lib/handler/helper.go\<close>: the results and the interface of a topic
  handler, topic parsing, the hub and event checks, and the dispatch of a subscription over the
  handlers. The interface is the locale \<open>topic_handler\<close>; \<open>prefix_handler\<close> adds the part of the topic
  space a handler owns.
\<close>

section \<open>Results and handlers\<close>

text \<open>Go's \<open>Result\<close> is an int; values beyond the four constants are \<open>UnknownResult\<close>.\<close>

datatype result = Unhandled | Accepted | Rejected | Error | UnknownResult int

record 'w handler =
  hSubscribe :: "string \<Rightarrow> string \<Rightarrow> string \<Rightarrow> ('w, result \<times> goerror option) io"
  hPublish :: "string \<Rightarrow> string \<Rightarrow> string \<Rightarrow> string \<Rightarrow> int \<Rightarrow> nat \<Rightarrow> ('w, result \<times> goerror option) io"

section \<open>Topics\<close>

datatype topicParts = TopicParts (tpPrefix: string) (tpOwner: string) (tpDevice: string) (tpService: string)

definition topicError :: goerror where
  "topicError = errorsNew ''expect 3 or 4 part topic with prefix/device-uri/service-uri or prefix/owner-id/device-uri/service-uri''"

definition ParseTopic :: "string \<Rightarrow> goerror + topicParts" where
  "ParseTopic topic =
     (case splitOn CHR ''/'' topic of
        [p, d, s] \<Rightarrow> Inr (TopicParts p [] d s)
      | [p, ow, d, s] \<Rightarrow> Inr (TopicParts p ow d s)
      | _ \<Rightarrow> Inl topicError)"

lemma ParseTopic_cases:
  obtains (short) p d s where "splitOn CHR ''/'' t = [p, d, s]" "ParseTopic t = Inr (TopicParts p [] d s)"
  | (long) p ow d s where "splitOn CHR ''/'' t = [p, ow, d, s]" "ParseTopic t = Inr (TopicParts p ow d s)"
  | (bad) "length (splitOn CHR ''/'' t) \<noteq> 3" "length (splitOn CHR ''/'' t) \<noteq> 4" "ParseTopic t = Inl topicError"
  by (cases "splitOn CHR ''/'' t" rule: list.exhaust; cases "tl (splitOn CHR ''/'' t)" rule: list.exhaust;
      cases "tl (tl (splitOn CHR ''/'' t))" rule: list.exhaust;
      cases "tl (tl (tl (splitOn CHR ''/'' t)))" rule: list.exhaust;
      cases "tl (tl (tl (tl (splitOn CHR ''/'' t))))" rule: list.exhaust)
    (auto simp: ParseTopic_def)

lemma ParseTopic_prefix: "ParseTopic t = Inr (TopicParts p ow d s) \<Longrightarrow> hasPrefix t p"
proof -
  assume a: "ParseTopic t = Inr (TopicParts p ow d s)"
  obtain ps where ps: "splitOn CHR ''/'' t = p # ps"
    using a by (cases t rule: ParseTopic_cases) auto
  then show "hasPrefix t p"
    using hasPrefix_splitOn_hd [of "CHR ''/''" p t] splitOn_parts [of p "CHR ''/''" t] by simp
qed

lemma ParseTopic_no_slash:
  "ParseTopic t = Inr (TopicParts p ow d s) \<Longrightarrow>
   CHR ''/'' \<notin> set p \<and> CHR ''/'' \<notin> set ow \<and> CHR ''/'' \<notin> set d \<and> CHR ''/'' \<notin> set s"
  by (cases t rule: ParseTopic_cases) (auto dest!: splitOn_parts [rotated] simp: splitOn_eq_iff)

section \<open>checkHub and checkEvent\<close>

definition checkHub :: "'w connector \<Rightarrow> string \<Rightarrow> string \<Rightarrow> string \<Rightarrow> ('w, goerror option) io" where
  "checkHub cn token hubId deviceUri = do {
     r \<leftarrow> callGetHub cn hubId token;
     case r of
       Inl e \<Rightarrow> ret (Some e)
     | Inr h \<Rightarrow>
         (if deviceUri \<in> set (hubDeviceLocalIds h) then ret None
          else ret (Some (errorsNew ''device is not assigned to hub'')))
   }"

definition serviceNotFoundErr :: goerror where
  "serviceNotFoundErr = GoError ''service not found'' [ServiceNotFound]"

definition checkEvent :: "'w connector \<Rightarrow> string \<Rightarrow> string \<Rightarrow> string \<Rightarrow> ('w, goerror option) io" where
  "checkEvent cn token deviceUri serviceUri = do {
     d \<leftarrow> callDevice cn token deviceUri;
     case d of
       Inl e \<Rightarrow> ret (Some e)
     | Inr dev \<Rightarrow> do {
         t \<leftarrow> callDeviceType cn token (devTypeId dev);
         case t of
           Inl e \<Rightarrow> ret (Some e)
         | Inr dt \<Rightarrow>
             (if \<exists>s \<in> set (dtServices dt). svLocalId s = serviceUri then ret None
              else ret (Some serviceNotFoundErr))
       }
   }"

lemma quiet_checkHub [quiet_intros]: "quiet (checkHub cn token hubId deviceUri)"
  unfolding checkHub_def by (intro quiet_intros)

lemma quiet_checkEvent [quiet_intros]: "quiet (checkEvent cn token deviceUri serviceUri)"
  unfolding checkEvent_def by (intro quiet_intros)

section \<open>Dispatching a subscription\<close>

definition noHandlerError :: goerror where
  "noHandlerError = errorsNew ''no matching topic handler found''"

fun HandleTopicSubscribe ::
  "string \<Rightarrow> string \<Rightarrow> string \<Rightarrow> 'w handler list \<Rightarrow> ('w, result \<times> goerror option) io" where
  "HandleTopicSubscribe clientId username topic [] = ret (Rejected, Some noHandlerError)"
| "HandleTopicSubscribe clientId username topic (h # hs) = do {
     (r, err) \<leftarrow> hSubscribe h clientId username topic;
     case err of
       Some e \<Rightarrow> ret (Error, Some e)
     | None \<Rightarrow>
         (case r of
            Accepted \<Rightarrow> ret (r, err)
          | Rejected \<Rightarrow> ret (r, err)
          | Error \<Rightarrow> ret (r, err)
          | Unhandled \<Rightarrow> HandleTopicSubscribe clientId username topic hs
          | UnknownResult _ \<Rightarrow> HandleTopicSubscribe clientId username topic hs)
   }"

section \<open>The interface of a handler\<close>

text \<open>
  What the webhooks rely on. They call \<open>err.Error()\<close> on the error that comes with \<open>Rejected\<close> or
  \<open>Error\<close>, so a published message must never be refused without one; a subscription must not fail
  without one. A handler writes no response itself, and keeps the call log growing.
\<close>

locale topic_handler =
  fixes h :: "'w handler"
  assumes publish_err:
      "run_state (hPublish h c u t p q z) s = ((r, e), s') \<Longrightarrow> r = Rejected \<or> r = Error \<Longrightarrow> e \<noteq> None"
    and subscribe_err:
      "run_state (hSubscribe h c u t) s = ((r, e), s') \<Longrightarrow> r = Error \<Longrightarrow> e \<noteq> None"
    and publish_known:
      "run_state (hPublish h c u t p q z) s = ((r, e), s') \<Longrightarrow> r \<in> {Unhandled, Accepted, Rejected, Error}"
    and subscribe_known:
      "run_state (hSubscribe h c u t) s = ((r, e), s') \<Longrightarrow> r \<in> {Unhandled, Accepted, Rejected, Error}"
    and publish_frame:
      "run_state (hPublish h c u t p q z) s = (x, s') \<Longrightarrow> extends s s' \<and> written s' = written s"
    and subscribe_frame:
      "run_state (hSubscribe h c u t) s = (x, s') \<Longrightarrow> extends s s' \<and> written s' = written s"

definition publishOk :: "result \<times> goerror option \<Rightarrow> bool" where
  "publishOk x \<longleftrightarrow> fst x \<in> {Unhandled, Accepted, Rejected, Error} \<and>
     (fst x = Rejected \<or> fst x = Error \<longrightarrow> snd x \<noteq> None)"

definition subscribeOk :: "result \<times> goerror option \<Rightarrow> bool" where
  "subscribeOk x \<longleftrightarrow> fst x \<in> {Unhandled, Accepted, Rejected, Error} \<and> (fst x = Error \<longrightarrow> snd x \<noteq> None)"

lemma publishOk_simps [simp]:
  "publishOk (Unhandled, e)" "publishOk (Accepted, e)" "publishOk (Rejected, Some x)" "publishOk (Error, Some x)"
  by (simp_all add: publishOk_def)

lemma subscribeOk_simps [simp]:
  "subscribeOk (Unhandled, e)" "subscribeOk (Accepted, e)" "subscribeOk (Rejected, e)" "subscribeOk (Error, Some x)"
  by (simp_all add: subscribeOk_def)

lemma topic_handler_logsI:
  assumes "\<And>c u t p q z. yields publishOk (hPublish h c u t p q z)"
    and "\<And>c u t. yields subscribeOk (hSubscribe h c u t)"
    and "\<And>c u t p q z. logs (hPublish h c u t p q z)"
    and "\<And>c u t. logs (hSubscribe h c u t)"
  shows "topic_handler h"
proof unfold_locales
  fix c u t p q z s r e s'
  assume run: "run_state (hPublish h c u t p q z) s = ((r, e), s')"
  show "r = Rejected \<or> r = Error \<Longrightarrow> e \<noteq> None" "r \<in> {Unhandled, Accepted, Rejected, Error}"
    using yieldsD [OF assms(1) run] by (auto simp: publishOk_def)
next
  fix c u t s r e s'
  assume run: "run_state (hSubscribe h c u t) s = ((r, e), s')"
  show "r = Error \<Longrightarrow> e \<noteq> None" "r \<in> {Unhandled, Accepted, Rejected, Error}"
    using yieldsD [OF assms(2) run] by (auto simp: subscribeOk_def)
next
  fix c u t p q z s x s'
  assume "run_state (hPublish h c u t p q z) s = (x, s')"
  then show "extends s s' \<and> written s' = written s" by (intro conjI logsD [OF assms(3)])
next
  fix c u t s x s'
  assume "run_state (hSubscribe h c u t) s = (x, s')"
  then show "extends s s' \<and> written s' = written s" by (intro conjI logsD [OF assms(4)])
qed

lemma topic_handlerI:
  assumes "\<And>c u t p q z. yields publishOk (hPublish h c u t p q z)"
    and "\<And>c u t. yields subscribeOk (hSubscribe h c u t)"
    and "\<And>c u t p q z. quiet (hPublish h c u t p q z)"
    and "\<And>c u t. quiet (hSubscribe h c u t)"
  shows "topic_handler h"
  using assms by (intro topic_handler_logsI quiet_logs)

text \<open>A handler that leaves every topic outside its own prefix alone, without a single call.\<close>

locale prefix_handler = topic_handler h for h :: "'w handler" +
  fixes pre :: string
  assumes publish_foreign:
      "\<not> hasPrefix t pre \<Longrightarrow> run_state (hPublish h c u t p q z) s = ((Unhandled, None), s)"
    and subscribe_foreign:
      "\<not> hasPrefix t pre \<Longrightarrow> run_state (hSubscribe h c u t) s = ((Unhandled, None), s)"
begin

lemma subscribe_skip:
  "\<not> hasPrefix t pre \<Longrightarrow>
   run_state (HandleTopicSubscribe c u t (h # hs)) s = run_state (HandleTopicSubscribe c u t hs) s"
  by (simp add: io_simps subscribe_foreign)

end

lemma HandleTopicSubscribe_frame:
  assumes "\<forall>h \<in> set hs. topic_handler h" "run_state (HandleTopicSubscribe c u t hs) s = (x, s')"
  shows "extends s s' \<and> written s' = written s"
  using assms
proof (induction hs arbitrary: s)
  case (Cons h hs)
  obtain r e s1 where h: "run_state (hSubscribe h c u t) s = ((r, e), s1)"
    by (metis surj_pair)
  have fr: "extends s s1 \<and> written s1 = written s"
    using topic_handler.subscribe_frame [OF _ h] Cons.prems(1) by simp
  show ?case
    using Cons.prems h fr Cons.IH [of s1]
    by (auto simp: io_simps split: option.splits result.splits intro: extends_trans)
qed (simp add: io_simps)

lemma HandleTopicSubscribe_error:
  assumes "\<forall>h \<in> set hs. topic_handler h" "run_state (HandleTopicSubscribe c u t hs) s = ((Error, e), s')"
  shows "e \<noteq> None"
  using assms
proof (induction hs arbitrary: s)
  case (Cons h hs)
  obtain r e1 s1 where h: "run_state (hSubscribe h c u t) s = ((r, e1), s1)"
    by (metis surj_pair)
  have "r = Error \<Longrightarrow> e1 \<noteq> None"
    using topic_handler.subscribe_err [OF _ h] Cons.prems(1) by simp
  then show ?case
    using Cons.prems h Cons.IH [of s1] by (auto simp: io_simps split: option.splits result.splits)
qed (simp add: io_simps)

text \<open>The dispatch decides: the webhook never sees \<open>Unhandled\<close> or an unknown result.\<close>

lemma HandleTopicSubscribe_decides:
  "run_state (HandleTopicSubscribe c u t hs) s = ((r, e), s') \<Longrightarrow> r \<in> {Accepted, Rejected, Error}"
proof (induction hs arbitrary: s)
  case (Cons h hs)
  obtain r1 e1 s1 where h: "run_state (hSubscribe h c u t) s = ((r1, e1), s1)"
    by (metis surj_pair)
  show ?case
    using Cons.prems h Cons.IH [of s1] by (auto simp: io_simps split: option.splits result.splits)
qed (simp add: io_simps)

end
