(* ===== verification/OwnTopicHandlers.thy ===== *)
theory OwnTopicHandlers
  imports HandlerCore
begin

text \<open>
  The handlers of topics below a user's own id: \<open>lib/handler/export/handler.go\<close> and
  \<open>lib/handler/notifications/handler.go\<close>. They only allow subscriptions, and only to the topic whose
  second level is the id of the subscribing user.
\<close>

section \<open>export\<close>

definition exportSubscribe ::
  "'w connector \<Rightarrow> string \<Rightarrow> string \<Rightarrow> string \<Rightarrow> ('w, result \<times> goerror option) io" where
  "exportSubscribe cn clientId user topic =
     (if \<not> hasPrefix topic ''export'' then ret (Unhandled, None)
      else (case splitOn CHR ''/'' topic of
        _ # part1 # _ \<Rightarrow> do {
          r \<leftarrow> callUserId cn user;
          case r of
            Inl e \<Rightarrow> ret (Error, Some e)
          | Inr userId \<Rightarrow> (if userId \<noteq> part1 then ret (Rejected, None) else ret (Accepted, None))
        }
      | _ \<Rightarrow> ret (Rejected, None)))"

definition exportPublish ::
  "string \<Rightarrow> string \<Rightarrow> string \<Rightarrow> string \<Rightarrow> int \<Rightarrow> nat \<Rightarrow> ('w, result \<times> goerror option) io" where
  "exportPublish clientId user topic payload qos sz = ret (Unhandled, None)"

definition exportHandler :: "'w connector \<Rightarrow> 'w handler" where
  "exportHandler cn = \<lparr>hSubscribe = exportSubscribe cn, hPublish = exportPublish\<rparr>"

section \<open>notifications\<close>

definition notificationsSubscribe ::
  "'w connector \<Rightarrow> string \<Rightarrow> string \<Rightarrow> string \<Rightarrow> ('w, result \<times> goerror option) io" where
  "notificationsSubscribe cn clientId user topic =
     (if \<not> hasPrefix topic ''notifications'' then ret (Unhandled, None)
      else (case splitOn CHR ''/'' topic of
        _ # part1 # _ \<Rightarrow> do {
          r \<leftarrow> callUserId cn user;
          case r of
            Inl e \<Rightarrow> ret (Error, Some e)
          | Inr userId \<Rightarrow> (if userId \<noteq> part1 then ret (Rejected, None) else ret (Accepted, None))
        }
      | _ \<Rightarrow> ret (Rejected, None)))"

definition notificationsPublish ::
  "string \<Rightarrow> string \<Rightarrow> string \<Rightarrow> string \<Rightarrow> int \<Rightarrow> nat \<Rightarrow> ('w, result \<times> goerror option) io" where
  "notificationsPublish clientId user topic payload qos sz = ret (Unhandled, None)"

definition notificationsHandler :: "'w connector \<Rightarrow> 'w handler" where
  "notificationsHandler cn = \<lparr>hSubscribe = notificationsSubscribe cn, hPublish = notificationsPublish\<rparr>"

section \<open>The interface\<close>

lemma quiet_list2 [quiet_intros]:
  "quiet m \<Longrightarrow> (\<And>x. quiet (k x)) \<Longrightarrow> (\<And>x y zs. quiet (f x y zs)) \<Longrightarrow>
   quiet (case xs of [] \<Rightarrow> m | x # ys \<Rightarrow> (case ys of [] \<Rightarrow> k x | y # zs \<Rightarrow> f x y zs))"
  by (auto split: list.splits)

lemma yields_list2 [yields_intros]:
  "yields P m \<Longrightarrow> (\<And>x. yields P (k x)) \<Longrightarrow> (\<And>x y zs. yields P (f x y zs)) \<Longrightarrow>
   yields P (case xs of [] \<Rightarrow> m | x # ys \<Rightarrow> (case ys of [] \<Rightarrow> k x | y # zs \<Rightarrow> f x y zs))"
  by (auto split: list.splits)

interpretation exportH: prefix_handler "exportHandler cn" "''export''" for cn :: "'w connector"
proof (intro prefix_handler.intro topic_handlerI prefix_handler_axioms.intro)
  show "yields publishOk (hPublish (exportHandler cn) c u t p q z)"
    and "quiet (hPublish (exportHandler cn) c u t p q z)" for c u t p q z
    unfolding exportHandler_def exportPublish_def handler.simps by (intro yields_intros quiet_intros; simp)+
  show "yields subscribeOk (hSubscribe (exportHandler cn) c u t)"
    and "quiet (hSubscribe (exportHandler cn) c u t)" for c u t
    unfolding exportHandler_def exportSubscribe_def handler.simps by (intro yields_intros quiet_intros; simp)+
qed (simp_all add: exportHandler_def exportSubscribe_def exportPublish_def)

interpretation notificationsH: prefix_handler "notificationsHandler cn" "''notifications''"
  for cn :: "'w connector"
proof (intro prefix_handler.intro topic_handlerI prefix_handler_axioms.intro)
  show "yields publishOk (hPublish (notificationsHandler cn) c u t p q z)"
    and "quiet (hPublish (notificationsHandler cn) c u t p q z)" for c u t p q z
    unfolding notificationsHandler_def notificationsPublish_def handler.simps
    by (intro yields_intros quiet_intros; simp)+
  show "yields subscribeOk (hSubscribe (notificationsHandler cn) c u t)"
    and "quiet (hSubscribe (notificationsHandler cn) c u t)" for c u t
    unfolding notificationsHandler_def notificationsSubscribe_def handler.simps
    by (intro yields_intros quiet_intros; simp)+
qed (simp_all add: notificationsHandler_def notificationsSubscribe_def notificationsPublish_def)

end
