(* ===== verification/ProcessHandler.thy ===== *)
theory ProcessHandler
  imports HandlerCore
begin

text \<open>
  \<open>lib/handler/process/handler.go\<close>: access to the process topics of a hub, for publishing and
  subscribing alike. Administrators may use every topic; others only those of a hub that is their
  own client id or that exists for their token.
\<close>

definition nonAdminPlaceholderErr :: goerror where
  "nonAdminPlaceholderErr =
     GoError ''non admin request to placeholder topic of processes'' [NonAdminRequestToPlaceholderTopicError]"

definition missingHubIdErr :: goerror where
  "missingHubIdErr = GoError ''missing hub id in topic'' [MissingHubIdInTopicError]"

definition hubAccessDeniedErr :: goerror where
  "hubAccessDeniedErr = GoError ''access to hub denied'' [HubAccessDeniedError]"

definition parseTopic :: "string \<Rightarrow> goerror + string" where
  "parseTopic topic = (case splitOn CHR ''/'' topic of
     _ # hubId # _ \<Rightarrow> Inr hubId
   | _ \<Rightarrow> Inl missingHubIdErr)"

definition isAdmin :: "'w connector \<Rightarrow> string \<Rightarrow> goerror + bool" where
  "isAdmin cn token = (case jwtGetPayload cn token of
     Inl e \<Rightarrow> Inl e
   | Inr p \<Rightarrow> Inr (''admin'' \<in> set (plRoles p)))"

definition checkTopicAccess ::
  "'w connector \<Rightarrow> string \<Rightarrow> string \<Rightarrow> string \<Rightarrow> ('w, result \<times> goerror option) io" where
  "checkTopicAccess cn clientId user topic =
     (if \<not> hasPrefix topic ''processes/'' then ret (Unhandled, None)
      else do {
        t \<leftarrow> callToken cn user;
        case t of
          Inl e \<Rightarrow> ret (Error, Some e)
        | Inr token \<Rightarrow>
            (case isAdmin cn token of
               Inl e \<Rightarrow> ret (Error, Some e)
             | Inr admin \<Rightarrow>
                 (if admin then ret (Accepted, None)
                  else (case parseTopic topic of
                    Inl e \<Rightarrow> ret (Rejected, Some e)
                  | Inr hubId \<Rightarrow>
                      (if hubId = ''+'' \<or> hubId = ''#'' then ret (Rejected, Some nonAdminPlaceholderErr)
                       else if clientId \<noteq> hubId then do {
                         (exists, err) \<leftarrow> callExistsHub cn hubId token;
                         case err of
                           Some e \<Rightarrow> ret (Error, Some e)
                         | None \<Rightarrow>
                             (if \<not> exists then ret (Rejected, Some hubAccessDeniedErr)
                              else ret (Accepted, None))
                       }
                       else ret (Accepted, None)))))
      })"

definition processSubscribe ::
  "'w connector \<Rightarrow> string \<Rightarrow> string \<Rightarrow> string \<Rightarrow> ('w, result \<times> goerror option) io" where
  "processSubscribe cn clientId user topic = checkTopicAccess cn clientId user topic"

definition processPublish ::
  "'w connector \<Rightarrow> string \<Rightarrow> string \<Rightarrow> string \<Rightarrow> string \<Rightarrow> int \<Rightarrow> nat \<Rightarrow>
   ('w, result \<times> goerror option) io" where
  "processPublish cn clientId user topic payload qos sz = checkTopicAccess cn clientId user topic"

definition processHandler :: "'w connector \<Rightarrow> 'w handler" where
  "processHandler cn = \<lparr>hSubscribe = processSubscribe cn, hPublish = processPublish cn\<rparr>"

lemma quiet_checkTopicAccess [quiet_intros]: "quiet (checkTopicAccess cn c u t)"
  unfolding checkTopicAccess_def by (intro quiet_intros)

lemma yields_checkTopicAccess:
  "yields publishOk (checkTopicAccess cn c u t)" "yields subscribeOk (checkTopicAccess cn c u t)"
  unfolding checkTopicAccess_def by (intro yields_intros; simp)+

interpretation processH: prefix_handler "processHandler cn" "''processes/''" for cn :: "'w connector"
  by (intro prefix_handler.intro topic_handlerI prefix_handler_axioms.intro)
    (simp_all add: processHandler_def processSubscribe_def processPublish_def quiet_checkTopicAccess
      yields_checkTopicAccess, simp_all add: checkTopicAccess_def)

text \<open>Who gets in, read off one run: the token's roles, the topic's hub id, and the hub service.\<close>

lemma checkTopicAccess_accepted:
  assumes "run_state (checkTopicAccess cn c u t) s = ((Accepted, e), s')"
  obtains token p where "CToken u (Inr token) \<in> set (newCalls s s')" "jwtGetPayload cn token = Inr p"
    "''admin'' \<in> set (plRoles p) \<or>
     (\<exists>hubId. parseTopic t = Inr hubId \<and> hubId \<notin> {''+'', ''#''} \<and>
       (hubId = c \<or> CExistsHub hubId token (True, None) \<in> set (newCalls s s')))"
  using assms
  by (auto simp: checkTopicAccess_def io_simps isAdmin_def newCalls_def
      split: if_splits prod.splits sum.splits option.splits)

end
