(* ===== verification/OwnerTopics.thy ===== *)
theory OwnerTopics
  imports HandlerCore
begin

text \<open>
  The check that the command, response and event handlers share: a topic that names an owner may
  be used by that user and by administrators only (the same lines stand in the three handlers).
\<close>

definition ownerMismatchErr :: goerror where
  "ownerMismatchErr = errorsNew ''mismatch between client user and owner in topic''"

definition expectOwnerErr :: goerror where
  "expectOwnerErr = errorsNew ''expect owner id in topic''"

text \<open>\<open>None\<close> lets the message pass, \<open>Some\<close> is the handler's return.\<close>

definition checkOwner :: "'w connector \<Rightarrow> string \<Rightarrow> string \<Rightarrow> (result \<times> goerror option) option" where
  "checkOwner cn token ow =
     (if ow \<noteq> [] then
        (case jwtParse cn token of
           Inl e \<Rightarrow> Some (Error, Some e)
         | Inr p \<Rightarrow>
             (if \<not> jwtIsAdmin p \<and> jwtUserId p \<noteq> ow then Some (Rejected, Some ownerMismatchErr)
              else None))
      else None)"

definition ownerAllowed :: "'w connector \<Rightarrow> string \<Rightarrow> string \<Rightarrow> bool" where
  "ownerAllowed cn token ow \<longleftrightarrow>
     ow = [] \<or> (\<exists>p. jwtParse cn token = Inr p \<and> (jwtIsAdmin p \<or> jwtUserId p = ow))"

lemma checkOwner_None: "checkOwner cn token ow = None \<longleftrightarrow> ownerAllowed cn token ow"
  by (auto simp: checkOwner_def ownerAllowed_def split: sum.splits)

lemma checkOwner_Some:
  "checkOwner cn token ow = Some x \<Longrightarrow> (\<exists>e. x = (Error, Some e)) \<or> x = (Rejected, Some ownerMismatchErr)"
  by (auto simp: checkOwner_def split: if_splits sum.splits)

lemma checkOwner_ok: "checkOwner cn token ow = Some x \<Longrightarrow> publishOk x \<and> subscribeOk x"
  by (auto dest!: checkOwner_Some)

lemma case_topicParts:
  "(case x of TopicParts p ow d s \<Rightarrow> f p ow d s) = f (tpPrefix x) (tpOwner x) (tpDevice x) (tpService x)"
  by (cases x) simp

end
