(* ===== verification/CommandHandler.thy ===== *)
theory CommandHandler
  imports OwnerTopics
begin

text \<open>
  \<open>lib/handler/command/handler.go\<close>: a device subscribes to its command topic. Checks the topic, the
  owner, the hub and the device, and logs the device as connected.
\<close>

definition wildcardErr :: goerror where
  "wildcardErr = errorsNew ''expect a single level wild card in command subscription: command/{device_id}/+''"

definition commandSubscribe ::
  "config \<Rightarrow> 'w connector \<Rightarrow> string \<Rightarrow> string \<Rightarrow> string \<Rightarrow> ('w, result \<times> goerror option) io" where
  "commandSubscribe cfg cn clientId user topic =
     (if \<not> hasPrefix topic ''command'' then ret (Unhandled, None)
      else (case ParseTopic topic of
        Inl e \<Rightarrow> ret (Rejected, Some e)
      | Inr (TopicParts pre ow deviceUri serviceUri) \<Rightarrow>
          (if ForceTopicsWithOwner cfg \<and> ow = [] then ret (Rejected, Some expectOwnerErr)
           else if pre \<noteq> ''command'' then ret (Unhandled, None)
           else if ForceCommandSubscriptionServiceSingleLevelWildcard cfg \<and> serviceUri \<noteq> ''+''
             then ret (Error, Some wildcardErr)
           else do {
             t \<leftarrow> callToken cn user;
             case t of
               Inl e \<Rightarrow> ret (Error, Some e)
             | Inr token \<Rightarrow>
                 (case checkOwner cn token ow of
                    Some x \<Rightarrow> ret x
                  | None \<Rightarrow> do {
                      hubErr \<leftarrow> (if CheckHub cfg then checkHub cn token clientId deviceUri else ret None);
                      case hubErr of
                        Some e \<Rightarrow> ret (Rejected, Some e)
                      | None \<Rightarrow> do {
                          d \<leftarrow> callDevice cn token deviceUri;
                          case d of
                            Inl e \<Rightarrow> ret (Rejected, Some e)
                          | Inr dev \<Rightarrow> do {
                              _ \<leftarrow> perform (logDeviceConnect cn (devId dev)) (CDeviceConnect (devId dev));
                              ret (Accepted, None)
                            }
                        }
                    })
           })))"


definition commandPublish ::
  "string \<Rightarrow> string \<Rightarrow> string \<Rightarrow> string \<Rightarrow> int \<Rightarrow> nat \<Rightarrow> ('w, result \<times> goerror option) io" where
  "commandPublish clientId user topic payload qos sz = ret (Unhandled, None)"

definition commandHandler :: "config \<Rightarrow> 'w connector \<Rightarrow> 'w handler" where
  "commandHandler cfg cn = \<lparr>hSubscribe = commandSubscribe cfg cn, hPublish = commandPublish\<rparr>"

interpretation commandH: prefix_handler "commandHandler cfg cn" "''command''"
  for cfg and cn :: "'w connector"
proof (intro prefix_handler.intro topic_handlerI prefix_handler_axioms.intro)
  show "yields publishOk (hPublish (commandHandler cfg cn) c u t p q z)"
    and "quiet (hPublish (commandHandler cfg cn) c u t p q z)" for c u t p q z
    unfolding commandHandler_def commandPublish_def handler.simps by (intro yields_intros quiet_intros; simp)+
  show "yields subscribeOk (hSubscribe (commandHandler cfg cn) c u t)"
    and "quiet (hSubscribe (commandHandler cfg cn) c u t)" for c u t
    unfolding commandHandler_def commandSubscribe_def handler.simps case_topicParts
    by (intro yields_intros quiet_intros; simp add: checkOwner_ok)+
qed (simp_all add: commandHandler_def commandSubscribe_def commandPublish_def)

text \<open>What an accepted subscription has passed, and that the device is then logged as connected.\<close>

lemma commandSubscribe_accepted:
  assumes "run_state (commandSubscribe cfg cn c u t) s = ((Accepted, e), s')"
  obtains ow d sv token dev x where "ParseTopic t = Inr (TopicParts ''command'' ow d sv)"
    "ForceTopicsWithOwner cfg \<longrightarrow> ow \<noteq> []"
    "ForceCommandSubscriptionServiceSingleLevelWildcard cfg \<longrightarrow> sv = ''+''"
    "CToken u (Inr token) \<in> set (newCalls s s')" "ownerAllowed cn token ow"
    "CDevice token d (Inr dev) \<in> set (newCalls s s')"
    "CDeviceConnect (devId dev) x \<in> set (newCalls s s')"
    "CheckHub cfg \<longrightarrow> (\<exists>h. CGetHub c token (Inr h) \<in> set (newCalls s s') \<and> d \<in> set (hubDeviceLocalIds h))"
  using assms
  by (auto simp: commandSubscribe_def checkHub_def io_simps newCalls_def checkOwner_None
      dest!: checkOwner_Some
      split: if_splits sum.splits topicParts.splits prod.splits option.splits)

text \<open>The same for every device that is logged as connected, whatever the subscription came to.\<close>

lemma commandSubscribe_connects:
  assumes "run_state (commandSubscribe cfg cn c u t) s = (x, s')"
    and "CDeviceConnect i y \<in> set (newCalls s s')"
  obtains ow d sv token dev where "ParseTopic t = Inr (TopicParts ''command'' ow d sv)"
    "ForceTopicsWithOwner cfg \<longrightarrow> ow \<noteq> []"
    "ForceCommandSubscriptionServiceSingleLevelWildcard cfg \<longrightarrow> sv = ''+''"
    "CToken u (Inr token) \<in> set (newCalls s s')" "ownerAllowed cn token ow"
    "CDevice token d (Inr dev) \<in> set (newCalls s s')" "i = devId dev"
    "CheckHub cfg \<longrightarrow> (\<exists>h. CGetHub c token (Inr h) \<in> set (newCalls s s') \<and> d \<in> set (hubDeviceLocalIds h))"
  using assms
  by (auto simp: commandSubscribe_def checkHub_def io_simps newCalls_def checkOwner_None
      dest!: checkOwner_Some
      split: if_splits sum.splits topicParts.splits prod.splits option.splits)

text \<open>A refused or failed subscription never logs a device as connected.\<close>

lemma commandSubscribe_refused:
  assumes "run_state (commandSubscribe cfg cn c u t) s = ((r, e), s')" "r \<noteq> Accepted"
  shows "CDeviceConnect i x \<notin> set (newCalls s s')"
  using assms
  by (auto simp: commandSubscribe_def checkHub_def io_simps newCalls_def
      split: if_splits sum.splits topicParts.splits prod.splits option.splits)

end
