(* ===== verification/ResponseHandler.thy ===== *)
theory ResponseHandler
  imports OwnerTopics
begin

text \<open>
  \<open>lib/handler/response/handler.go\<close>: a device answers a command. The answer names the correlation id
  of the command; the stored request is completed with the answer's traces and handed to the
  platform. The decoded envelope comes from \<open>decodeResponse\<close>, since its payload type is the platform
  library's.
\<close>

definition responseSubscribe ::
  "string \<Rightarrow> string \<Rightarrow> string \<Rightarrow> ('w, result \<times> goerror option) io" where
  "responseSubscribe clientId user topic = ret (Unhandled, None)"

definition responsePublish ::
  "config \<Rightarrow> 'w connector \<Rightarrow> string \<Rightarrow> string \<Rightarrow> string \<Rightarrow> string \<Rightarrow> int \<Rightarrow> nat \<Rightarrow>
   ('w, result \<times> goerror option) io" where
  "responsePublish cfg cn clientId user topic payload qos sz =
     (if \<not> hasPrefix topic ''response'' then ret (Unhandled, None)
      else (case ParseTopic topic of
        Inl e \<Rightarrow> ret (Rejected, Some e)
      | Inr (TopicParts pre ow deviceUri serviceUri) \<Rightarrow>
          (if ForceTopicsWithOwner cfg \<and> ow = [] then ret (Rejected, Some expectOwnerErr)
           else if pre \<noteq> ''response'' then ret (Unhandled, None)
           else do {
             t \<leftarrow> callToken cn user;
             case t of
               Inl e \<Rightarrow> ret (Error, Some e)
             | Inr token \<Rightarrow>
                 (case checkOwner cn token ow of
                    Some x \<Rightarrow> ret x
                  | None \<Rightarrow> do {
                      hubErr \<leftarrow> (if CheckHub cfg then checkHub cn token clientId deviceUri else ret None);
                      case hubErr of
                        Some e \<Rightarrow> ret (Error, Some e)
                      | None \<Rightarrow>
                          (if MqttPublishAuthOnly cfg then ret (Accepted, None)
                           else (case decodeResponse cn payload of
                             Inl e \<Rightarrow> ret (Error, Some e)
                           | Inr msg \<Rightarrow> do {
                               g \<leftarrow> perform (correlationGet cn (reCorrelationId msg)) (CCorrelationGet (reCorrelationId msg));
                               case g of
                                 Inl e \<Rightarrow> ret (Accepted, None)
                               | Inr request \<Rightarrow>
                                   (let request' = request\<lparr>pmTrace := pmTrace request @ reTrace msg\<rparr>
                                    in do {
                                      err \<leftarrow> perform (handleCommandResponse cn request' (rePayload msg) qos)
                                               (CCommandResponse request' (rePayload msg) qos);
                                      case err of
                                        Some e \<Rightarrow> ret (Error, Some e)
                                      | None \<Rightarrow> ret (Accepted, None)
                                    })
                             }))
                    })
           })))"

definition responseHandler :: "config \<Rightarrow> 'w connector \<Rightarrow> 'w handler" where
  "responseHandler cfg cn = \<lparr>hSubscribe = responseSubscribe, hPublish = responsePublish cfg cn\<rparr>"

interpretation responseH: prefix_handler "responseHandler cfg cn" "''response''"
  for cfg and cn :: "'w connector"
proof (intro prefix_handler.intro topic_handlerI prefix_handler_axioms.intro)
  show "yields publishOk (hPublish (responseHandler cfg cn) c u t p q z)"
    and "quiet (hPublish (responseHandler cfg cn) c u t p q z)" for c u t p q z
    unfolding responseHandler_def responsePublish_def handler.simps case_topicParts
    by (intro yields_intros quiet_intros; simp add: checkOwner_ok)+
  show "yields subscribeOk (hSubscribe (responseHandler cfg cn) c u t)"
    and "quiet (hSubscribe (responseHandler cfg cn) c u t)" for c u t
    unfolding responseHandler_def responseSubscribe_def handler.simps
    by (intro yields_intros quiet_intros; simp)+
qed (simp_all add: responseHandler_def responseSubscribe_def responsePublish_def)

text \<open>
  A response is forwarded at most once per message, with the traces of the request and the answer
  merged in that order, and only for the owner the topic names.
\<close>

lemma responsePublish_forwards:
  assumes "run_state (responsePublish cfg cn c u t p q z) s = (x, s')"
    and "CCommandResponse rq pl q' err \<in> set (newCalls s s')"
  obtains ow d sv token msg request where "ParseTopic t = Inr (TopicParts ''response'' ow d sv)"
    "ForceTopicsWithOwner cfg \<longrightarrow> ow \<noteq> []" "\<not> MqttPublishAuthOnly cfg"
    "CToken u (Inr token) \<in> set (newCalls s s')" "ownerAllowed cn token ow"
    "decodeResponse cn p = Inr msg"
    "CCorrelationGet (reCorrelationId msg) (Inr request) \<in> set (newCalls s s')"
    "rq = request\<lparr>pmTrace := pmTrace request @ reTrace msg\<rparr>" "pl = rePayload msg" "q' = q"
  using assms
  by (auto simp: responsePublish_def checkHub_def io_simps newCalls_def checkOwner_None Let_def
      split: if_splits sum.splits topicParts.splits prod.splits option.splits)

text \<open>An answer without a stored request is dropped without an error.\<close>

lemma responsePublish_stale:
  assumes "run_state (responsePublish cfg cn c u t p q z) s = ((r, e), s')"
    and "CCorrelationGet cid (Inl err) \<in> set (newCalls s s')"
  shows "r = Accepted \<and> e = None \<and> (\<forall>rq pl q' x. CCommandResponse rq pl q' x \<notin> set (newCalls s s'))"
  using assms
  by (auto simp: responsePublish_def checkHub_def io_simps newCalls_def Let_def
      split: if_splits sum.splits topicParts.splits prod.splits option.splits)

end
