(* ===== verification/ErrorMessageHandler.thy ===== *)
theory ErrorMessageHandler
  imports OwnerTopics
begin

text \<open>
  \<open>lib/handler/errormessage/handler.go\<close>: error messages of clients, devices and commands are counted
  and handed to the platform, which notifies the user.
\<close>

definition unknownErrorTopicErr :: goerror where
  "unknownErrorTopicErr = errorsNew ''unknown error topic''"

definition expectOwnerInTopicErr :: goerror where
  "expectOwnerInTopicErr = errorsNew ''expect owner in topic''"

definition handleGeneralError :: "'w connector \<Rightarrow> string \<Rightarrow> string \<Rightarrow> string \<Rightarrow> ('w, unit) io" where
  "handleGeneralError cn user clientId payload = do {
     r \<leftarrow> callUserId cn user;
     case r of
       Inl e \<Rightarrow> ret ()
     | Inr userId \<Rightarrow> callClientError cn userId clientId payload
   }"

definition handleDeviceErr :: "'w connector \<Rightarrow> string \<Rightarrow> string \<Rightarrow> string \<Rightarrow> string \<Rightarrow> ('w, unit) io" where
  "handleDeviceErr cn token userId deviceId payload = do {
     d \<leftarrow> callDevice cn token deviceId;
     case d of
       Inl e \<Rightarrow> ret ()
     | Inr dev \<Rightarrow> perform (handleDeviceError cn userId dev payload) (\<lambda>_. CDeviceError userId dev payload)
   }"

definition handleCommandError :: "'w connector \<Rightarrow> string \<Rightarrow> string \<Rightarrow> string \<Rightarrow> ('w, unit) io" where
  "handleCommandError cn userId correlationId payload = do {
     g \<leftarrow> perform (correlationGet cn correlationId) (CCorrelationGet correlationId);
     case g of
       Inl e \<Rightarrow> ret ()
     | Inr pm \<Rightarrow> perform (handleCommandErr cn userId pm payload) (\<lambda>_. CCommandError userId pm payload)
   }"

definition errorSubscribe ::
  "string \<Rightarrow> string \<Rightarrow> string \<Rightarrow> ('w, result \<times> goerror option) io" where
  "errorSubscribe clientId user topic = ret (Unhandled, None)"

text \<open>
  From the token on: \<open>parts\<close> are the levels of the topic.
\<close>

definition errorDispatch ::
  "config \<Rightarrow> 'w connector \<Rightarrow> string \<Rightarrow> string \<Rightarrow> string list \<Rightarrow> string \<Rightarrow>
   ('w, result \<times> goerror option) io" where
  "errorDispatch cfg cn clientId token parts payload =
     (let n = length parts in case jwtParse cn token of
        Inl e \<Rightarrow> ret (Error, Some e)
      | Inr parsed \<Rightarrow>
          (let userId = jwtUserId parsed
           in if 4 \<le> n \<and> userId \<noteq> parts ! 2 then ret (Rejected, Some ownerMismatchErr)
              else if n = 1 then do {
                _ \<leftarrow> handleGeneralError cn userId clientId payload;
                ret (Accepted, None)
              }
              else if n = 3 \<and> parts ! 1 = ''device'' then
                (if ForceTopicsWithOwner cfg then ret (Rejected, Some expectOwnerInTopicErr)
                 else do {
                   _ \<leftarrow> handleDeviceErr cn token userId (parts ! 2) payload;
                   ret (Accepted, None)
                 })
              else if n = 3 \<and> parts ! 1 = ''command'' then
                (if ForceTopicsWithOwner cfg then ret (Rejected, Some expectOwnerInTopicErr)
                 else do {
                   _ \<leftarrow> handleCommandError cn userId (parts ! 2) payload;
                   ret (Accepted, None)
                 })
              else if n = 4 \<and> parts ! 1 = ''device'' then do {
                _ \<leftarrow> handleDeviceErr cn token userId (parts ! 3) payload;
                ret (Accepted, None)
              }
              else if n = 4 \<and> parts ! 1 = ''command'' then do {
                _ \<leftarrow> handleCommandError cn userId (parts ! 3) payload;
                ret (Accepted, None)
              }
              else ret (Rejected, Some unknownErrorTopicErr)))"

text \<open>
  A token that cannot be fetched makes the handler return its named results as they are then:
  \<open>Unhandled\<close> with the error.
\<close>

definition errorPublish ::
  "config \<Rightarrow> 'w connector \<Rightarrow> string \<Rightarrow> string \<Rightarrow> string \<Rightarrow> string \<Rightarrow> int \<Rightarrow> nat \<Rightarrow>
   ('w, result \<times> goerror option) io" where
  "errorPublish cfg cn clientId user topic payload qos sz =
     (if \<not> hasPrefix topic ''error'' then ret (Unhandled, None)
      else let parts = splitOn CHR ''/'' topic
        in if parts ! 0 \<noteq> ''error'' then ret (Unhandled, None)
           else do {
             _ \<leftarrow> perform (errorMetricInc cn) (\<lambda>_. CErrorMetric);
             t \<leftarrow> callToken cn user;
             case t of
               Inl e \<Rightarrow> ret (Unhandled, Some e)
             | Inr token \<Rightarrow> errorDispatch cfg cn clientId token parts payload
           })"

definition errorHandler :: "config \<Rightarrow> 'w connector \<Rightarrow> 'w handler" where
  "errorHandler cfg cn = \<lparr>hSubscribe = errorSubscribe, hPublish = errorPublish cfg cn\<rparr>"

lemma quiet_errorActions [quiet_intros]:
  "quiet (handleGeneralError cn u c p)" "quiet (handleDeviceErr cn tok u d p)"
  "quiet (handleCommandError cn u i p)"
  unfolding handleGeneralError_def handleDeviceErr_def handleCommandError_def by (intro quiet_intros)+

interpretation errorH: prefix_handler "errorHandler cfg cn" "''error''"
  for cfg and cn :: "'w connector"
proof (intro prefix_handler.intro topic_handlerI prefix_handler_axioms.intro)
  show "yields publishOk (hPublish (errorHandler cfg cn) c u t p q z)"
    and "quiet (hPublish (errorHandler cfg cn) c u t p q z)" for c u t p q z
    unfolding errorHandler_def errorPublish_def errorDispatch_def handler.simps
    by (intro yields_intros quiet_intros; simp)+
  show "yields subscribeOk (hSubscribe (errorHandler cfg cn) c u t)"
    and "quiet (hSubscribe (errorHandler cfg cn) c u t)" for c u t
    unfolding errorHandler_def errorSubscribe_def handler.simps
    by (intro yields_intros quiet_intros; simp)+
qed (simp_all add: errorHandler_def errorSubscribe_def errorPublish_def)

end
