(* ===== verification/GoUrl.thy ===== *)
theory GoUrl
  imports GoJson
begin

text \<open>
  \<open>url.PathEscape\<close> and \<open>url.QueryEscape\<close>: percent encoding of every byte that is not allowed in a
  path segment or a query component. Shown here: an escaped query component holds no delimiter of
  a query, and escaping loses nothing.
\<close>

definition isAlnum :: "char \<Rightarrow> bool" where
  "isAlnum c \<longleftrightarrow> inRange 0x30 0x39 c \<or> inRange 0x41 0x5A c \<or> inRange 0x61 0x7A c"

definition isUnreserved :: "char \<Rightarrow> bool" where
  "isUnreserved c \<longleftrightarrow> isAlnum c \<or> c \<in> set ''-_.~''"

definition upperHex :: "nat \<Rightarrow> char" where
  "upperHex n = (''0123456789ABCDEF'' ! n)"

definition percentByte :: "char \<Rightarrow> string" where
  "percentByte c = [CHR ''%'', upperHex (byte c div 16), upperHex (byte c mod 16)]"

definition pathEscape :: "string \<Rightarrow> string" where
  "pathEscape s = concat (map (\<lambda>c.
     if isUnreserved c \<or> c \<in> set ''$&+=:@'' then [c] else percentByte c) s)"

definition queryEscapeByte :: "char \<Rightarrow> string" where
  "queryEscapeByte c =
     (if c = CHR '' '' then ''+'' else if isUnreserved c then [c] else percentByte c)"

definition queryEscape :: "string \<Rightarrow> string" where
  "queryEscape s = concat (map queryEscapeByte s)"

definition querySafe :: "char \<Rightarrow> bool" where
  "querySafe c \<longleftrightarrow> isUnreserved c \<or> c = CHR ''+'' \<or> c = CHR ''%''"

lemma upperHex_alnum: "n < 16 \<Longrightarrow> isAlnum (upperHex n)"
proof -
  assume "n < 16"
  then have "n \<in> set [0..<16]" by simp
  moreover have "\<forall>m \<in> set [0..<16]. isAlnum (upperHex m)" by code_simp
  ultimately show ?thesis by blast
qed

lemma queryEscapeByte_safe: "list_all querySafe (queryEscapeByte c)"
proof -
  have "byte c div 16 < 16" by (simp add: less_mult_imp_div_less)
  then show ?thesis
    by (simp add: queryEscapeByte_def percentByte_def querySafe_def isUnreserved_def upperHex_alnum)
qed

lemma queryEscape_safe: "c \<in> set (queryEscape s) \<Longrightarrow> querySafe c"
  using queryEscapeByte_safe by (auto simp: queryEscape_def list_all_iff)

text \<open>Unescaping, as the receiving server does it, is a left inverse.\<close>

definition unhex :: "char \<Rightarrow> nat option" where
  "unhex c = (if inRange 0x30 0x39 c then Some (byte c - 0x30)
     else if inRange 0x41 0x46 c then Some (byte c - 0x37)
     else if inRange 0x61 0x66 c then Some (byte c - 0x57) else None)"

fun queryUnescape :: "string \<Rightarrow> string option" where
  "queryUnescape [] = Some []"
| "queryUnescape (c # s) =
     (if c = CHR ''%'' then
        (case s of a # b # t \<Rightarrow>
           (case (unhex a, unhex b) of
              (Some x, Some y) \<Rightarrow> map_option ((#) (char_of (x * 16 + y))) (queryUnescape t)
            | _ \<Rightarrow> None)
         | _ \<Rightarrow> None)
      else if c = CHR ''+'' then map_option ((#) CHR '' '') (queryUnescape s)
      else map_option ((#) c) (queryUnescape s))"

lemma unhex_upperHex: "n < 16 \<Longrightarrow> unhex (upperHex n) = Some n"
proof -
  assume "n < 16"
  then have "n \<in> set [0..<16]" by simp
  moreover have "\<forall>m \<in> set [0..<16]. unhex (upperHex m) = Some m" by code_simp
  ultimately show ?thesis by blast
qed

lemma queryUnescape_byte:
  "queryUnescape (queryEscapeByte c @ t) = map_option ((#) c) (queryUnescape t)"
proof (cases "c = CHR '' '' \<or> isUnreserved c")
  case True
  have "\<not> isUnreserved CHR ''%''" "\<not> isUnreserved CHR ''+''" by code_simp+
  with True show ?thesis by (auto simp: queryEscapeByte_def)
next
  case False
  have "unhex (upperHex (byte c div 16)) = Some (byte c div 16)"
    using unhex_upperHex [of "byte c div 16"] by (simp add: less_mult_imp_div_less)
  moreover have "unhex (upperHex (byte c mod 16)) = Some (byte c mod 16)"
    by (intro unhex_upperHex) simp
  moreover have "byte c div 16 * 16 + byte c mod 16 = byte c" by simp
  ultimately show ?thesis using False by (simp add: queryEscapeByte_def percentByte_def)
qed

lemma queryUnescape_queryEscape: "queryUnescape (queryEscape s) = Some s"
  by (induction s) (simp_all add: queryEscape_def queryUnescape_byte)

end
