(* ===== verification/GoTime.thy ===== *)
theory GoTime
  imports GoStrings "HOL-Library.List_Lexorder" "HOL-Library.Char_ord"
begin

text \<open>
  \<open>time.Time.Format\<close> for the two layouts the connector uses, on UTC times. A time is the number of
  nanoseconds since Go's zero time, 1 January of year 1; the calendar is \<open>absDate\<close> of package \<open>time\<close>.
\<close>

definition padNum :: "nat \<Rightarrow> nat \<Rightarrow> string" where
  "padNum w n = map (\<lambda>i. char_of (48 + n div 10 ^ i mod 10)) (rev [0..<w])"

definition isLeap :: "nat \<Rightarrow> bool" where
  "isLeap y \<longleftrightarrow> y mod 4 = 0 \<and> (y mod 100 \<noteq> 0 \<or> y mod 400 = 0)"

text \<open>Cycles of 400, 100, 4 and 1 years, as in \<open>absDate\<close>: the year and the day of the year.\<close>

definition yearDay :: "nat \<Rightarrow> nat \<times> nat" where
  "yearDay d0 =
     (let n400 = d0 div 146097; d1 = d0 mod 146097;
          n100 = d1 div 36524 - d1 div 36524 div 4; d2 = d1 - 36524 * n100;
          n4 = d2 div 1461; d3 = d2 mod 1461;
          n1 = d3 div 365 - d3 div 365 div 4; d4 = d3 - 365 * n1
      in (400 * n400 + 100 * n100 + 4 * n4 + n1 + 1, d4))"

definition daysBefore :: "nat list" where
  "daysBefore = [0, 31, 59, 90, 120, 151, 181, 212, 243, 273, 304, 334]"

text \<open>Month and day of the month: 29 February apart, the last month that starts by that day.\<close>

definition monthDay :: "bool \<Rightarrow> nat \<Rightarrow> nat \<times> nat" where
  "monthDay leap yd =
     (if leap \<and> yd = 59 then (2, 29)
      else let d = (if leap \<and> 59 < yd then yd - 1 else yd);
               m = length (filter (\<lambda>b. b \<le> d) daysBefore)
           in (m, d - daysBefore ! (m - 1) + 1))"

definition nanosPerSecond :: nat where
  "nanosPerSecond = 1000000000"

definition dateText :: "nat \<Rightarrow> string" where
  "dateText sec =
     (let days = sec div 86400; s = sec mod 86400;
          (y, yd) = yearDay days; (m, d) = monthDay (isLeap y) yd
      in padNum 4 y @ ''-'' @ padNum 2 m @ ''-'' @ padNum 2 d @ ''T'' @
         padNum 2 (s div 3600) @ '':'' @ padNum 2 (s div 60 mod 60) @ '':'' @ padNum 2 (s mod 60))"

text \<open>\<open>time.RFC3339\<close> and \<open>health.TimeFormat\<close>, the latter with nine digits of fraction.\<close>

definition formatRFC3339 :: "int \<Rightarrow> string" where
  "formatRFC3339 t = dateText (nat t div nanosPerSecond) @ ''Z''"

definition formatTimeFixed :: "int \<Rightarrow> string" where
  "formatTimeFixed t =
     dateText (nat t div nanosPerSecond) @ ''.'' @ padNum 9 (nat t mod nanosPerSecond) @ ''Z''"

section \<open>Durations\<close>

text \<open>
  \<open>time.ParseDuration\<close>: a sign, then a sequence of decimal numbers with a unit. An error is its text.
  The fraction of a number is added with exact integer arithmetic where Go multiplies floats.
\<close>

definition durQuote :: "string \<Rightarrow> string" where
  "durQuote s = CHR 0x22 # concat (map (\<lambda>c.
     if 0x80 \<le> (of_char c :: nat) \<or> (of_char c :: nat) < 0x20
       then [CHR 0x5C, CHR ''x'', ''0123456789abcdef'' ! ((of_char c :: nat) div 16), ''0123456789abcdef'' ! ((of_char c :: nat) mod 16)]
     else if c = CHR 0x22 \<or> c = CHR 0x5C then [CHR 0x5C, c] else [c]) s) @ [CHR 0x22]"

definition durDigit :: "char \<Rightarrow> bool" where
  "durDigit c \<longleftrightarrow> 48 \<le> (of_char c :: nat) \<and> (of_char c :: nat) \<le> 57"

definition durUnit :: "string \<Rightarrow> nat option" where
  "durUnit = map_of
     [(''ns'', 1), (''us'', 1000), ([CHR 0xC2, CHR 0xB5, CHR ''s''], 1000), ([CHR 0xCE, CHR 0xBC, CHR ''s''], 1000),
      (''ms'', 1000000), (''s'', 1000000000), (''m'', 60000000000), (''h'', 3600000000000)]"

fun leadingInt :: "nat \<Rightarrow> string \<Rightarrow> (nat \<times> string) option" where
  "leadingInt x [] = Some (x, [])"
| "leadingInt x (c # s) =
     (if \<not> durDigit c then Some (x, c # s)
      else if 2 ^ 63 div 10 < x \<or> 2 ^ 63 < x * 10 + ((of_char c :: nat) - 48) then None
      else leadingInt (x * 10 + ((of_char c :: nat) - 48)) s)"

text \<open>The digits of a fraction and its scale; digits past the range of an \<open>int64\<close> are dropped.\<close>

fun leadingFraction :: "bool \<Rightarrow> nat \<Rightarrow> nat \<Rightarrow> string \<Rightarrow> nat \<times> nat \<times> string" where
  "leadingFraction ovf x sc [] = (x, sc, [])"
| "leadingFraction ovf x sc (c # s) =
     (if \<not> durDigit c then (x, sc, c # s)
      else if ovf \<or> (2 ^ 63 - 1) div 10 < x \<or> 2 ^ 63 < x * 10 + ((of_char c :: nat) - 48) then leadingFraction True x sc s
      else leadingFraction False (x * 10 + ((of_char c :: nat) - 48)) (sc * 10) s)"

lemma leadingInt_length: "leadingInt x s = Some (v, r) \<Longrightarrow> length r \<le> length s"
  by (induction x s rule: leadingInt.induct) (auto split: if_splits)

lemma leadingFraction_length: "leadingFraction ovf x sc s = (v, sc', r) \<Longrightarrow> length r \<le> length s"
  by (induction ovf x sc s rule: leadingFraction.induct) (auto split: if_splits)

text \<open>One number with its unit: the nanoseconds and the rest.\<close>

definition durItem :: "string \<Rightarrow> string \<Rightarrow> string + (nat \<times> string)" where
  "durItem orig s =
     (let bad = ''time: invalid duration '' @ durQuote orig
      in if s = [] \<or> \<not> (hd s = CHR ''.'' \<or> durDigit (hd s)) then Inl bad
         else (case leadingInt 0 s of
           None \<Rightarrow> Inl bad
         | Some (v, s1) \<Rightarrow>
             (let (f, sc, s2) = (if take 1 s1 = ''.'' then leadingFraction False 0 1 (drop 1 s1) else (0, 1, s1));
                  pre = (length s1 \<noteq> length s);
                  post = (take 1 s1 = ''.'' \<and> length s2 \<noteq> length s1 - 1);
                  u = takeWhile (\<lambda>c. \<not> (c = CHR ''.'' \<or> durDigit c)) s2;
                  s3 = dropWhile (\<lambda>c. \<not> (c = CHR ''.'' \<or> durDigit c)) s2
              in if \<not> pre \<and> \<not> post then Inl bad
                 else if u = [] then Inl (''time: missing unit in duration '' @ durQuote orig)
                 else (case durUnit u of
                   None \<Rightarrow> Inl (''time: unknown unit '' @ durQuote u @ '' in duration '' @ durQuote orig)
                 | Some unit \<Rightarrow>
                     (if 2 ^ 63 div unit < v then Inl bad
                      else let v' = v * unit + f * unit div sc
                           in if 2 ^ 63 < v' then Inl bad else Inr (v', s3))))))"

fun durLoop :: "nat \<Rightarrow> string \<Rightarrow> nat \<Rightarrow> string \<Rightarrow> string + nat" where
  "durLoop 0 orig d s = Inl []"
| "durLoop (Suc n) orig d s =
     (if s = [] then Inr d
      else (case durItem orig s of
        Inl e \<Rightarrow> Inl e
      | Inr (v, r) \<Rightarrow>
          (if 2 ^ 63 < d + v then Inl (''time: invalid duration '' @ durQuote orig)
           else durLoop n orig (d + v) r)))"

definition parseDuration :: "string \<Rightarrow> string + int" where
  "parseDuration orig =
     (let neg = (take 1 orig = ''-'');
          s = (if take 1 orig = ''-'' \<or> take 1 orig = ''+'' then drop 1 orig else orig);
          bad = ''time: invalid duration '' @ durQuote orig
      in if s = ''0'' then Inr 0
         else if s = [] then Inl bad
         else (case durLoop (length s + 1) orig 0 s of
           Inl e \<Rightarrow> Inl e
         | Inr d \<Rightarrow>
             (if neg then Inr (- int d)
              else if 2 ^ 63 - 1 < d then Inl bad
              else Inr (int d))))"

text \<open>The fuel is one per byte: every item takes at least its unit from the text.\<close>

lemma durItem_length: "durItem orig s = Inr (v, r) \<Longrightarrow> length r < length s"
proof -
  let ?P = "\<lambda>c. \<not> (c = CHR ''.'' \<or> durDigit c)"
  assume a: "durItem orig s = Inr (v, r)"
  then obtain v0 s1 where i: "leadingInt 0 s = Some (v0, s1)" and ne: "s \<noteq> []"
    by (auto simp: durItem_def Let_def split: if_splits option.splits)
  define q where "q = (if take 1 s1 = ''.'' then leadingFraction False 0 1 (drop 1 s1) else (0, 1, s1))"
  obtain f sc s2 where q: "q = (f, sc, s2)" by (metis surj_pair)
  have "length s2 \<le> length s1"
    using q leadingFraction_length [of False 0 1 "drop 1 s1" f sc s2]
    by (auto simp: q_def split: if_splits)
  moreover have "length s1 \<le> length s" using leadingInt_length [OF i] .
  moreover have "r = dropWhile ?P s2 \<and> takeWhile ?P s2 \<noteq> []"
    using a i ne q unfolding durItem_def q_def by (simp add: Let_def split: if_splits option.splits)
  moreover have "takeWhile ?P s2 @ dropWhile ?P s2 = s2" by simp
  then have "length (takeWhile ?P s2) + length (dropWhile ?P s2) = length s2"
    by (metis length_append)
  ultimately show ?thesis by (cases "takeWhile ?P s2") auto
qed

lemma durLoop_enough:
  "length s < n \<Longrightarrow> length s < m \<Longrightarrow> durLoop n orig d s = durLoop m orig d s"
proof (induction n arbitrary: m d s)
  case (Suc n)
  then obtain k where m: "m = Suc k" by (cases m) auto
  show ?case
  proof (cases "s = []")
    case False
    show ?thesis
    proof (cases "durItem orig s")
      case (Inr p)
      obtain v r where p: "p = (v, r)" by (cases p)
      then have "length r < length s" using durItem_length Inr by blast
      then have "durLoop n orig (d + v) r = durLoop k orig (d + v) r"
        using Suc.prems m by (intro Suc.IH) auto
      then show ?thesis using Inr p m by simp
    qed (simp add: m)
  qed (simp add: m)
qed simp

end
