(* ===== verification/Wmbus.thy ===== *)
theory Wmbus
  imports HandlerCore GoUrl GoTime "HOL-Library.AList"
begin

text \<open>
  \<open>lib/handler/event/nimbus.go\<close> and \<open>lib/handler/event/waiting_room.go\<close>: wireless M-Bus telegrams
  that a nimbus device receives. The telegram is decoded by the program wmbusmeters, the device type
  is kept up to date, unknown devices are put in the waiting room, keys are tried, and the decoded
  telegram is sent as an event of the metering device.
\<close>

section \<open>Pieces of the waiting room\<close>

datatype waitingRoom = WaitingRoom (waitingRoomUrl: string) | TestWaitingRoom

definition NewWaitingRoom :: "string \<Rightarrow> waitingRoom" where
  "NewWaitingRoom url = WaitingRoom url"

definition emptyDevice :: device where
  "emptyDevice = \<lparr>devId = [], devLocalId = [], devName = [], devAttributes = [], devTypeId = []\<rparr>"

definition emptyStub :: deviceStub where
  "emptyStub = \<lparr>stDevice = emptyDevice, stUserId = None, stHidden = False, stCreatedAt = None,
     stLastUpdate = None\<rparr>"

definition stubResult :: "deviceStub \<times> goerror option \<Rightarrow> goerror + deviceStub" where
  "stubResult r = (case snd r of Some e \<Rightarrow> Inl e | None \<Rightarrow> Inr (fst r))"

text \<open>The caller drops the stub that comes with an error.\<close>

definition EnsureWaitingRoom ::
  "'w connector \<Rightarrow> waitingRoom \<Rightarrow> string \<Rightarrow> deviceStub \<Rightarrow> ('w, goerror + deviceStub) io" where
  "EnsureWaitingRoom cn this token stub = (case this of
     TestWaitingRoom \<Rightarrow> ret (Inr stub)
   | WaitingRoom base \<Rightarrow> do {
       let url = base @ ''/devices/'' @ devLocalId (stDevice stub);
       h \<leftarrow> perform (httpHead cn url token) (CHead url token);
       case h of
         Inl e \<Rightarrow> ret (Inl e)
       | Inr status \<Rightarrow>
           (if status = 200 then ret (Inr emptyStub)
            else do {
              r \<leftarrow> perform (putStub cn url token stub) (CPutStub url token stub);
              ret (stubResult r)
            })
     })"

section \<open>The local id of a metering device\<close>

definition isHex :: "char \<Rightarrow> bool" where
  "isHex c \<longleftrightarrow> inRange 0x30 0x39 c \<or> inRange 0x41 0x46 c \<or> inRange 0x61 0x66 c"

text \<open>The group of the first match of \<open>0x([0-9a-fA-F]+)\<close>.\<close>

fun hexRex :: "string \<Rightarrow> string option" where
  "hexRex [] = None"
| "hexRex (c # s) =
     (if c = CHR ''0'' \<and> take 1 s = ''x'' \<and> takeWhile isHex (drop 1 s) \<noteq> []
      then Some (takeWhile isHex (drop 1 s)) else hexRex s)"

definition localDeviceId :: "encryptedMsg \<Rightarrow> goerror + string" where
  "localDeviceId msg =
     (case hexRex (emManufacturer msg) of
        None \<Rightarrow> Inl (errorsNew ''invalid manufacturer data'')
      | Some p1 \<Rightarrow>
          (let m = (if length p1 mod 2 \<noteq> 0 then CHR ''0'' # p1 else p1) in
           case hexRex (emVersion msg) of
             None \<Rightarrow> Inl (errorsNew ''invalid version data'')
           | Some v \<Rightarrow>
               (case hexRex (emType msg) of
                  None \<Rightarrow> Inl (errorsNew ''invalid type data'')
                | Some t \<Rightarrow> Inr (''wmbus_'' @ m @ ''_'' @ v @ ''_'' @ t @ ''_'' @ emMeterId msg))))"

section \<open>Attributes and drivers\<close>

definition wmbusDriverAttribute :: string where "wmbusDriverAttribute = ''wmbus/driver''"
definition wmbusKeyOkAttribute :: string where "wmbusKeyOkAttribute = ''wmbus/key-ok''"
definition connectorOrigin :: string where "connectorOrigin = ''senergy-platform-connector''"
definition defaultAttributeOrigin :: string where "defaultAttributeOrigin = ''default''"

definition forcedDriver :: "attribute list \<Rightarrow> string option" where
  "forcedDriver attrs = map_option attrValue
     (find (\<lambda>a. attrKey a = wmbusDriverAttribute \<and> 0 < length (attrValue a)) attrs)"

definition wmbusDriver :: "device \<Rightarrow> deviceType \<Rightarrow> string" where
  "wmbusDriver d t =
     (case forcedDriver (devAttributes d) of
        Some v \<Rightarrow> v
      | None \<Rightarrow> (case forcedDriver (dtAttributes t) of Some v \<Rightarrow> v | None \<Rightarrow> []))"

definition keepUnmanagedAttributes :: "attribute list \<Rightarrow> attribute list \<Rightarrow> attribute list" where
  "keepUnmanagedAttributes existing generated =
     generated @ filter (\<lambda>a. \<not> (\<exists>g \<in> set generated. attrKey g = attrKey a)) existing"

definition isLegacyKeyOk :: "attribute \<Rightarrow> bool" where
  "isLegacyKeyOk a \<longleftrightarrow> attrKey a = wmbusKeyOkAttribute \<and> attrOrigin a \<noteq> connectorOrigin \<and>
     attrOrigin a \<noteq> defaultAttributeOrigin"

text \<open>
  The comparison of two device types. Where it comes to compare content variables it sorts the lists
  of both in place, so the sorted device types are part of the answer. Variables of the same name, whose
  order after \<open>slices.SortFunc\<close> is not determined, stay in their order here.
\<close>

definition firstCVs :: "deviceType \<Rightarrow> contentVar list" where
  "firstCVs t = hd (svOutputs (hd (dtServices t)))"

definition withFirstCVs :: "contentVar list \<Rightarrow> deviceType \<Rightarrow> deviceType" where
  "withFirstCVs cvs t = t\<lparr>dtServices := (hd (dtServices t))\<lparr>svOutputs :=
     cvs # tl (svOutputs (hd (dtServices t)))\<rparr> # tl (dtServices t)\<rparr>"

definition sortCVs :: "contentVar list \<Rightarrow> contentVar list" where
  "sortCVs cvs = sort_key cvName cvs"

definition wmbusDeviceTypeNeedsUpdate ::
  "deviceType \<Rightarrow> deviceType \<Rightarrow> bool \<times> deviceType \<times> deviceType" where
  "wmbusDeviceTypeNeedsUpdate existing new =
     (if length (dtServices existing) \<noteq> length (dtServices new) then (True, existing, new)
      else if length (dtServices existing) = 0 then (False, existing, new)
      else
        let eo = svOutputs (hd (dtServices existing)); no = svOutputs (hd (dtServices new)) in
        if length eo < length no then (True, existing, new)
        else if length no < length eo then (False, existing, new)
        else if length eo = 0 then (False, existing, new)
        else
          let ec = firstCVs existing; nc = firstCVs new in
          if length nc < length ec then (False, existing, new)
          else if length ec < length nc then (True, existing, new)
          else
            let es = sortCVs ec; ns = sortCVs nc in
            (\<not> list_all2 (\<lambda>a b. cvName a = cvName b \<and> cvType a = cvType b) es ns,
             withFirstCVs es existing, withFirstCVs ns new))"

section \<open>Decoding a telegram\<close>

definition isAlnumByte :: "char \<Rightarrow> bool" where
  "isAlnumByte c \<longleftrightarrow> isAlnum c"

definition sanitizeTelegram :: "string \<Rightarrow> string" where
  "sanitizeTelegram t = toLower (filter isAlnumByte t)"

definition sanitizeDriver :: "string \<Rightarrow> string" where
  "sanitizeDriver d = filter (\<lambda>c. isAlnumByte c \<or> c = CHR ''_'') d"

definition sanitizeKey :: "string \<Rightarrow> string" where
  "sanitizeKey k = filter isAlnumByte k"

lemma block_rest_length: "length (tl (dropWhile P xs)) \<le> length xs"
  using length_dropWhile_le [of P xs] by simp

text \<open>
  The matches of \<open>(?ms)^\{$.*?^\}$\<close>: a line that is an opening brace, up to and with the next line
  that is a closing one; the search goes on after it.
\<close>

function jsonBlocks :: "string list \<Rightarrow> string list" where
  "jsonBlocks [] = []"
| "jsonBlocks (l # ls) =
     (if l = ''{'' \<and> ''}'' \<in> set ls then
        joinWith CHR 0x0A (l # takeWhile (\<lambda>x. x \<noteq> ''}'') ls @ [''}'']) #
        jsonBlocks (tl (dropWhile (\<lambda>x. x \<noteq> ''}'') ls))
      else jsonBlocks ls)"
  by pat_completeness auto

termination
  by (relation "measure length")
    (use block_rest_length in \<open>auto simp: less_Suc_eq_le simp del: length_tl\<close>)

declare jsonBlocks.simps(2) [simp del]

definition findBlocks :: "string \<Rightarrow> string list" where
  "findBlocks out = jsonBlocks (splitOn CHR 0x0A out)"

text \<open>
  \<open>json.Unmarshal\<close> into a \<open>map[string]any\<close> and \<open>json.Marshal\<close> of it: a number is a float64, of a
  repeated member the last one counts, and members are written in the order of their names.
\<close>

definition sortMembers :: "(string \<times> json) list \<Rightarrow> (string \<times> json) list" where
  "sortMembers ms = sort_key fst (AList.clearjunk (rev ms))"

fun decodeAny :: "(string \<Rightarrow> string option) \<Rightarrow> json \<Rightarrow> json option" where
  "decodeAny f (JNum n) = map_option JNum (f n)"
| "decodeAny f (JArr vs) = map_option JArr (those (map (decodeAny f) vs))"
| "decodeAny f (JObj ms) =
     map_option (\<lambda>ms. JObj (sortMembers ms)) (those (map (\<lambda>(k, v). map_option (Pair k) (decodeAny f v)) ms))"
| "decodeAny f v = Some v"

definition decodeAnyMap :: "(string \<Rightarrow> string option) \<Rightarrow> json \<Rightarrow> json option" where
  "decodeAnyMap f v = (case v of JObj ms \<Rightarrow> decodeAny f v | JNull \<Rightarrow> Some JNull | _ \<Rightarrow> None)"

definition errorEncrypted :: goerror where
  "errorEncrypted = GoError ''encrypted content'' [ErrorEncrypted]"

definition errorWrongKey :: goerror where
  "errorWrongKey = GoError ''decryption failed'' [ErrorWrongKey]"

definition analyzeArg :: "string \<Rightarrow> string option \<Rightarrow> string" where
  "analyzeArg driver key =
     (let d = sanitizeDriver driver in
      ''--analyze'' @ (if 0 < length d \<or> key \<noteq> None then ''='' else []) @ d @
      (case key of None \<Rightarrow> []
       | Some k \<Rightarrow> (if 0 < length d then '':'' else []) @ sanitizeKey k))"

text \<open>What the output of wmbusmeters means.\<close>

definition decodeOutput ::
  "'w connector \<Rightarrow> string \<Rightarrow> bool \<Rightarrow> string \<times> goerror option \<Rightarrow> goerror + json" where
  "decodeOutput cn driver withKey res =
     (let out = fst res in
      if containsStr out ''No such driver '' then
        Inl (GoError (''unknown wmbusmeters driver: '' @ sanitizeDriver driver) [ErrorUnknownDriver])
      else case snd res of
        Some e \<Rightarrow> Inl e
      | None \<Rightarrow>
          (if \<not> withKey \<and> (containsStr out ''encrypted'' \<or> containsStr out ''failed decryption'')
             then Inl errorEncrypted
           else if withKey \<and> containsStr out ''failed decryption'' then Inl errorWrongKey
           else let blocks = findBlocks out in
             if blocks = [] then Inl (errorsNew (''unexpcted output: '' @ out))
             else (case unmarshal (decodeAnyMap (floatText cn)) (last blocks) of
               None \<Rightarrow> Inl (errorsNew (jsonErrorText cn ''map[string]interface {}'' (last blocks)))
             | Some m \<Rightarrow> Inr m)))"

definition decryptAndDecodeTelegram ::
  "'w connector \<Rightarrow> string \<Rightarrow> string \<Rightarrow> string \<Rightarrow> string option \<Rightarrow> string \<Rightarrow> ('w, goerror + json) io" where
  "decryptAndDecodeTelegram cn executable driversDir driver key telegram =
     (if 0 < length driversDir \<and> \<not> hasPrefix driversDir ''/'' then
        ret (Inl (GoError (''wmbusmeters drivers dir must be an absolute path: '' @ driversDir)
          [ErrorInvalidDriversDir]))
      else do {
        let args = (if 0 < length driversDir then [''--driversdir='' @ driversDir] else []) @
              [analyzeArg driver key, sanitizeTelegram telegram];
        res \<leftarrow> perform (execCommand cn executable args) (CExec executable args);
        ret (decodeOutput cn driver (key \<noteq> None) res)
      })"

section \<open>Device types\<close>

definition emptyDeviceType :: deviceType where
  "emptyDeviceType = \<lparr>dtId = [], dtAttributes = [], dtServices = []\<rparr>"

definition getWmbusDeviceType :: "'w connector \<Rightarrow> string \<Rightarrow> ('w, goerror + deviceType) io" where
  "getWmbusDeviceType cn deviceTypeId = do {
     a \<leftarrow> callAccess cn;
     case a of
       Inl e \<Rightarrow> ret (Inl e)
     | Inr adminToken \<Rightarrow> do {
         t \<leftarrow> callDeviceType cn adminToken deviceTypeId;
         case t of
           Inl e \<Rightarrow> (if errorsIs e ErrorNotFound then ret (Inr emptyDeviceType) else ret (Inl e))
         | Inr dt \<Rightarrow> ret (Inr dt)
       }
   }"

definition ensureWmbusDeviceType ::
  "config \<Rightarrow> 'w connector \<Rightarrow> string \<Rightarrow> encryptedMsg \<Rightarrow> json option \<Rightarrow> ('w, goerror + deviceType) io" where
  "ensureWmbusDeviceType cfg cn deviceTypeId msg decoded = do {
     a \<leftarrow> callAccess cn;
     case a of
       Inl e \<Rightarrow> ret (Inl e)
     | Inr adminToken \<Rightarrow> do {
         g \<leftarrow> getWmbusDeviceType cn deviceTypeId;
         case g of
           Inl e \<Rightarrow> ret (Inl e)
         | Inr existing \<Rightarrow>
             (let new0 = utilDeviceType cn deviceTypeId (emManufacturer msg) (emType msg) (emVersion msg)
                    (WmbusDeviceClassId cfg) (SenergyProtocolId cfg) (SenergyProtoclSegment cfg) decoded;
                  new1 = new0\<lparr>dtAttributes := keepUnmanagedAttributes (dtAttributes existing) (dtAttributes new0)\<rparr>;
                  (needed, existing', new2) = wmbusDeviceTypeNeedsUpdate existing new1
              in if needed
                 then perform (updateDeviceType cn adminToken new2) (CUpdateDeviceType adminToken new2)
                 else ret (Inr existing'))
       }
   }"

section \<open>Attributes on the device\<close>

definition wmbusLastSeenInterval :: int where "wmbusLastSeenInterval = 60 * 10 ^ 9"

definition setSameOriginAttributes ::
  "config \<Rightarrow> 'w connector \<Rightarrow> string \<Rightarrow> string \<Rightarrow> string list \<Rightarrow> attribute list \<Rightarrow> ('w, goerror option) io" where
  "setSameOriginAttributes cfg cn token deviceId origins attrs =
     (let endpoint = DeviceManagerUrl cfg @ ''/devices/'' @ pathEscape deviceId @
            ''/attributes?update-only-same-origin-attributes='' @ queryEscape (joinWith CHR '','' origins)
      in perform (putAttributes cn endpoint token attrs) (CPutAttributes endpoint token attrs))"

definition recordWmbusReceiver ::
  "config \<Rightarrow> 'w connector \<Rightarrow> string \<Rightarrow> device \<Rightarrow> device \<Rightarrow> ('w, goerror option) io" where
  "recordWmbusReceiver cfg cn token dev nimbus =
     (if devId nimbus = [] then ret (Some (errorsNew ''missing nimbus id''))
      else do {
        let key = ''wmbus.last_seen.'' @ devId nimbus @ ''.'' @ devId dev;
        g \<leftarrow> perform (cacheGet cn key) (CCacheGet key);
        case g of
          Inr v \<Rightarrow> ret None
        | Inl e \<Rightarrow>
            (if \<not> errorsIs e CacheErrNotFound then ret (Some e)
             else do {
               r \<leftarrow> perform (cacheSet cn key (devId nimbus) wmbusLastSeenInterval)
                      (CCacheSet key (devId nimbus) wmbusLastSeenInterval);
               case r of
                 Some e \<Rightarrow> ret (Some e)
               | None \<Rightarrow> do {
                   now \<leftarrow> perform (timeNow cn) CNow;
                   setSameOriginAttributes cfg cn token (devId dev) [devId nimbus]
                     [\<lparr>attrKey = ''wmbus/last_seen/'' @ devId nimbus, attrValue = formatRFC3339 now,
                       attrOrigin = devId nimbus\<rparr>]
                 }
             })
      })"

text \<open>The origins to replace, and the attributes to send with them.\<close>

definition legacyOrigins :: "string \<Rightarrow> attribute list \<Rightarrow> string list" where
  "legacyOrigins o1 attrs =
     foldl (\<lambda>os a. if isLegacyKeyOk a \<and> attrOrigin a \<notin> set os then os @ [attrOrigin a] else os) [o1] attrs"

definition keptAttributes :: "attribute \<Rightarrow> string list \<Rightarrow> attribute list \<Rightarrow> attribute list" where
  "keptAttributes keyOk origins attrs =
     keyOk # filter (\<lambda>a. attrKey a \<noteq> attrKey keyOk \<and> attrOrigin a \<in> set origins) attrs"

definition replaceLegacyKeyOk ::
  "config \<Rightarrow> 'w connector \<Rightarrow> string \<Rightarrow> string \<Rightarrow> attribute \<Rightarrow> ('w, goerror option) io" where
  "replaceLegacyKeyOk cfg cn token deviceId keyOk = do {
     let url = DeviceManagerUrl cfg @ ''/devices/'' @ pathEscape deviceId;
     g \<leftarrow> perform (getJsonDevice cn url token) (CGetJsonDevice url token);
     case g of
       Inl e \<Rightarrow> ret (Some e)
     | Inr dev \<Rightarrow>
         (let origins = legacyOrigins (attrOrigin keyOk) (devAttributes dev)
          in setSameOriginAttributes cfg cn token deviceId origins
               (keptAttributes keyOk origins (devAttributes dev)))
   }"

definition updateDeviceDecryptionStatus ::
  "config \<Rightarrow> 'w connector \<Rightarrow> string \<Rightarrow> device \<Rightarrow> string \<Rightarrow> ('w, goerror option) io" where
  "updateDeviceDecryptionStatus cfg cn token dev keyOkValue =
     (let current = find (\<lambda>a. attrKey a = wmbusKeyOkAttribute \<and> attrOrigin a = connectorOrigin) (devAttributes dev);
          legacy = list_ex isLegacyKeyOk (devAttributes dev);
          cacheKey = ''wmbus.key-ok.'' @ devId dev;
          keyOk = \<lparr>attrKey = wmbusKeyOkAttribute, attrValue = keyOkValue, attrOrigin = connectorOrigin\<rparr>
      in if map_option attrValue current = Some keyOkValue \<and> \<not> legacy then ret None
         else do {
           g \<leftarrow> perform (cacheGet cn cacheKey) (CCacheGet cacheKey);
           if g = Inr keyOkValue then ret None
           else do {
             r \<leftarrow> (if legacy then replaceLegacyKeyOk cfg cn token (devId dev) keyOk
                    else setSameOriginAttributes cfg cn token (devId dev) [connectorOrigin] [keyOk]);
             case r of
               Some e \<Rightarrow> ret (Some e)
             | None \<Rightarrow>
                 (if 0 < DeviceExpiration cfg then do {
                    let d = DeviceExpiration cfg * 10 ^ 9;
                    _ \<leftarrow> perform (cacheSet cn cacheKey keyOkValue d) (CCacheSet cacheKey keyOkValue d);
                    ret None
                  }
                  else ret None)
           }
         })"

section \<open>Trying the keys\<close>

definition wmbusKeys :: "device \<Rightarrow> string list" where
  "wmbusKeys dev = map attrValue (filter (\<lambda>a. attrKey a = ''wmbus/key'' \<and> 0 < length (attrValue a)) (devAttributes dev))"

text \<open>
  The loop over the keys, with its two variables: the decoded telegram, assigned by every attempt (nil
  by a failed one), and whether a key was good. It does not stop at a good key.
\<close>

fun tryKeys ::
  "config \<Rightarrow> 'w connector \<Rightarrow> string \<Rightarrow> string \<Rightarrow> string list \<Rightarrow> json option \<Rightarrow> bool \<Rightarrow>
   ('w, goerror + (json option \<times> bool)) io" where
  "tryKeys cfg cn driver telegram [] decoded keyOk = ret (Inr (decoded, keyOk))"
| "tryKeys cfg cn driver telegram (k # ks) decoded keyOk = do {
     r \<leftarrow> decryptAndDecodeTelegram cn (WmbusmetersExecutable cfg) (WmbusmetersDriversDir cfg) driver (Some k) telegram;
     case r of
       Inr m \<Rightarrow> tryKeys cfg cn driver telegram ks (Some m) True
     | Inl e \<Rightarrow>
         (if errorsIs e ErrorWrongKey then tryKeys cfg cn driver telegram ks None keyOk
          else ret (Inl e))
   }"

section \<open>The event of the metering device\<close>

definition timestampField :: string where "timestampField = ''timestamp_rfc3339nano''"

definition wmbusEvent :: "json option \<Rightarrow> eventMsg \<Rightarrow> eventMsg" where
  "wmbusEvent decoded event = [''data'' \<mapsto> marshal (case decoded of None \<Rightarrow> JNull | Some m \<Rightarrow> m),
     timestampField \<mapsto> (case event timestampField of None \<Rightarrow> [] | Some t \<Rightarrow> t)]"

definition publishDecoded ::
  "'w connector \<Rightarrow> string \<Rightarrow> string \<Rightarrow> json option \<Rightarrow> eventMsg \<Rightarrow> int \<Rightarrow> ('w, goerror option) io" where
  "publishDecoded cn token local decoded event qos = do {
     (info, err) \<leftarrow> callEvent cn token local ''decrypted'' (wmbusEvent decoded event) qos;
     ret err
   }"

text \<open>The stages of \<open>handleWmbusEvent\<close>: deduplication, an unknown device, and an encrypted telegram.\<close>

definition dedupTelegram :: "'w connector \<Rightarrow> string \<Rightarrow> string \<Rightarrow> string \<Rightarrow> ('w, bool) io" where
  "dedupTelegram cn user local telegram = do {
     let key = ''messages.'' @ user @ ''.'' @ local;
     g \<leftarrow> perform (cacheGet cn key) (CCacheGet key);
     if g = Inr telegram then ret True
     else do {
       _ \<leftarrow> perform (cacheSet cn key telegram (30 * 10 ^ 9)) (CCacheSet key telegram (30 * 10 ^ 9));
       ret False
     }
   }"

definition waitingStub :: "encryptedMsg \<Rightarrow> string \<Rightarrow> string \<Rightarrow> bool \<Rightarrow> deviceStub" where
  "waitingStub msg local deviceTypeId keyRequired = emptyStub\<lparr>stDevice :=
     \<lparr>devId = [], devLocalId = local, devName = emManufacturer msg @ '' '' @ emType msg @ '' '' @ emMeterId msg,
      devAttributes = (if keyRequired then [\<lparr>attrKey = ''wmbus/key'', attrValue = [], attrOrigin = []\<rparr>] else []),
      devTypeId = deviceTypeId\<rparr>\<rparr>"

definition useWaitingRoom ::
  "'w connector \<Rightarrow> waitingRoom \<Rightarrow> string \<Rightarrow> deviceStub \<Rightarrow> ('w, goerror option) io" where
  "useWaitingRoom cn wr token stub = do {
     let key = ''deviceIdentWaitingRoom.'' @ devLocalId (stDevice stub);
     l \<leftarrow> perform (cacheUseLookup cn key) (CUseLookup key);
     r \<leftarrow> (case l of
            Some r \<Rightarrow> ret r
          | None \<Rightarrow> do {
              f \<leftarrow> EnsureWaitingRoom cn wr token stub;
              perform (cacheUseFinish cn key f) (CUseFinish key f)
            });
     ret (case r of Inl e \<Rightarrow> Some e | Inr _ \<Rightarrow> None)
   }"

text \<open>\<open>Inr None\<close>: no key was good, the event ends without an error.\<close>

definition decryptWithKeys ::
  "config \<Rightarrow> 'w connector \<Rightarrow> string \<Rightarrow> device \<Rightarrow> string \<Rightarrow> string \<Rightarrow> encryptedMsg \<Rightarrow>
   ('w, goerror + json option option) io" where
  "decryptWithKeys cfg cn token dev driver deviceTypeId msg = do {
     r \<leftarrow> tryKeys cfg cn driver (emTelegram msg) (wmbusKeys dev) None False;
     case r of
       Inl e \<Rightarrow> ret (Inl e)
     | Inr (decoded, keyOk) \<Rightarrow> do {
         u \<leftarrow> updateDeviceDecryptionStatus cfg cn token dev (if keyOk then ''true'' else ''false'');
         case u of
           Some e \<Rightarrow> ret (Inl e)
         | None \<Rightarrow>
             (if \<not> keyOk then ret (Inr None)
              else do {
                t \<leftarrow> ensureWmbusDeviceType cfg cn deviceTypeId msg decoded;
                case t of Inl e \<Rightarrow> ret (Inl e) | Inr _ \<Rightarrow> ret (Inr (Some decoded))
              })
       }
   }"

text \<open>From the first decoding on; \<open>found\<close> is the device, if there is one.\<close>

definition processTelegram ::
  "config \<Rightarrow> 'w connector \<Rightarrow> waitingRoom \<Rightarrow> string \<Rightarrow> string \<Rightarrow> eventMsg \<Rightarrow> int \<Rightarrow> encryptedMsg \<Rightarrow> string \<Rightarrow>
   string \<Rightarrow> device option \<Rightarrow> string \<Rightarrow> ('w, goerror option) io" where
  "processTelegram cfg cn wr user token event qos msg deviceTypeId local found driver = do {
     first \<leftarrow> decryptAndDecodeTelegram cn (WmbusmetersExecutable cfg) (WmbusmetersDriversDir cfg) driver None
               (emTelegram msg);
     case first of
       Inl e \<Rightarrow>
         (if \<not> errorsIs e ErrorEncrypted then ret (Some e)
          else do {
            t \<leftarrow> ensureWmbusDeviceType cfg cn deviceTypeId msg None;
            case t of
              Inl e \<Rightarrow> ret (Some e)
            | Inr dt \<Rightarrow> do {
                dup \<leftarrow> dedupTelegram cn user local (emTelegram msg);
                if dup then ret None
                else (case found of
                  None \<Rightarrow> useWaitingRoom cn wr token (waitingStub msg local (dtId dt) True)
                | Some dev \<Rightarrow> do {
                    k \<leftarrow> decryptWithKeys cfg cn token dev driver deviceTypeId msg;
                    case k of
                      Inl e \<Rightarrow> ret (Some e)
                    | Inr None \<Rightarrow> ret None
                    | Inr (Some decoded) \<Rightarrow> publishDecoded cn token local decoded event qos
                  })
              }
          })
     | Inr m \<Rightarrow> do {
         t \<leftarrow> ensureWmbusDeviceType cfg cn deviceTypeId msg (Some m);
         case t of
           Inl e \<Rightarrow> ret (Some e)
         | Inr dt \<Rightarrow> do {
             dup \<leftarrow> dedupTelegram cn user local (emTelegram msg);
             if dup then ret None
             else (case found of
               None \<Rightarrow> useWaitingRoom cn wr token (waitingStub msg local (dtId dt) False)
             | Some dev \<Rightarrow> publishDecoded cn token local (Some m) event qos)
           }
       }
   }"

text \<open>The error and whether the caller should log it.\<close>

definition handleWmbusEvent ::
  "config \<Rightarrow> 'w connector \<Rightarrow> string \<Rightarrow> waitingRoom \<Rightarrow> string \<Rightarrow> string \<Rightarrow> eventMsg \<Rightarrow> int \<Rightarrow> device \<Rightarrow>
   ('w, goerror option \<times> bool) io" where
  "handleWmbusEvent cfg cn namespace wr user token event qos nimbus =
     (case event ''data'' of
        None \<Rightarrow> ret (Some (errorsNew ''invalid message: missing protocol segment data''), True)
      | Some eventData \<Rightarrow>
          (case decodeEncrypted cn eventData of
             Inl e \<Rightarrow> ret (Some e, False)
           | Inr msg \<Rightarrow>
               (case utilDeviceTypeId cn (emManufacturer msg) (emType msg) (emVersion msg) namespace of
                  Inl e \<Rightarrow> ret (Some e, False)
                | Inr deviceTypeId \<Rightarrow>
                    (case localDeviceId msg of
                       Inl e \<Rightarrow> ret (Some e, True)
                     | Inr local \<Rightarrow> do {
                         d \<leftarrow> callDevice cn token local;
                         case (case d of
                             Inl e \<Rightarrow> if errorsIs e ErrorNotFound then Inr None else Inl e
                           | Inr dev \<Rightarrow> Inr (Some dev)) of
                           Inl e \<Rightarrow> ret (Some e, False)
                         | Inr found \<Rightarrow> do {
                             _ \<leftarrow> (case found of None \<Rightarrow> ret None
                                  | Some dev \<Rightarrow> recordWmbusReceiver cfg cn token dev nimbus);
                             g \<leftarrow> getWmbusDeviceType cn deviceTypeId;
                             case g of
                               Inl e \<Rightarrow> ret (Some e, False)
                             | Inr existing \<Rightarrow> do {
                                 err \<leftarrow> processTelegram cfg cn wr user token event qos msg deviceTypeId local found
                                   (wmbusDriver (case found of None \<Rightarrow> emptyDevice | Some dev \<Rightarrow> dev) existing);
                                 ret (err, False)
                               }
                           }
                       }))))"

section \<open>All of it only makes calls\<close>

lemma quiet_wmbus_calls [quiet_intros]:
  "quiet (EnsureWaitingRoom cn wr token stub)"
  "quiet (decryptAndDecodeTelegram cn ex dirs driver key tele)"
  "quiet (getWmbusDeviceType cn i)"
  "quiet (setSameOriginAttributes cfg cn token i ors attrs)"
  "quiet (dedupTelegram cn user local tele)"
  "quiet (publishDecoded cn token local dec event qos)"
  unfolding EnsureWaitingRoom_def decryptAndDecodeTelegram_def getWmbusDeviceType_def
    setSameOriginAttributes_def dedupTelegram_def publishDecoded_def
  by (auto split: waitingRoom.splits intro!: quiet_intros simp: Let_def)

lemma quiet_wmbus_steps [quiet_intros]:
  "quiet (ensureWmbusDeviceType cfg cn i msg dec)"
  "quiet (recordWmbusReceiver cfg cn token dev nimbus)"
  "quiet (replaceLegacyKeyOk cfg cn token i keyOk)"
  "quiet (useWaitingRoom cn wr token stub)"
  unfolding ensureWmbusDeviceType_def recordWmbusReceiver_def replaceLegacyKeyOk_def useWaitingRoom_def
  by (intro quiet_intros)+

lemma quiet_updateStatus [quiet_intros]: "quiet (updateDeviceDecryptionStatus cfg cn token dev v)"
  unfolding updateDeviceDecryptionStatus_def by (intro quiet_intros)

lemma quiet_tryKeys [quiet_intros]: "quiet (tryKeys cfg cn driver tele ks dec ok)"
  by (induction ks arbitrary: dec ok) (simp, intro quiet_intros, simp, intro quiet_intros)

lemma quiet_decryptWithKeys [quiet_intros]: "quiet (decryptWithKeys cfg cn token dev driver i msg)"
  unfolding decryptWithKeys_def by (intro quiet_intros)

lemma quiet_processTelegram [quiet_intros]:
  "quiet (processTelegram cfg cn wr user token event qos msg i local found driver)"
  unfolding processTelegram_def by (intro quiet_intros)

lemma quiet_handleWmbusEvent [quiet_intros]:
  "quiet (handleWmbusEvent cfg cn ns wr user token event qos nimbus)"
  unfolding handleWmbusEvent_def by (intro quiet_intros)

end
