(* ===== verification/EventHandler.thy ===== *)
theory EventHandler
  imports OwnerTopics Wmbus
begin

text \<open>
  \<open>lib/handler/event/handler.go\<close>: a device publishes an event. Topic, owner, hub or service are
  checked, events of nimbus devices are also searched for telegrams, and the event goes to the
  platform; which errors count as handled is decided by \<open>handleErr\<close>.
\<close>

record eventHandlerConf =
  ehNamespace :: string
  ehWaitingRoom :: waitingRoom

text \<open>\<open>uuid.MustParse\<close> panics on a text that is no UUID: \<open>None\<close>.\<close>

definition newEventHandler :: "config \<Rightarrow> 'w connector \<Rightarrow> waitingRoom \<Rightarrow> eventHandlerConf option" where
  "newEventHandler cfg cn wr = map_option (\<lambda>u. \<lparr>ehNamespace = u, ehWaitingRoom = wr\<rparr>)
     (uuidParse cn (WmbusDeviceTypeNamespace cfg))"

definition eventSubscribe ::
  "string \<Rightarrow> string \<Rightarrow> string \<Rightarrow> ('w, result \<times> goerror option) io" where
  "eventSubscribe clientId user topic = ret (Unhandled, None)"

definition handleErr ::
  "config \<Rightarrow> 'w connector \<Rightarrow> goerror \<Rightarrow> nat \<Rightarrow> string \<Rightarrow> handledInfo \<Rightarrow> ('w, result \<times> goerror option) io" where
  "handleErr cfg cn e sz user info =
     (if errorsIs e ErrorNotFound \<or> errorsIs e ErrorUnknownLocalServiceId then ret (Rejected, Some e)
      else if \<not> MqttErrorOnEventValidationError cfg \<and>
          (errorsIs e MarshallingErr \<or> errorsIs e ErrUnexpectedField \<or> errorsIs e ErrMissingField \<or>
           errorsIs e ErrUnexpectedType) then do {
        _ \<leftarrow> callStat cn (DeviceMsgHandled sz user (hiDeviceId info) (hiDeviceTypeId info) (hiServiceIds info));
        ret (Accepted, None)
      }
      else ret (Error, Some e))"

definition emptyInfo :: handledInfo where
  "emptyInfo = \<lparr>hiDeviceId = [], hiDeviceTypeId = [], hiServiceIds = []\<rparr>"

text \<open>The last part of \<open>Publish\<close>, when messages are not only authorised.\<close>

definition forwardEvent ::
  "config \<Rightarrow> 'w connector \<Rightarrow> eventHandlerConf \<Rightarrow> string \<Rightarrow> string \<Rightarrow> string \<Rightarrow> string \<Rightarrow> eventMsg \<Rightarrow> int \<Rightarrow> nat \<Rightarrow>
   ('w, result \<times> goerror option) io" where
  "forwardEvent cfg cn this user token deviceUri serviceUri event qos sz = do {
     d \<leftarrow> callDevice cn token deviceUri;
     case d of
       Inl e \<Rightarrow> handleErr cfg cn e sz user emptyInfo
     | Inr dev \<Rightarrow> do {
         _ \<leftarrow> (if devTypeId dev = NimbusDeviceTypeId cfg
              then handleWmbusEvent cfg cn (ehNamespace this) (ehWaitingRoom this) user token event qos dev
              else ret (None, False));
         (info, err) \<leftarrow> callEvent cn token deviceUri serviceUri event qos;
         _ \<leftarrow> (if hiDeviceId info \<noteq> [] \<and> hiDeviceTypeId info \<noteq> []
              then callStat cn (DeviceMsgReceive sz user (hiDeviceId info) (hiDeviceTypeId info) (hiServiceIds info))
              else ret ());
         case err of
           Some e \<Rightarrow> handleErr cfg cn e sz user info
         | None \<Rightarrow> do {
             _ \<leftarrow> callStat cn (DeviceMsgHandled sz user (hiDeviceId info) (hiDeviceTypeId info) (hiServiceIds info));
             ret (Accepted, None)
           }
       }
   }"

text \<open>The check of the device's services, which stands in for the hub check: \<open>None\<close> lets the event pass.\<close>

definition eventCheckResult :: "goerror \<Rightarrow> result \<times> goerror option" where
  "eventCheckResult e =
     (if errorsIs e ServiceNotFound then (Accepted, None)
      else if errorsIs e ErrorNotFound \<or> errorsIs e ErrorAccessDenied then (Rejected, Some e)
      else (Error, Some e))"

definition eventPublish ::
  "config \<Rightarrow> 'w connector \<Rightarrow> eventHandlerConf \<Rightarrow> string \<Rightarrow> string \<Rightarrow> string \<Rightarrow> string \<Rightarrow> int \<Rightarrow> nat \<Rightarrow>
   ('w, result \<times> goerror option) io" where
  "eventPublish cfg cn this clientId user topic payload qos sz =
     (if \<not> hasPrefix topic ''event'' then ret (Unhandled, None)
      else (case ParseTopic topic of
        Inl e \<Rightarrow> ret (Rejected, Some e)
      | Inr (TopicParts pre ow deviceUri serviceUri) \<Rightarrow>
          (if ForceTopicsWithOwner cfg \<and> ow = [] then ret (Rejected, Some expectOwnerErr)
           else if pre \<noteq> ''event'' then ret (Unhandled, None)
           else do {
             t \<leftarrow> callToken cn user;
             case t of
               Inl e \<Rightarrow> ret (Error, Some e)
             | Inr token \<Rightarrow>
                 (case checkOwner cn token ow of
                    Some x \<Rightarrow> ret x
                  | None \<Rightarrow> do {
                      hubErr \<leftarrow> (if CheckHub cfg then checkHub cn token clientId deviceUri else ret None);
                      case hubErr of
                        Some e \<Rightarrow> ret (Rejected, Some e)
                      | None \<Rightarrow>
                          (case unmarshal decodeStringMap payload of
                             None \<Rightarrow> ret (Rejected, Some (errorsNew (jsonErrorText cn ''EventMsg'' payload)))
                           | Some event \<Rightarrow> do {
                               evErr \<leftarrow> (if \<not> CheckHub cfg then checkEvent cn token deviceUri serviceUri else ret None);
                               case evErr of
                                 Some e \<Rightarrow> ret (eventCheckResult e)
                               | None \<Rightarrow>
                                   (if \<not> MqttPublishAuthOnly cfg
                                    then forwardEvent cfg cn this user token deviceUri serviceUri event qos sz
                                    else ret (Accepted, None))
                             })
                    })
           })))"

definition eventHandler :: "config \<Rightarrow> 'w connector \<Rightarrow> eventHandlerConf \<Rightarrow> 'w handler" where
  "eventHandler cfg cn this = \<lparr>hSubscribe = eventSubscribe, hPublish = eventPublish cfg cn this\<rparr>"

section \<open>The interface\<close>

lemma quiet_handleErr [quiet_intros]: "quiet (handleErr cfg cn e sz u i)"
  unfolding handleErr_def by (intro quiet_intros)

lemma quiet_forwardEvent [quiet_intros]: "quiet (forwardEvent cfg cn this u tok d s ev q z)"
  unfolding forwardEvent_def by (intro quiet_intros)

lemma yields_handleErr [yields_intros]: "yields publishOk (handleErr cfg cn e sz u i)"
  unfolding handleErr_def by (intro yields_intros; simp)

lemma yields_forwardEvent [yields_intros]: "yields publishOk (forwardEvent cfg cn this u tok d s ev q z)"
  unfolding forwardEvent_def by (intro yields_intros; simp)

lemma eventCheckResult_ok [simp]: "publishOk (eventCheckResult e)"
  by (simp add: eventCheckResult_def)

interpretation eventH: prefix_handler "eventHandler cfg cn this" "''event''"
  for cfg and cn :: "'w connector" and this
proof (intro prefix_handler.intro topic_handlerI prefix_handler_axioms.intro)
  show "yields publishOk (hPublish (eventHandler cfg cn this) c u t p q z)"
    and "quiet (hPublish (eventHandler cfg cn this) c u t p q z)" for c u t p q z
    unfolding eventHandler_def eventPublish_def handler.simps case_topicParts
    by (intro yields_intros quiet_intros; simp add: checkOwner_ok)+
  show "yields subscribeOk (hSubscribe (eventHandler cfg cn this) c u t)"
    and "quiet (hSubscribe (eventHandler cfg cn this) c u t)" for c u t
    unfolding eventHandler_def eventSubscribe_def handler.simps
    by (intro yields_intros quiet_intros; simp)+
qed (simp_all add: eventHandler_def eventSubscribe_def eventPublish_def)

end
