(* ===== verification/FogHandler.thy ===== *)
theory FogHandler
  imports HandlerCore
begin

text \<open>
  \<open>lib/handler/fog/handler.go\<close>: topics below the configured fog prefix. Subscriptions are allowed;
  of the published messages, those of the cloud upstream topic are forwarded to the Kafka topic named
  by the rest of the topic, keyed by their operator id. The upstream topic is a constant of the
  analytics-fog-lib, here the argument \<open>upstream\<close>; a nil receiver is \<open>None\<close>.
\<close>

record fogHandlerConf = fogTopicPrefix :: string

record keyWrapper = kwKey :: string

definition keyWrapperFields :: "keyWrapper field list" where
  "keyWrapperFields = [strField ''operator_id'' kwKey_update]"

definition getKey :: "'w connector \<Rightarrow> string \<Rightarrow> goerror + string" where
  "getKey cn payload =
     (case unmarshal (\<lambda>v. decodeStruct keyWrapperFields v \<lparr>kwKey = []\<rparr>) payload of
        None \<Rightarrow> Inl (errorsNew (jsonErrorText cn ''fog.keyWrapper'' payload))
      | Some w \<Rightarrow> Inr (kwKey w))"

definition fogSubscribe ::
  "fogHandlerConf option \<Rightarrow> string \<Rightarrow> string \<Rightarrow> string \<Rightarrow> ('w, result \<times> goerror option) io" where
  "fogSubscribe this clientId user topic = (case this of
     None \<Rightarrow> ret (Unhandled, None)
   | Some f \<Rightarrow>
       (if \<not> hasPrefix topic (fogTopicPrefix f) then ret (Unhandled, None)
        else ret (Accepted, None)))"

definition fogPublish ::
  "'w connector \<Rightarrow> string \<Rightarrow> fogHandlerConf option \<Rightarrow> string \<Rightarrow> string \<Rightarrow> string \<Rightarrow> string \<Rightarrow> int \<Rightarrow> nat \<Rightarrow>
   ('w, result \<times> goerror option) io" where
  "fogPublish cn upstream this clientId user topic payload qos sz = (case this of
     None \<Rightarrow> ret (Unhandled, None)
   | Some f \<Rightarrow>
       (if \<not> hasPrefix topic (fogTopicPrefix f) then ret (Unhandled, None)
        else if \<not> hasPrefix topic (fogTopicPrefix f @ ''analytics/'') then ret (Accepted, None)
        else if \<not> hasPrefix topic upstream then ret (Accepted, None)
        else
          let target = replaceFirst topic (upstream @ ''/'') []
          in (case getKey cn payload of
            Inl e \<Rightarrow> ret (Error, Some (GoError (''unsupported message format: '' @ errText e) (errChain e)))
          | Inr key \<Rightarrow> do {
              p \<leftarrow> perform (getProducer cn qos) (CGetProducer qos);
              case p of
                Some e \<Rightarrow> ret (Error, Some e)
              | None \<Rightarrow> do {
                  r \<leftarrow> perform (produceWithKey cn qos target payload key) (CProduce qos target payload key);
                  case r of
                    Some e \<Rightarrow> ret (Error, Some e)
                  | None \<Rightarrow> ret (Accepted, None)
                }
            })))"

definition fogHandler :: "'w connector \<Rightarrow> string \<Rightarrow> fogHandlerConf \<Rightarrow> 'w handler" where
  "fogHandler cn upstream f = \<lparr>hSubscribe = fogSubscribe (Some f), hPublish = fogPublish cn upstream (Some f)\<rparr>"

interpretation fogH: prefix_handler "fogHandler cn upstream f" "fogTopicPrefix f" for cn :: "'w connector"
  and upstream f
proof (intro prefix_handler.intro topic_handlerI prefix_handler_axioms.intro)
  show "yields publishOk (hPublish (fogHandler cn upstream f) c u t p q z)"
    and "quiet (hPublish (fogHandler cn upstream f) c u t p q z)" for c u t p q z
    unfolding fogHandler_def fogPublish_def handler.simps by (intro yields_intros quiet_intros; simp)+
  show "yields subscribeOk (hSubscribe (fogHandler cn upstream f) c u t)"
    and "quiet (hSubscribe (fogHandler cn upstream f) c u t)" for c u t
    unfolding fogHandler_def fogSubscribe_def handler.simps by (intro yields_intros quiet_intros; simp)+
qed (simp_all add: fogHandler_def fogSubscribe_def fogPublish_def)

text \<open>On a topic below the upstream topic, the target is what follows it.\<close>

lemma fogTarget: "replaceFirst ((upstream @ ''/'') @ rest) (upstream @ ''/'') [] = rest"
  using replaceFirst_prefix [of "upstream @ ''/''" rest "[]"] by simp

text \<open>Every message the handler produces carries the published payload and the key found in it.\<close>

lemma fogPublish_produces:
  assumes "run_state (fogPublish cn upstream (Some f) c u t p q z) s = (x, s')"
    and "CProduce q' target m k e \<in> set (newCalls s s')"
  shows "q' = q \<and> m = p \<and> getKey cn p = Inr k \<and> target = replaceFirst t (upstream @ ''/'') [] \<and>
    hasPrefix t (fogTopicPrefix f @ ''analytics/'') \<and> hasPrefix t upstream"
  using assms
  by (auto simp: fogPublish_def io_simps newCalls_def Let_def split: if_splits sum.splits prod.splits option.splits)

end
