(* ===== verification/TimeOrder.thy ===== *)
theory TimeOrder
  imports GoTime
begin

text \<open>
  Why \<open>health.TimeFormat\<close> has a fixed number of digits: the byte order of the texts it writes is the
  order of the times, for all times before year 10000. The calendar of \<open>GoTime\<close> is shown to be
  strictly monotone on the way.
\<close>

section \<open>Order of padded numbers\<close>

lemma append_less_iff:
  fixes a b x y :: "'a :: linorder list"
  assumes "length a = length b"
  shows "a @ x < b @ y \<longleftrightarrow> a < b \<or> a = b \<and> x < y"
  using assms
proof (induction a b rule: list_induct2)
  case (Cons p ps q qs)
  then show ?case by (auto simp: Cons_less_Cons)
qed simp

lemma char_less_nat: "(of_char c :: nat) < of_char d \<longleftrightarrow> c < d"
  by (simp add: less_char_def)

lemma padNum_Suc: "padNum (Suc w) n = char_of (48 + n div 10 ^ w mod 10) # padNum w n"
  by (simp add: padNum_def)

lemma padNum_length [simp]: "length (padNum w n) = w"
  by (simp add: padNum_def)

lemma padNum_mod: "padNum w (n mod 10 ^ w) = padNum w n"
proof -
  have "n mod 10 ^ w div 10 ^ i mod 10 = n div 10 ^ i mod 10" if "i < w" for i
  proof -
    from less_imp_Suc_add [OF that] obtain k where "w = i + Suc k" by auto
    then have "n mod 10 ^ w = n mod (10 ^ i * 10 ^ Suc k)" by (simp add: power_add mult.left_commute)
    then have "n mod 10 ^ w div 10 ^ i = n div 10 ^ i mod 10 ^ Suc k"
      by (simp add: mod_mult2_eq del: power_Suc)
    then show ?thesis by (simp add: mod_mod_cancel)
  qed
  then show ?thesis by (simp add: padNum_def)
qed

lemma digit_less: "p < 10 \<Longrightarrow> q < 10 \<Longrightarrow> (char_of (48 + p :: nat) :: char) < char_of (48 + q) \<longleftrightarrow> p < q"
  by (simp add: less_char_def)

lemma digit_eq: "p < 10 \<Longrightarrow> q < 10 \<Longrightarrow> (char_of (48 + p :: nat) :: char) = char_of (48 + q) \<longleftrightarrow> p = q"
  by (metis add_left_cancel char_of_eq_iff digit_less linorder_neq_iff)

lemma padNum_less: "n < 10 ^ w \<Longrightarrow> m < 10 ^ w \<Longrightarrow> padNum w n < padNum w m \<longleftrightarrow> n < m"
proof (induction w arbitrary: n m)
  case 0
  then show ?case by simp
next
  case (Suc w)
  let ?p = "n div 10 ^ w" and ?q = "m div 10 ^ w"
  have lt: "?p < 10" "?q < 10" using Suc.prems by (simp_all add: less_mult_imp_div_less mult.commute)
  have "padNum w n < padNum w m \<longleftrightarrow> n mod 10 ^ w < m mod 10 ^ w"
    using Suc.IH [of "n mod 10 ^ w" "m mod 10 ^ w"] by (simp add: padNum_mod)
  then have "padNum (Suc w) n < padNum (Suc w) m \<longleftrightarrow> ?p < ?q \<or> ?p = ?q \<and> n mod 10 ^ w < m mod 10 ^ w"
    using lt by (simp add: padNum_Suc Cons_less_Cons digit_less digit_eq)
  also have "\<dots> \<longleftrightarrow> n < m"
  proof -
    have n: "n = ?p * 10 ^ w + n mod 10 ^ w" "m = ?q * 10 ^ w + m mod 10 ^ w"
      by (rule div_mult_mod_eq [symmetric])+
    have b: "n mod 10 ^ w < 10 ^ w" "m mod 10 ^ w < 10 ^ w" by simp_all
    show ?thesis
    proof (cases "?p < ?q")
      case True
      then have "?p * 10 ^ w + 10 ^ w \<le> ?q * 10 ^ w"
        by (metis Suc_leI add.commute mult_Suc mult_le_mono1)
      with n b True show ?thesis by linarith
    next
      case False
      show ?thesis
      proof (cases "?p = ?q")
        case True
        with n show ?thesis by (metis add_less_cancel_left less_irrefl)
      next
        case neq: False
        with False have "m < n" by (metis div_le_mono linorder_not_le nat_less_le)
        with False neq show ?thesis by simp
      qed
    qed
  qed
  finally show ?case .
qed

lemma padNum_eq: "n < 10 ^ w \<Longrightarrow> m < 10 ^ w \<Longrightarrow> padNum w n = padNum w m \<longleftrightarrow> n = m"
  by (metis linorder_neq_iff padNum_less)

text \<open>The calendar is one to one: a day is the days of the years before it and the day of its year.\<close>

definition yearStart :: "nat \<Rightarrow> nat" where
  "yearStart y = 365 * y + y div 4 - y div 100 + y div 400"

lemma year_divs:
  assumes "b \<le> 3" "c \<le> 24" "e \<le> (3::nat)"
  shows "(400 * a + 100 * b + 4 * c + e) div 4 = 100 * a + 25 * b + c"
    "(400 * a + 100 * b + 4 * c + e) div 100 = 4 * a + b"
    "(400 * a + 100 * b + 4 * c + e) div 400 = a"
  by (rule div_nat_eqI; use assms in simp)+

text \<open>Four equal parts, of which the last may be longer by one: the division of a cycle by \<open>absDate\<close>.\<close>

lemma four_parts:
  assumes "d \<le> 4 * k" "0 < k" and q: "q = d div k - d div k div 4"
  shows "d = k * q + (d - k * q)" "q \<le> (3::nat)" "d - k * q \<le> k" "q < 3 \<Longrightarrow> d - k * q < k"
proof -
  have d: "d = k * (d div k) + d mod k" "d mod k < k" using assms(2) by simp_all
  have "d div k \<le> 4" using assms(1,2) by (metis div_le_mono nonzero_mult_div_cancel_right not_gr_zero)
  then consider "d div k \<le> 3" "q = d div k" | "d div k = 4" "q = 3" unfolding q by force
  then have "d = k * q + (d - k * q) \<and> q \<le> 3 \<and> d - k * q \<le> k \<and> (q < 3 \<longrightarrow> d - k * q < k)"
  proof cases
    case 1
    have "d - k * q = d mod k" by (simp add: 1 minus_mult_div_eq_mod)
    then show ?thesis using d 1 by simp
  next
    case 2
    then have "4 * k \<le> d" using d(1) by simp
    with assms(1) have "d = 4 * k" by simp
    then show ?thesis by (simp add: 2)
  qed
  then show "d = k * q + (d - k * q)" "q \<le> 3" "d - k * q \<le> k" "q < 3 \<Longrightarrow> d - k * q < k" by blast+
qed

lemma isLeap_fourth:
  assumes "b \<le> 3" "c \<le> 24" "b = 3 \<or> c \<noteq> (24::nat)"
  shows "isLeap (400 * a + 100 * b + 4 * c + 4)"
proof -
  let ?y = "400 * a + 100 * b + 4 * c + 4"
  have "?y = 4 * (100 * a + 25 * b + c + 1)" by simp
  then have "?y mod 4 = 0" by (metis mod_mult_self1_is_0)
  moreover have "?y mod 100 = 4 * c + 4" if "c \<noteq> 24" using assms(2) that by (intro mod_nat_eqI) auto
  moreover have "?y mod 400 = 0" if "b = 3" "c = 24" using that by (intro mod_nat_eqI) auto
  ultimately show ?thesis using assms(3) unfolding isLeap_def by (cases "c = 24") simp_all
qed

lemma yearDay_start:
  assumes "yearDay n = (y, yd)"
  shows "1 \<le> y" "n = yearStart (y - 1) + yd" "yd < (if isLeap y then 366 else 365)"
proof -
  define a d1 where "a = n div 146097" and "d1 = n mod 146097"
  define b d2 where "b = d1 div 36524 - d1 div 36524 div 4" and "d2 = d1 - 36524 * b"
  define c d3 where "c = d2 div 1461" and "d3 = d2 mod 1461"
  define e d4 where "e = d3 div 365 - d3 div 365 div 4" and "d4 = d3 - 365 * e"
  have "yearDay n = (400 * a + 100 * b + 4 * c + e + 1, d4)"
    unfolding yearDay_def Let_def a_def d1_def b_def d2_def c_def d3_def e_def d4_def by (rule refl)
  then have y: "y = 400 * a + 100 * b + 4 * c + e + 1" and yd: "yd = d4"
    using assms by simp_all
  have n: "n = 146097 * a + d1" "d1 < 146097" by (simp_all add: a_def d1_def)
  then have "d1 \<le> 4 * 36524" by simp
  note b = four_parts [OF this _ b_def, folded d2_def, simplified]
  have c: "d2 = 1461 * c + d3" "d3 < 1461" by (simp_all add: c_def d3_def)
  then have c': "c \<le> 24" "b < 3 \<Longrightarrow> c = 24 \<Longrightarrow> d3 < 1460" using b(3,4) by linarith+
  have "d3 \<le> 4 * 365" using c(2) by simp
  note e = four_parts [OF this _ e_def, folded d4_def, simplified]
  show "1 \<le> y" by (simp add: y)
  show "n = yearStart (y - 1) + yd"
    using n b(1) c(1) e(1) year_divs [OF b(2) c'(1) e(2), of a] by (simp add: yearStart_def y yd)
  show "yd < (if isLeap y then 366 else 365)"
  proof (cases "d4 < 365")
    case False
    with e(4) have "\<not> e < 3" by blast
    with e(2,3) False have "e = 3" "d4 = 365" by linarith+
    with e(1) c'(2) b(2) have "b = 3 \<or> c \<noteq> 24" by linarith
    moreover have "y = 400 * a + 100 * b + 4 * c + 4" using \<open>e = 3\<close> y by simp
    ultimately have "isLeap y" using isLeap_fourth [OF b(2) c'(1)] by (simp only:)
    with e(3) yd show ?thesis by simp
  qed (simp add: yd)
qed

lemma div_step: "0 < k \<Longrightarrow> Suc n div k = n div k + (if Suc n mod k = 0 then 1 else 0)"
  by (simp add: div_Suc)

lemma yearStart_next: "1 \<le> y \<Longrightarrow> yearStart y = yearStart (y - 1) + (if isLeap y then 366 else 365)"
proof (cases y)
  case (Suc x)
  have "x div 100 \<le> x div 4" by (simp add: div_le_mono2)
  then obtain z where z: "x div 4 = x div 100 + z" using le_Suc_ex by blast
  have "Suc x mod 100 = 0 \<Longrightarrow> Suc x mod 4 = 0"
    using mod_mod_cancel [of 4 100 "Suc x"] by simp
  moreover have "Suc x mod 400 = 0 \<Longrightarrow> Suc x mod 100 = 0"
    using mod_mod_cancel [of 100 400 "Suc x"] by simp
  ultimately show ?thesis
    unfolding Suc yearStart_def isLeap_def by (auto simp: div_step z simp del: div_Suc)
qed simp

lemma yearStart_mono: "y \<le> y' \<Longrightarrow> yearStart y \<le> yearStart y'"
proof (induction y' rule: dec_induct)
  case (step k)
  then show ?case using yearStart_next [of "Suc k"] by simp
qed simp

lemma yearDay_mono:
  assumes "yearDay n = (y, yd)" "yearDay n' = (y', yd')" "n < n'"
  shows "y < y' \<or> y = y' \<and> yd < yd'"
proof (rule ccontr)
  assume "\<not> ?thesis"
  then have "y' < y \<or> y = y' \<and> yd' \<le> yd" by auto
  then show False
  proof
    assume "y' < y"
    then have "yearStart y' \<le> yearStart (y - 1)" by (intro yearStart_mono) simp
    moreover have "n' < yearStart y'"
      using yearDay_start [OF assms(2)] yearStart_next [of y'] by linarith
    ultimately show False using yearDay_start(2) [OF assms(1)] assms(3) by linarith
  next
    assume "y = y' \<and> yd' \<le> yd"
    then show False
      using yearDay_start(2) [OF assms(1)] yearDay_start(2) [OF assms(2)] assms(3) by simp
  qed
qed

lemma yearDay_bound: "yearDay n = (y, yd) \<Longrightarrow> n < 3652059 \<Longrightarrow> y < 10000"
proof (rule ccontr)
  assume a: "yearDay n = (y, yd)" "n < 3652059" "\<not> y < 10000"
  then have "yearStart 9999 \<le> yearStart (y - 1)" by (intro yearStart_mono) simp
  moreover have "yearStart 9999 = 3652059" by (simp add: yearStart_def)
  moreover have "n = yearStart (y - 1) + yd" by (rule yearDay_start(2) [OF a(1)])
  ultimately show False using a(2) by linarith
qed

definition pairLess :: "nat \<times> nat \<Rightarrow> nat \<times> nat \<Rightarrow> bool" where
  "pairLess p q \<longleftrightarrow> fst p < fst q \<or> fst p = fst q \<and> snd p < snd q"

lemma pairLess_trans: "pairLess p q \<Longrightarrow> pairLess q r \<Longrightarrow> pairLess p r"
  by (auto simp: pairLess_def)

lemma monthDay_start:
  assumes "n < 365" "monthDay False n = (m, d)"
  shows "1 \<le> m \<and> m \<le> 12 \<and> n + 1 = daysBefore ! (m - 1) + d \<and> 1 \<le> d \<and>
    n < (daysBefore @ [365]) ! m \<and> d \<le> 31"
  using assms by (simp add: monthDay_def daysBefore_def Let_def split: if_splits) auto


lemma daysBefore_next:
  "1 \<le> m' \<Longrightarrow> m' < m \<Longrightarrow> m \<le> 12 \<Longrightarrow> (daysBefore @ [365]) ! m' \<le> daysBefore ! (m - 1)"
proof -
  assume a: "1 \<le> m'" "m' < m" "m \<le> 12"
  have "sorted daysBefore" by code_simp
  then have "daysBefore ! m' \<le> daysBefore ! (m - 1)"
    using a by (intro sorted_nth_mono) (simp_all add: daysBefore_def)
  moreover have "m' < length daysBefore" using a by (simp add: daysBefore_def)
  ultimately show ?thesis by (simp add: nth_append)
qed

lemma monthDay_plain:
  assumes "n < k" "k < 365"
  shows "pairLess (monthDay False n) (monthDay False k)"
proof -
  obtain m d where m: "monthDay False n = (m, d)" by (metis surj_pair)
  obtain m' d' where m': "monthDay False k = (m', d')" by (metis surj_pair)
  note N = monthDay_start [OF _ m] monthDay_start [OF assms(2) m']
  have "\<not> m' < m"
    using N assms daysBefore_next [of m' m] by auto
  moreover have "m = m' \<Longrightarrow> d < d'" using N assms by auto
  ultimately show ?thesis by (auto simp: pairLess_def m m')
qed

lemma monthDay_leap:
  "n < 59 \<Longrightarrow> monthDay True n = monthDay False n" "monthDay True 59 = (2, 29)"
  "59 < n \<Longrightarrow> monthDay True n = monthDay False (n - 1)"
  by (simp_all add: monthDay_def)

lemma monthDay_mono:
  assumes "n < k" "k < (if l then 366 else 365)"
  shows "pairLess (monthDay l n) (monthDay l k)"
proof (cases l)
  case True
  have e: "monthDay False 58 = (2, 28)" "monthDay False 59 = (3, 1)" by code_simp+
  have before: "pairLess (monthDay False i) (2, 29)" if "i < 59" for i
  proof (cases "i = 58")
    case False
    with that have "pairLess (monthDay False i) (2, 28)" using monthDay_plain [of i 58] e by simp
    then show ?thesis by (rule pairLess_trans) (simp add: pairLess_def)
  qed (simp add: e pairLess_def)
  have after: "pairLess (2, 29) (monthDay False i)" if "59 \<le> i" "i < 365" for i
  proof (cases "i = 59")
    case False
    with that have "pairLess (3, 1) (monthDay False i)" using monthDay_plain [of 59 i] e by simp
    then show ?thesis by (rule pairLess_trans [rotated]) (simp add: pairLess_def)
  qed (simp add: e pairLess_def)
  consider "k < 59" | "k = 59" | "n < 59" "59 < k" | "n = 59" | "59 < n" using assms(1) by linarith
  then show ?thesis
  proof cases
    case 3
    then have "pairLess (monthDay False n) (monthDay False (k - 1))"
      using assms True by (intro monthDay_plain) auto
    with 3 True show ?thesis by (simp add: monthDay_leap)
  qed (use assms True in \<open>auto simp: monthDay_leap intro!: monthDay_plain before after\<close>)
qed (use assms monthDay_plain in simp)

lemma monthDay_bound:
  assumes "n < (if l then 366 else 365)" "monthDay l n = (m, d)"
  shows "m < 100 \<and> d < 100"
proof -
  consider "l" "n = 59" | i where "i < 365" "monthDay l n = monthDay False i"
  proof (cases l)
    case True
    consider "n < 59" | "n = 59" | "59 < n" by linarith
    then show ?thesis
      by cases (use True that(1) that(2) [of n] that(2) [of "n - 1"] assms(1) monthDay_leap in simp_all)
  next
    case False
    then show ?thesis using that(2) [of n] assms(1) by simp
  qed
  then show ?thesis
  proof cases
    case 1
    with assms(2) show ?thesis by (simp add: monthDay_leap)
  next
    case (2 i)
    then show ?thesis using monthDay_start [of i m d] assms(2) by simp
  qed
qed

text \<open>The text of a date, field by field.\<close>

lemma field_less:
  assumes "n < 10 ^ w" "m < 10 ^ w"
  shows "padNum w n @ x < padNum w m @ y \<longleftrightarrow> n < m \<or> n = m \<and> x < y"
  using assms by (simp add: append_less_iff padNum_less padNum_eq)

lemma field_less_sep:
  assumes "n < 10 ^ w" "m < 10 ^ w"
  shows "padNum w n @ c # x < padNum w m @ c # y \<longleftrightarrow> n < m \<or> n = m \<and> x < y"
  using assms by (simp add: field_less Cons_less_Cons)

lemma div_mod_less: "a div k < b div k \<or> a div k = b div k \<and> a mod k < b mod k \<longleftrightarrow> a < b"
  for a b k :: nat
  by (metis div_le_mono div_mult_mod_eq linorder_not_le nat_add_left_cancel_less nat_less_le)

lemma clock_less:
  assumes "s < 86400" "s' < 86400"
  shows "s div 3600 < s' div 3600 \<or> s div 3600 = s' div 3600 \<and>
     (s div 60 mod 60 < s' div 60 mod 60 \<or> s div 60 mod 60 = s' div 60 mod 60 \<and> s mod 60 < s' mod (60::nat)) \<longleftrightarrow>
     s < s'"
proof -
  have e: "s div 60 div 60 = s div 3600" "s' div 60 div 60 = s' div 3600"
    by (simp_all add: div_mult2_eq [symmetric])
  have "s div 60 = s' div 60 \<longleftrightarrow> s div 3600 = s' div 3600 \<and> s div 60 mod 60 = s' div 60 mod 60"
    using e by (metis div_mult_mod_eq)
  then show ?thesis
    using div_mod_less [of s 60 s'] div_mod_less [of "s div 60" 60 "s' div 60"] unfolding e by blast
qed


definition stamp :: "nat \<Rightarrow> nat \<Rightarrow> nat \<Rightarrow> nat \<Rightarrow> nat \<Rightarrow> nat \<Rightarrow> string \<Rightarrow> string" where
  "stamp y m d h i s x = padNum 4 y @ CHR ''-'' # padNum 2 m @ CHR ''-'' # padNum 2 d @ CHR ''T'' #
     padNum 2 h @ CHR '':'' # padNum 2 i @ CHR '':'' # padNum 2 s @ x"

lemma stamp_less:
  assumes "y < 10 ^ 4" "y' < 10 ^ 4" "m < 10\<^sup>2" "m' < 10\<^sup>2" "d < 10\<^sup>2" "d' < 10\<^sup>2" "h < 10\<^sup>2" "h' < 10\<^sup>2"
    "i < 10\<^sup>2" "i' < 10\<^sup>2" "s < 10\<^sup>2" "s' < 10\<^sup>2"
  shows "stamp y m d h i s x < stamp y' m' d' h' i' s' x' \<longleftrightarrow>
      y < y' \<or> y = y' \<and> (m < m' \<or> m = m' \<and> (d < d' \<or> d = d' \<and>
      (h < h' \<or> h = h' \<and> (i < i' \<or> i = i' \<and> (s < s' \<or> s = s' \<and> x < x')))))"
  unfolding stamp_def field_less_sep [OF assms(1,2)] field_less_sep [OF assms(3,4)] field_less_sep [OF assms(5,6)]
    field_less_sep [OF assms(7,8)] field_less_sep [OF assms(9,10)] field_less [OF assms(11,12)]
  by (rule refl)

lemma dateText_stamp:
  "yearDay (sec div 86400) = (y, yd) \<Longrightarrow> monthDay (isLeap y) yd = (m, d) \<Longrightarrow>
   dateText sec @ x = stamp y m d (sec mod 86400 div 3600) (sec mod 86400 div 60 mod 60) (sec mod 86400 mod 60) x"
  unfolding dateText_def stamp_def Let_def by (simp only: prod.case append.assoc append_Cons append_Nil)

lemma dateText_less:
  assumes "sec < 315537897600" "sec' < 315537897600"
  shows "dateText sec @ x < dateText sec' @ x' \<longleftrightarrow> sec < sec' \<or> sec = sec' \<and> x < x'"
proof -
  obtain y yd where y: "yearDay (sec div 86400) = (y, yd)" by (metis surj_pair)
  obtain y' yd' where y': "yearDay (sec' div 86400) = (y', yd')" by (metis surj_pair)
  obtain m d where m: "monthDay (isLeap y) yd = (m, d)" by (metis surj_pair)
  obtain m' d' where m': "monthDay (isLeap y') yd' = (m', d')" by (metis surj_pair)
  let ?s = "sec mod 86400" and ?s' = "sec' mod 86400"
  have days: "sec div 86400 < 3652059" "sec' div 86400 < 3652059" using assms by linarith+
  note Y = yearDay_bound [OF y days(1)] yearDay_bound [OF y' days(2)]
  note M = monthDay_bound [OF yearDay_start(3) [OF y] m] monthDay_bound [OF yearDay_start(3) [OF y'] m']
  define h i z where hiz: "h = ?s div 3600" "i = ?s div 60 mod 60" "z = ?s mod 60"
  define h' i' z' where hiz': "h' = ?s' div 3600" "i' = ?s' div 60 mod 60" "z' = ?s' mod 60"
  have S: "h < 10\<^sup>2" "h' < 10\<^sup>2" "i < 10\<^sup>2" "i' < 10\<^sup>2" "z < 10\<^sup>2" "z' < 10\<^sup>2"
    unfolding hiz hiz' by (rule less_trans [of _ 60], simp_all add: less_mult_imp_div_less)
  have C: "h < h' \<or> h = h' \<and> (i < i' \<or> i = i' \<and> z < z') \<longleftrightarrow> ?s < ?s'"
    "h' < h \<or> h' = h \<and> (i' < i \<or> i' = i \<and> z' < z) \<longleftrightarrow> ?s' < ?s"
    unfolding hiz hiz' by (rule clock_less; simp)+
  define day where "day = sec div 86400"
  define day' where "day' = sec' div 86400"
  have ymd: "y < y' \<or> y = y' \<and> (m < m' \<or> m = m' \<and> d < d')" if "day < day'"
    using that yearDay_mono [OF y y'] monthDay_mono [of yd yd' "isLeap y"] yearDay_start(3) [OF y'] m m'
    by (auto simp: pairLess_def day_def day'_def)
  have ymd': "y' < y \<or> y' = y \<and> (m' < m \<or> m' = m \<and> d' < d)" if "day' < day"
    using that yearDay_mono [OF y' y] monthDay_mono [of yd' yd "isLeap y'"] yearDay_start(3) [OF y] m m'
    by (auto simp: pairLess_def day_def day'_def)
  have eq: "y = y' \<and> m = m' \<and> d = d'" if "day = day'" using that y y' m m' by (simp add: day_def day'_def)
  have B: "y < 10 ^ 4" "y' < 10 ^ 4" "m < 10\<^sup>2" "m' < 10\<^sup>2" "d < 10\<^sup>2" "d' < 10\<^sup>2"
    using Y M by simp_all
  have "dateText sec @ x < dateText sec' @ x' \<longleftrightarrow>
      y < y' \<or> y = y' \<and> (m < m' \<or> m = m' \<and> (d < d' \<or> d = d' \<and>
      (h < h' \<or> h = h' \<and> (i < i' \<or> i = i' \<and> (z < z' \<or> z = z' \<and> x < x')))))"
    unfolding dateText_stamp [OF y m] dateText_stamp [OF y' m'] hiz [symmetric] hiz' [symmetric]
    by (rule stamp_less [OF B S])
  also have "\<dots> \<longleftrightarrow> day < day' \<or> day = day' \<and> (?s < ?s' \<or> ?s = ?s' \<and> x < x')"
  proof -
    have "day < day' \<or> day = day' \<or> day' < day" by (rule less_linear)
    moreover have "?s = ?s' \<longleftrightarrow> \<not> ?s < ?s' \<and> \<not> ?s' < ?s" by (metis less_irrefl linorder_neqE_nat)
    moreover have "\<not> (day < day' \<and> day' < day)" by simp
    ultimately show ?thesis
      using ymd ymd' eq unfolding C [symmetric] by (metis less_linear less_not_sym)
  qed
  also have "\<dots> \<longleftrightarrow> sec < sec' \<or> sec = sec' \<and> x < x'"
    using div_mod_less [of sec 86400 sec'] unfolding day_def day'_def by (metis div_mult_mod_eq)
  finally show ?thesis .
qed

text \<open>Year 10000 starts 315537897600 seconds after the zero time.\<close>

lemma formatTimeFixed_less:
  assumes "0 \<le> t" "0 \<le> t'" "t < 315537897600 * 10 ^ 9" "t' < 315537897600 * 10 ^ 9"
  shows "formatTimeFixed t < formatTimeFixed t' \<longleftrightarrow> t < t'"
proof -
  have sec: "nat t div 1000000000 < 315537897600" "nat t' div 1000000000 < 315537897600"
    using assms by (intro less_mult_imp_div_less; simp)+
  have "formatTimeFixed t < formatTimeFixed t' \<longleftrightarrow>
      nat t div 1000000000 < nat t' div 1000000000 \<or> nat t div 1000000000 = nat t' div 1000000000 \<and>
        nat t mod 1000000000 < nat t' mod 1000000000"
    using sec by (simp add: formatTimeFixed_def nanosPerSecond_def dateText_less Cons_less_Cons field_less)
  also have "\<dots> \<longleftrightarrow> nat t < nat t'" by (rule div_mod_less)
  finally show ?thesis using assms by auto
qed

end
