(* ===== verification/HealthHandler.thy ===== *)
theory HealthHandler
  imports HandlerCore TimeOrder
begin

text \<open>
  \<open>lib/handler/health/handler.go\<close>: health reports of hubs. A report is checked (size, one UTF-8 JSON
  object), the client id must be a hub the user may access (positive answers are remembered in the
  cache of \<open>HubCheckCache\<close>), and the report goes to Kafka inside a message with hub, user and time.
\<close>

section \<open>Construction\<close>

record healthConf =
  hcTopic :: string
  hcKafkaTopic :: string
  hcMaxPayloadSize :: int
  hcDuration :: int

text \<open>The handler: its configuration. Its cache is the \<open>hubCache\<close> of the system state.\<close>

record healthHandler = hhConfig :: healthConf

definition maxHubCheckCacheEntries :: int where
  "maxHubCheckCacheEntries = 100000"

definition Enabled :: "string \<Rightarrow> bool" where
  "Enabled topic \<longleftrightarrow> topic \<noteq> [] \<and> topic \<noteq> ''-''"

definition newHealth :: "healthConf \<Rightarrow> goerror + (healthHandler \<times> hubCheckCache)" where
  "newHealth c =
     (if \<not> Enabled (hcTopic c) then Inl (errorsNew ''missing health mqtt topic'')
      else if \<not> Enabled (hcKafkaTopic c) then Inl (errorsNew ''missing gateway health kafka topic'')
      else if hcMaxPayloadSize c \<le> 0
        then Inl (errorsNew (''invalid health max payload size '' @ showInt (hcMaxPayloadSize c)))
      else Inr (\<lparr>hhConfig = c\<rparr>, newHubCheckCache (hcDuration c) maxHubCheckCacheEntries))"

definition NewFromConfig :: "config \<Rightarrow> goerror + (healthHandler \<times> hubCheckCache)" where
  "NewFromConfig cfg =
     (case parseDuration (HealthHubCheckCacheDuration cfg) of
        Inl e \<Rightarrow> Inl (errorsNew (''invalid HealthHubCheckCacheDuration: '' @ e))
      | Inr cacheDuration \<Rightarrow>
          newHealth \<lparr>hcTopic = HealthTopic cfg, hcKafkaTopic = GatewayHealthTopic cfg,
            hcMaxPayloadSize = HealthMaxPayloadSize cfg, hcDuration = cacheDuration\<rparr>)"

section \<open>The message\<close>

definition isJsonObject :: "string \<Rightarrow> bool" where
  "isJsonObject payload =
     (if \<not> utf8Valid payload \<or> \<not> jsonValid payload then False
      else take 1 (dropWhile (\<lambda>c. c \<in> {CHR '' '', CHR 0x09, CHR 0x0D, CHR 0x0A}) payload) = ''{'')"

text \<open>\<open>Message\<close>; its report is left out when empty, and the code never sets it.\<close>

record healthMessage =
  hmHubId :: string
  hmUserId :: string
  hmTime :: string

definition healthMessageJson :: "healthMessage \<Rightarrow> json" where
  "healthMessageJson m =
     JObj [(''hub_id'', JStr (hmHubId m)), (''user_id'', JStr (hmUserId m)), (''time'', JStr (hmTime m))]"

text \<open>The field name \<open>report\<close> in double quotes, between a comma and a colon.\<close>

definition reportField :: string where
  "reportField = '','' @ quote ''report'' @ '':''"

definition encodeMessage :: "string \<Rightarrow> string \<Rightarrow> int \<Rightarrow> string \<Rightarrow> goerror + string" where
  "encodeMessage hubId userId received report =
     (let header = marshal (healthMessageJson
            \<lparr>hmHubId = hubId, hmUserId = userId, hmTime = formatTimeFixed received\<rparr>)
      in Inr (butlast header @ reportField @ report @ ''}''))"

section \<open>Publish and Subscribe\<close>

definition reportTooLargeErr :: "nat \<Rightarrow> int \<Rightarrow> goerror" where
  "reportTooLargeErr n m = GoError (''health report too large: '' @ showNat n @ '' bytes, at most '' @
     showInt m @ '' allowed'') [ErrReportTooLarge]"

definition invalidReportErr :: goerror where
  "invalidReportErr = GoError ''health report is not a json object'' [ErrInvalidReport]"

definition hubNotAccessibleErr :: goerror where
  "hubNotAccessibleErr = GoError ''client id is not a hub accessible by the user'' [ErrHubAccessDenied]"

definition missingUserIdErr :: goerror where
  "missingUserIdErr = GoError ''user token without user id'' [ErrMissingUserId]"

abbreviation callNow :: "'w connector \<Rightarrow> ('w, int) io" where
  "callNow cn \<equiv> perform (timeNow cn) CNow"

definition isAccessibleHub :: "'w connector \<Rightarrow> string \<Rightarrow> string \<Rightarrow> string \<Rightarrow> ('w, goerror + bool) io" where
  "isAccessibleHub cn user hubId token =
     (if hubId = [] \<or> hubId = ''.'' \<or> hubId = ''..'' then ret (Inr False)
      else do {
        t1 \<leftarrow> callNow cn;
        c1 \<leftarrow> readCache;
        if cacheHas c1 (user, hubId) t1 then ret (Inr True)
        else do {
          (exists, err) \<leftarrow> callExistsHub cn hubId token;
          case err of
            Some e \<Rightarrow> ret (Inl e)
          | None \<Rightarrow>
              (if \<not> exists then ret (Inr False)
               else do {
                 t2 \<leftarrow> callNow cn;
                 c2 \<leftarrow> readCache;
                 _ \<leftarrow> writeCache (cacheAdd c2 (user, hubId) t2);
                 ret (Inr True)
               })
        }
      })"

text \<open>\<open>platform_connector_lib.Sync\<close>, a constant of the platform library, is the argument \<open>syncQos\<close>.\<close>

definition healthSubscribe ::
  "healthHandler \<Rightarrow> string \<Rightarrow> string \<Rightarrow> string \<Rightarrow> ('w, result \<times> goerror option) io" where
  "healthSubscribe this clientId user topic =
     (if topic \<noteq> hcTopic (hhConfig this) then ret (Unhandled, None) else ret (Rejected, None))"

text \<open>The last part of \<open>Publish\<close>, from the answer of the hub check on.\<close>

definition healthForward ::
  "'w connector \<Rightarrow> int \<Rightarrow> string \<Rightarrow> string \<Rightarrow> string \<Rightarrow> string \<Rightarrow> bool \<Rightarrow> ('w, result \<times> goerror option) io" where
  "healthForward cn syncQos kafkaTopic clientId token payload accessible =
     (if \<not> accessible then ret (Rejected, Some hubNotAccessibleErr)
      else (case jwtGetPayload cn token of
        Inl e \<Rightarrow> ret (Error, Some e)
      | Inr jp \<Rightarrow>
          (if plUserId jp = [] then ret (Error, Some missingUserIdErr)
           else do {
             now \<leftarrow> callNow cn;
             case encodeMessage clientId (plUserId jp) now payload of
               Inl e \<Rightarrow> ret (Error, Some e)
             | Inr msg \<Rightarrow> do {
                 p \<leftarrow> perform (getProducer cn syncQos) (CGetProducer syncQos);
                 case p of
                   Some e \<Rightarrow> ret (Error, Some e)
                 | None \<Rightarrow> do {
                     r \<leftarrow> perform (produceWithKey cn syncQos kafkaTopic msg clientId)
                           (CProduce syncQos kafkaTopic msg clientId);
                     case r of
                       Some e \<Rightarrow> ret (Error, Some e)
                     | None \<Rightarrow> ret (Accepted, None)
                   }
               }
           })))"

definition healthPublish ::
  "'w connector \<Rightarrow> int \<Rightarrow> healthHandler \<Rightarrow> string \<Rightarrow> string \<Rightarrow> string \<Rightarrow> string \<Rightarrow> int \<Rightarrow> nat \<Rightarrow>
   ('w, result \<times> goerror option) io" where
  "healthPublish cn syncQos this clientId user topic payload qos sz =
     (let c = hhConfig this in
      if topic \<noteq> hcTopic c then ret (Unhandled, None)
      else if hcMaxPayloadSize c < int (length payload)
        then ret (Rejected, Some (reportTooLargeErr (length payload) (hcMaxPayloadSize c)))
      else if \<not> isJsonObject payload then ret (Rejected, Some invalidReportErr)
      else do {
        t \<leftarrow> callToken cn user;
        case t of
          Inl e \<Rightarrow> ret (Error, Some e)
        | Inr token \<Rightarrow> do {
            a \<leftarrow> isAccessibleHub cn user clientId token;
            case a of
              Inl e \<Rightarrow> ret (Error, Some e)
            | Inr accessible \<Rightarrow> healthForward cn syncQos (hcKafkaTopic c) clientId token payload accessible
          }
      })"

definition healthHandlerOf :: "'w connector \<Rightarrow> int \<Rightarrow> healthHandler \<Rightarrow> 'w handler" where
  "healthHandlerOf cn syncQos h = \<lparr>hSubscribe = healthSubscribe h, hPublish = healthPublish cn syncQos h\<rparr>"

section \<open>The interface\<close>

lemma logs_isAccessibleHub [logs_intros]: "logs (isAccessibleHub cn u h token)"
  unfolding isAccessibleHub_def by (intro logs_intros)

lemma quiet_healthForward [quiet_intros]: "quiet (healthForward cn q k c token p b)"
  unfolding healthForward_def by (intro quiet_intros)

lemma logs_healthForward [logs_intros]: "logs (healthForward cn q k c token p b)"
  by (rule quiet_logs [OF quiet_healthForward])

lemma yields_healthForward [yields_intros]: "yields publishOk (healthForward cn q k c token p b)"
  unfolding healthForward_def by (intro yields_intros; simp)

interpretation healthH: prefix_handler "healthHandlerOf cn syncQos h" "hcTopic (hhConfig h)"
  for cn :: "'w connector" and syncQos h
proof (intro prefix_handler.intro topic_handler_logsI prefix_handler_axioms.intro)
  show "yields publishOk (hPublish (healthHandlerOf cn syncQos h) c u t p q z)"
    and "logs (hPublish (healthHandlerOf cn syncQos h) c u t p q z)" for c u t p q z
    unfolding healthHandlerOf_def healthPublish_def handler.simps by (intro yields_intros logs_intros; simp)+
  show "yields subscribeOk (hSubscribe (healthHandlerOf cn syncQos h) c u t)"
    and "logs (hSubscribe (healthHandlerOf cn syncQos h) c u t)" for c u t
    unfolding healthHandlerOf_def healthSubscribe_def handler.simps by (intro yields_intros logs_intros; simp)+
qed (auto simp: healthHandlerOf_def healthSubscribe_def healthPublish_def Let_def)

section \<open>The message is one JSON object with the report in it\<close>

lemma utf8Valid_padNum: "utf8Valid (padNum w n)"
proof -
  have "byte (char_of (48 + k mod 10) :: char) < 0x80" for k :: nat
    by (simp add: mod_less [of "48 + k mod 10" 256] del: mod_less)
  then show ?thesis by (intro utf8Valid_ascii) (auto simp: padNum_def)
qed

lemma utf8Valid_dateText: "utf8Valid (dateText n)"
  by (auto simp: dateText_def Let_def split: prod.splits intro!: utf8Valid_append utf8Valid_padNum)

lemma utf8Valid_formatTimeFixed: "utf8Valid (formatTimeFixed t)"
  by (auto simp: formatTimeFixed_def intro!: utf8Valid_append utf8Valid_dateText utf8Valid_padNum)

lemma normUtf8_names: "normUtf8 ''hub_id'' = ''hub_id''" "normUtf8 ''user_id'' = ''user_id''"
  "normUtf8 ''time'' = ''time''" "normUtf8 ''report'' = ''report''"
  by (simp_all add: normUtf8_valid utf8Valid_ascii)

lemma butlast_close: "butlast (xs @ [c]) = xs"
  by simp

text \<open>The spliced text, member by member.\<close>

lemma encodeMessage_text:
  "encodeMessage h u t report = Inr (CHR ''{'' # quote ''hub_id'' @ CHR '':'' # quote h @ CHR '','' #
     quote ''user_id'' @ CHR '':'' # quote u @ CHR '','' # quote ''time'' @ CHR '':'' #
     quote (formatTimeFixed t) @ CHR '','' # quote ''report'' @ CHR '':'' # report @ ''}'')"
  unfolding encodeMessage_def healthMessageJson_def reportField_def Let_def
  by (simp add: butlast_append)

lemma parses_obj_quote:
  "parsesM d (quote k @ t) ms r \<Longrightarrow> parses (Suc d) (CHR ''{'' # quote k @ t) (JObj ms) r"
  unfolding quote_def append_Cons by (rule parses_obj)

lemma encodeMessage_parses:
  assumes "parseDepth d report = Some v"
  obtains msg where "encodeMessage h u t report = Inr msg"
    "parseDepth (Suc d) msg = Some (JObj [(''hub_id'', JStr (normUtf8 h)), (''user_id'', JStr (normUtf8 u)),
       (''time'', JStr (formatTimeFixed t)), (''report'', v)])"
proof -
  obtain r where r: "parses d report v r" "skipWs r = []" using assms by (auto simp: parseDepth_iff)
  have "parses d (report @ ''}'') v (r @ ''}'')"
    by (rule parses_append [OF r(1)]) (simp add: stops_delim)
  moreover have "skipWs (r @ ''}'') = CHR ''}'' # []"
    using r(2) by (induction r) (auto simp: skipWs_def isWs_def split: if_splits)
  ultimately have "parsesM d (quote ''report'' @ CHR '':'' # report @ ''}'') [(normUtf8 ''report'', v)] []"
    by (rule parsesM_last)
  then have "parsesM d (quote ''time'' @ CHR '':'' # quote (formatTimeFixed t) @ CHR '','' #
      quote ''report'' @ CHR '':'' # report @ ''}'')
      [(normUtf8 ''time'', JStr (normUtf8 (formatTimeFixed t))), (normUtf8 ''report'', v)] []"
    by (intro parsesM_more [OF parses_str]) (simp_all add: skipWs_delim)
  then have "parsesM d (quote ''user_id'' @ CHR '':'' # quote u @ CHR '','' # quote ''time'' @ CHR '':'' #
      quote (formatTimeFixed t) @ CHR '','' # quote ''report'' @ CHR '':'' # report @ ''}'')
      [(normUtf8 ''user_id'', JStr (normUtf8 u)), (normUtf8 ''time'', JStr (normUtf8 (formatTimeFixed t))),
       (normUtf8 ''report'', v)] []"
    by (intro parsesM_more [OF parses_str]) (simp_all add: skipWs_delim)
  then have "parsesM d (quote ''hub_id'' @ CHR '':'' # quote h @ CHR '','' # quote ''user_id'' @ CHR '':'' #
      quote u @ CHR '','' # quote ''time'' @ CHR '':'' # quote (formatTimeFixed t) @ CHR '','' #
      quote ''report'' @ CHR '':'' # report @ ''}'')
      [(normUtf8 ''hub_id'', JStr (normUtf8 h)), (normUtf8 ''user_id'', JStr (normUtf8 u)),
       (normUtf8 ''time'', JStr (normUtf8 (formatTimeFixed t))), (normUtf8 ''report'', v)] []"
    by (intro parsesM_more [OF parses_str]) (simp_all add: skipWs_delim)
  from parses_obj_quote [OF this]
  have "parseDepth (Suc d) (CHR ''{'' # quote ''hub_id'' @ CHR '':'' # quote h @ CHR '','' #
      quote ''user_id'' @ CHR '':'' # quote u @ CHR '','' # quote ''time'' @ CHR '':'' #
      quote (formatTimeFixed t) @ CHR '','' # quote ''report'' @ CHR '':'' # report @ ''}'') =
      Some (JObj [(normUtf8 ''hub_id'', JStr (normUtf8 h)), (normUtf8 ''user_id'', JStr (normUtf8 u)),
       (normUtf8 ''time'', JStr (normUtf8 (formatTimeFixed t))), (normUtf8 ''report'', v)])"
    unfolding parseDepth_iff by (intro exI [of _ "[]"]) (simp add: skipWs_def)
  from that [OF encodeMessage_text this [unfolded normUtf8_names normUtf8_valid [OF utf8Valid_formatTimeFixed]]]
  show ?thesis .
qed

lemma encodeMessage_utf8:
  "utf8Valid report \<Longrightarrow> encodeMessage h u t report = Inr msg \<Longrightarrow> utf8Valid msg"
  unfolding encodeMessage_text
  by (auto intro!: utf8Valid_append utf8Valid_quote)

section \<open>What an accepted report has passed\<close>

text \<open>
  Every entry of the cache is backed by the log: a token of that very user, a positive answer of the
  hub service for it, and a time, whose sum with the duration is the expiry.
\<close>

definition backed :: "call list \<Rightarrow> int \<Rightarrow> string \<Rightarrow> string \<Rightarrow> int \<Rightarrow> bool" where
  "backed cs d u h e \<longleftrightarrow> (\<exists>token t. CToken u (Inr token) \<in> set cs \<and>
     CExistsHub h token (True, None) \<in> set cs \<and> CNow t \<in> set cs \<and> e = t + d)"

definition cacheBacked :: "'w sys \<Rightarrow> bool" where
  "cacheBacked s \<longleftrightarrow> (\<forall>u h e. fmlookup (expiry (hubCache s)) (u, h) = Some e \<longrightarrow>
     backed (calls s) (duration (hubCache s)) u h e)"

lemma backed_mono: "backed cs d u h e \<Longrightarrow> set cs \<subseteq> set cs' \<Longrightarrow> backed cs' d u h e"
  unfolding backed_def by blast

lemma extends_set: "extends s s' \<Longrightarrow> set (calls s) \<subseteq> set (calls s')"
  by (auto simp: extends_def)

lemma newCalls_set: "extends s s' \<Longrightarrow> set (newCalls s s') \<subseteq> set (calls s')"
  by (auto simp: extends_def newCalls_def)

lemma cacheBacked_new: "hubCache s = newHubCheckCache d m \<Longrightarrow> cacheBacked s"
  by (simp add: cacheBacked_def newHubCheckCache_def)

lemma cacheBacked_extend:
  assumes "cacheBacked s" "extends s s'" "hubCache s' = hubCache s"
  shows "cacheBacked s'"
  using assms(1) backed_mono [OF _ extends_set [OF assms(2)]] unfolding cacheBacked_def assms(3) by blast

lemma cacheBacked_add:
  assumes "cacheBacked s" "extends s s'" "hubCache s' = cacheAdd (hubCache s) (u, h) t"
    and "CToken u (Inr token) \<in> set (calls s')" "CExistsHub h token (True, None) \<in> set (calls s')"
    and "CNow t \<in> set (calls s')"
  shows "cacheBacked s'"
  unfolding cacheBacked_def
proof (intro allI impI)
  fix u' h' e
  assume "fmlookup (expiry (hubCache s')) (u', h') = Some e"
  with assms(3) consider "fmlookup (expiry (hubCache s)) (u', h') = Some e"
    | "(u', h') = (u, h)" "e = t + duration (hubCache s)"
    using cacheAdd_lookup [of "hubCache s" "(u, h)" t "(u', h')" e] by auto
  then show "backed (calls s') (duration (hubCache s')) u' h' e"
  proof cases
    case 1
    then show ?thesis
      using assms(1,3) backed_mono [OF _ extends_set [OF assms(2)]] by (auto simp: cacheBacked_def)
  next
    case 2
    then show ?thesis using assms(3-6) by (auto simp: backed_def)
  qed
qed

lemma cacheBacked_quiet: "quiet m \<Longrightarrow> run_state m s = (a, s') \<Longrightarrow> cacheBacked s \<Longrightarrow> cacheBacked s'"
  using quietD [of m s a s'] cacheBacked_extend by blast

text \<open>The handler's view of one hub check: the log grows, the cache changes by \<open>add\<close> only.\<close>

definition badHubId :: "string \<Rightarrow> bool" where
  "badHubId h \<longleftrightarrow> h = [] \<or> h = ''.'' \<or> h = ''..''"

lemma isAccessibleHub_run:
  assumes "run_state (isAccessibleHub cn u h token) s = (a, s')"
  obtains (empty) "badHubId h" "a = Inr False" "s' = s"
  | (cached) t where "\<not> badHubId h" "a = Inr True" "cacheHas (hubCache s) (u, h) t"
      "hubCache s' = hubCache s" "calls s' = calls s @ [CNow t]"
  | (failed) t x e where "a = Inl e" "calls s' = calls s @ [CNow t, CExistsHub h token (x, Some e)]"
      "hubCache s' = hubCache s" "\<not> badHubId h" "\<not> cacheHas (hubCache s) (u, h) t"
  | (denied) t where "a = Inr False" "calls s' = calls s @ [CNow t, CExistsHub h token (False, None)]"
      "hubCache s' = hubCache s" "\<not> badHubId h" "\<not> cacheHas (hubCache s) (u, h) t"
  | (checked) t t' where "\<not> badHubId h" "a = Inr True"
      "calls s' = calls s @ [CNow t, CExistsHub h token (True, None), CNow t']"
      "hubCache s' = cacheAdd (hubCache s) (u, h) t'" "\<not> cacheHas (hubCache s) (u, h) t"
proof (cases "badHubId h")
  case True
  with assms empty show ?thesis by (auto simp: isAccessibleHub_def badHubId_def io_simps)
next
  case good: False
  obtain t w1 where t: "timeNow cn (world s) = (t, w1)" by (metis surj_pair)
  obtain x err w2 where x: "existsHub cn h token w1 = ((x, err), w2)" by (metis surj_pair)
  obtain t' w3 where t': "timeNow cn w2 = (t', w3)" by (metis surj_pair)
  show ?thesis
  proof (cases "cacheHas (hubCache s) (u, h) t")
    case True
    with good t assms show ?thesis
      by (intro cached [of t]) (auto simp: isAccessibleHub_def badHubId_def io_simps)
  next
    case False
    show ?thesis
    proof (cases err)
      case (Some e)
      with good t x assms False show ?thesis
        by (intro failed [of e t x]) (auto simp: isAccessibleHub_def badHubId_def io_simps)
    next
      case None
      with good t x t' assms False denied [of t] checked [of t t'] show ?thesis
        by (cases x) (auto simp: isAccessibleHub_def badHubId_def io_simps)
    qed
  qed
qed

lemma isAccessibleHub_backed:
  assumes "run_state (isAccessibleHub cn u h token) s = (a, s')" "cacheBacked s"
    and "CToken u (Inr token) \<in> set (calls s)"
  shows "cacheBacked s'" "a = Inr True \<Longrightarrow> \<not> badHubId h \<and> (\<exists>e. backed (calls s') (duration (hubCache s')) u h e)"
proof -
  have ext: "extends s s'" using logs_isAccessibleHub assms(1) by (rule logsD)
  have "cacheBacked s' \<and>
    (a = Inr True \<longrightarrow> \<not> badHubId h \<and> (\<exists>e. backed (calls s') (duration (hubCache s')) u h e))"
    using assms(1)
  proof (cases rule: isAccessibleHub_run)
    case empty
    with assms(2) show ?thesis by simp
  next
    case (cached t)
    obtain e where "fmlookup (expiry (hubCache s)) (u, h) = Some e"
      using cached(3) by (auto simp: cacheHas_def split: if_splits option.splits)
    moreover have "cacheBacked s'" by (rule cacheBacked_extend [OF assms(2) ext cached(4)])
    ultimately show ?thesis using cached unfolding cacheBacked_def by auto
  next
    case (failed t x e)
    with cacheBacked_extend [OF assms(2) ext] show ?thesis by simp
  next
    case (denied t)
    with cacheBacked_extend [OF assms(2) ext] show ?thesis by simp
  next
    case (checked t t')
    then have "cacheBacked s'" using assms(3) by (intro cacheBacked_add [OF assms(2) ext checked(4)]) auto
    moreover have "backed (calls s') (duration (hubCache s')) u h (t' + duration (hubCache s'))"
      unfolding backed_def using checked assms(3) by auto
    ultimately show ?thesis using checked(1) by blast
  qed
  then show "cacheBacked s'"
    "a = Inr True \<Longrightarrow> \<not> badHubId h \<and> (\<exists>e. backed (calls s') (duration (hubCache s')) u h e)" by blast+
qed

text \<open>An accepted report, step by step; \<open>s1\<close> and \<open>s2\<close> are the states before and after the hub check.\<close>

lemma newCalls_append: "calls s' = calls s @ cs \<Longrightarrow> newCalls s s' = cs"
  by (simp add: newCalls_def)

lemma isAccessibleHub_calls:
  assumes "run_state (isAccessibleHub cn u h token) s = (a, s')"
  shows "\<exists>cs. calls s' = calls s @ cs \<and> (\<forall>q t m k r. CProduce q t m k r \<notin> set cs)"
  using assms by (cases rule: isAccessibleHub_run) auto

lemma healthForward_accepted:
  assumes "run_state (healthForward cn q k c token p b) s = ((Accepted, e), s')"
  obtains jp now msg where "b" "jwtGetPayload cn token = Inr jp" "plUserId jp \<noteq> []"
    "encodeMessage c (plUserId jp) now p = Inr msg"
    "calls s' = calls s @ [CNow now, CGetProducer q None, CProduce q k msg c None]" "e = None"
  using assms
  by (auto simp: healthForward_def io_simps split: sum.splits if_splits option.splits prod.splits)

text \<open>A run of the handler: refused at once, stopped by the token or the hub check, or forwarded.\<close>

lemma healthPublish_run:
  assumes "run_state (healthPublish cn sq hh c u t p q z) s = (x, s')"
  obtains (early) "s' = s" "fst x \<noteq> Accepted"
  | (noToken) e where "run_state (callToken cn u) s = (Inl e, s')" "fst x = Error"
  | (checked) token s1 a s2 where "t = hcTopic (hhConfig hh)"
      "int (length p) \<le> hcMaxPayloadSize (hhConfig hh)" "isJsonObject p"
      "run_state (callToken cn u) s = (Inr token, s1)"
      "run_state (isAccessibleHub cn u c token) s1 = (a, s2)"
      "(\<exists>e. a = Inl e \<and> x = (Error, Some e) \<and> s' = s2) \<or>
       (\<exists>b. a = Inr b \<and> run_state (healthForward cn sq (hcKafkaTopic (hhConfig hh)) c token p b) s2 = (x, s'))"
proof (cases "t = hcTopic (hhConfig hh) \<and> int (length p) \<le> hcMaxPayloadSize (hhConfig hh) \<and> isJsonObject p")
  case False
  with assms early show ?thesis by (auto simp: healthPublish_def Let_def run_state_ret split: if_splits)
next
  case pre: True
  obtain tok s1 where tok: "run_state (callToken cn u) s = (tok, s1)" by (metis surj_pair)
  show ?thesis
  proof (cases tok)
    case (Inl e)
    with assms pre tok noToken [of e] show ?thesis
      by (auto simp: healthPublish_def Let_def run_state_bind [of "callToken cn u"])
  next
    case (Inr token)
    obtain a s2 where acc: "run_state (isAccessibleHub cn u c token) s1 = (a, s2)" by (metis surj_pair)
    from assms pre tok acc show ?thesis unfolding Inr
      by (intro checked [of token s1 a s2])
        (auto simp: healthPublish_def Let_def run_state_bind [of "callToken cn u"]
          run_state_bind [of "isAccessibleHub cn u c token"] split: sum.splits)
  qed
qed

lemma callToken_run:
  "run_state (callToken cn u) s = (tok, s1) \<Longrightarrow> calls s1 = calls s @ [CToken u tok] \<and> hubCache s1 = hubCache s"
  by (auto simp: run_perform split: prod.splits)

lemma healthPublish_backed:
  assumes "run_state (healthPublish cn sq hh c u t p q z) s = (x, s')" "cacheBacked s"
  shows "cacheBacked s'"
  using assms(1)
proof (cases rule: healthPublish_run)
  case (noToken e)
  then show ?thesis by (intro cacheBacked_quiet [OF quiet_perform _ assms(2)])
next
  case (checked token s1 a s2)
  have "cacheBacked s1" by (rule cacheBacked_quiet [OF quiet_perform checked(4) assms(2)])
  then have "cacheBacked s2"
    using isAccessibleHub_backed(1) [OF checked(5)] callToken_run [OF checked(4)] by simp
  with checked(6) show ?thesis using cacheBacked_quiet [OF quiet_healthForward] by blast
qed (use assms(2) in simp)

lemma healthPublish_accepted:
  assumes "run_state (healthPublish cn sq hh c u t p q z) s = ((Accepted, e), s')" "cacheBacked s"
  obtains token jp now msg cs d where "t = hcTopic (hhConfig hh)" "isJsonObject p"
    "int (length p) \<le> hcMaxPayloadSize (hhConfig hh)" "\<not> badHubId c"
    "newCalls s s' = CToken u (Inr token) # cs @
       [CNow now, CGetProducer sq None, CProduce sq (hcKafkaTopic (hhConfig hh)) msg c None]"
    "\<forall>q t m k r. CProduce q t m k r \<notin> set cs" "backed (calls s') (duration (hubCache s')) u c d"
    "jwtGetPayload cn token = Inr jp" "plUserId jp \<noteq> []" "encodeMessage c (plUserId jp) now p = Inr msg"
  using assms(1)
proof (cases rule: healthPublish_run)
  case (checked token s1 a s2)
  from checked(6) obtain b where b: "a = Inr b"
    "run_state (healthForward cn sq (hcKafkaTopic (hhConfig hh)) c token p b) s2 = ((Accepted, e), s')"
    by auto
  then have "b" by (auto elim!: healthForward_accepted)
  with b have a: "a = Inr True" and fwd:
    "run_state (healthForward cn sq (hcKafkaTopic (hhConfig hh)) c token p True) s2 = ((Accepted, e), s')"
    by auto
  have s1: "calls s1 = calls s @ [CToken u (Inr token)]" "hubCache s1 = hubCache s"
    using callToken_run [OF checked(4)] by auto
  have "cacheBacked s1" by (rule cacheBacked_quiet [OF quiet_perform checked(4) assms(2)])
  from isAccessibleHub_backed(2) [OF checked(5) this] s1 a
  obtain d where d: "\<not> badHubId c" "backed (calls s2) (duration (hubCache s2)) u c d" by auto
  obtain cs where cs: "calls s2 = calls s1 @ cs" "\<forall>q t m k r. CProduce q t m k r \<notin> set cs"
    using isAccessibleHub_calls [OF checked(5)] by blast
  have same: "extends s2 s'" "hubCache s' = hubCache s2" using quietD [OF quiet_healthForward fwd] by auto
  from fwd show ?thesis
  proof (cases rule: healthForward_accepted)
    case (1 jp now msg)
    show ?thesis
      by (rule that [OF checked(1,3,2) d(1) _ cs(2) _ 1(2-4)])
        (use 1 s1 cs same backed_mono [OF d(2) extends_set [OF same(1)]] in \<open>auto simp: newCalls_append\<close>)
  qed
qed simp_all

text \<open>What passes the check is an object, blanks around it.\<close>

lemma isJsonObject_obj:
  assumes "isJsonObject p"
  obtains ms where "parseJson p = Some (JObj ms)" "utf8Valid p"
proof -
  from assms obtain v where v: "parseJson p = Some v" and u: "utf8Valid p"
    and h: "take 1 (dropWhile (\<lambda>c. c \<in> {CHR '' '', CHR 0x09, CHR 0x0D, CHR 0x0A}) p) = ''{''"
    by (auto simp: isJsonObject_def jsonValid_def split: if_splits)
  have ws: "dropWhile (\<lambda>c. c \<in> {CHR '' '', CHR 0x09, CHR 0x0D, CHR 0x0A}) p = skipWs p"
    unfolding skipWs_def isWs_def by (rule dropWhile_cong) auto
  have "take 1 (skipWs p) = ''{''" using h unfolding ws .
  then obtain t where t: "skipWs p = CHR ''{'' # t" by (cases "skipWs p") simp_all
  from v obtain r where "parses maxNestingDepth p v r"
    unfolding parseJson_def parseDepth_iff by blast
  then obtain n where "pValue n maxNestingDepth p = Some (v, r)" unfolding parses_def by blast
  then obtain ms where "v = JObj ms"
  proof (cases rule: pValue_elim)
    case (tru m t')
    with t show ?thesis by simp
  next
    case (fls m t')
    with t show ?thesis by simp
  next
    case (nul m t')
    with t show ?thesis by simp
  qed (use t that in auto)
  with v u that show ?thesis by blast
qed

end
