(* ===== verification/GoBase64.thy ===== *)
theory GoBase64
  imports GoJson
begin

text \<open>
  \<open>base64.StdEncoding\<close>: encoding with padding, and decoding with line breaks skipped, where an error is
  the position of the byte it is reported for. Shown here: decoding undoes encoding.
\<close>

definition b64Chars :: string where
  "b64Chars = ''ABCDEFGHIJKLMNOPQRSTUVWXYZabcdefghijklmnopqrstuvwxyz0123456789+/''"

definition b64Char :: "nat \<Rightarrow> char" where
  "b64Char n = b64Chars ! n"

definition b64Val :: "char \<Rightarrow> nat option" where
  "b64Val c =
     (if inRange 0x41 0x5A c then Some (byte c - 0x41)
      else if inRange 0x61 0x7A c then Some (byte c - 0x61 + 26)
      else if inRange 0x30 0x39 c then Some (byte c - 0x30 + 52)
      else if c = CHR ''+'' then Some 62
      else if c = CHR 0x2F then Some 63
      else None)"

fun b64Encode :: "string \<Rightarrow> string" where
  "b64Encode [] = []"
| "b64Encode [a] = [b64Char (byte a div 4), b64Char (byte a mod 4 * 16), CHR ''='', CHR ''='']"
| "b64Encode [a, b] = [b64Char (byte a div 4), b64Char (byte a mod 4 * 16 + byte b div 16),
     b64Char (byte b mod 16 * 4), CHR ''='']"
| "b64Encode (a # b # c # s) = b64Char (byte a div 4) # b64Char (byte a mod 4 * 16 + byte b div 16) #
     b64Char (byte b mod 16 * 4 + byte c div 64) # b64Char (byte c mod 64) # b64Encode s"

definition isNl :: "char \<Rightarrow> bool" where
  "isNl c \<longleftrightarrow> c = CHR 0x0A \<or> c = CHR 0x0D"

definition skipNl :: "string \<Rightarrow> string" where
  "skipNl s = dropWhile isNl s"

text \<open>After the padding only line breaks may follow; \<open>n\<close> is the length of the whole text.\<close>

definition b64End :: "nat \<Rightarrow> nat list \<Rightarrow> string \<Rightarrow> nat + (nat list \<times> string)" where
  "b64End n acc s = (let t = skipNl s in if t = [] then Inr (acc, []) else Inl (n - length t))"

text \<open>One quantum of up to four characters; positions are \<open>n\<close> less what is left.\<close>

fun b64Quantum :: "nat \<Rightarrow> nat list \<Rightarrow> string \<Rightarrow> nat + (nat list \<times> string)" where
  "b64Quantum n acc s =
     (if length acc = 4 then Inr (acc, s)
      else case s of
        [] \<Rightarrow> (if acc = [] then Inr ([], []) else Inl (n - length acc))
      | c # t \<Rightarrow>
          (case b64Val c of
             Some v \<Rightarrow> b64Quantum n (acc @ [v]) t
           | None \<Rightarrow>
               (if isNl c then b64Quantum n acc t
                else if c \<noteq> CHR ''='' \<or> length acc < 2 then Inl (n - length s)
                else if length acc = 2 then
                  (case skipNl t of
                     [] \<Rightarrow> Inl n
                   | d # u \<Rightarrow> if d \<noteq> CHR ''='' then Inl (n - length (d # u) - 1) else b64End n acc u)
                else b64End n acc t)))"

declare b64Quantum.simps [simp del]

definition b64Bytes :: "nat list \<Rightarrow> string" where
  "b64Bytes vs = (case vs of
     [p, q, r, s] \<Rightarrow> [char_of (p * 4 + q div 16), char_of (q mod 16 * 16 + r div 4), char_of (r mod 4 * 64 + s)]
   | [p, q, r] \<Rightarrow> [char_of (p * 4 + q div 16), char_of (q mod 16 * 16 + r div 4)]
   | [p, q] \<Rightarrow> [char_of (p * 4 + q div 16)]
   | _ \<Rightarrow> [])"

lemma skipNl_length: "length (skipNl s) \<le> length s"
  by (simp add: skipNl_def length_dropWhile_le)

lemma b64End_length: "b64End n acc s = Inr (vs, r) \<Longrightarrow> length r \<le> length s"
  by (auto simp: b64End_def Let_def split: if_splits)

lemma b64Quantum_length:
  "b64Quantum n acc s = Inr (vs, r) \<Longrightarrow> length acc < 4 \<Longrightarrow> s \<noteq> [] \<Longrightarrow> length r < length s"
proof (induction n acc s rule: b64Quantum.induct)
  case (1 n acc s)
  then obtain c t where s: "s = c # t" by (cases s) auto
  show ?case
  proof (cases "b64Val c")
    case (Some v)
    with 1(3,4) s have q: "b64Quantum n (acc @ [v]) t = Inr (vs, r)"
      by (simp add: b64Quantum.simps [of n acc])
    show ?thesis
    proof (cases "t = [] \<or> length acc = 3")
      case True
      with q s show ?thesis
        by (auto simp: b64Quantum.simps [of n "acc @ [v]"] split: if_splits)
    next
      case False
      with 1(2) [OF _ s Some q] 1(4) s show ?thesis by auto
    qed
  next
    case None
    show ?thesis
    proof (cases "isNl c")
      case True
      with None 1(3,4) s have q: "b64Quantum n acc t = Inr (vs, r)"
        by (simp add: b64Quantum.simps [of n acc "c # t"])
      show ?thesis
      proof (cases t)
        case Nil
        with q 1(4) s show ?thesis by (auto simp: b64Quantum.simps [of n acc] split: if_splits)
      next
        case (Cons d u)
        with 1(1) [OF _ s None True q] 1(4) s show ?thesis by auto
      qed
    next
      case False
      with None 1(3,4) s skipNl_length [of t] show ?thesis
        by (auto simp: b64Quantum.simps [of n acc "c # t"] split: if_splits list.splits
            dest!: b64End_length)
    qed
  qed
qed

text \<open>The loop over the quanta; \<open>k\<close> is fuel, one per byte is enough.\<close>

fun b64Loop :: "nat \<Rightarrow> nat \<Rightarrow> string \<Rightarrow> nat + string" where
  "b64Loop 0 n s = Inl n"
| "b64Loop (Suc k) n s =
     (if s = [] then Inr []
      else (case b64Quantum n [] s of
        Inl p \<Rightarrow> Inl p
      | Inr (vs, r) \<Rightarrow> (case b64Loop k n r of Inl p \<Rightarrow> Inl p | Inr t \<Rightarrow> Inr (b64Bytes vs @ t))))"

definition b64Decode :: "string \<Rightarrow> nat + string" where
  "b64Decode s = b64Loop (length s + 1) (length s) s"

lemma b64Loop_enough: "length s < k \<Longrightarrow> length s < m \<Longrightarrow> b64Loop k n s = b64Loop m n s"
proof (induction k arbitrary: m s)
  case (Suc k)
  then obtain j where m: "m = Suc j" by (cases m) auto
  show ?case
  proof (cases "s = []")
    case False
    show ?thesis
    proof (cases "b64Quantum n [] s")
      case (Inr p)
      obtain vs r where p: "p = (vs, r)" by (cases p)
      then have "length r < length s" using b64Quantum_length [of n "[]" s vs r] Inr False by simp
      then have "b64Loop k n r = b64Loop j n r" using Suc.prems m by (intro Suc.IH) auto
      then show ?thesis using Inr p m by simp
    qed (simp add: m)
  qed (simp add: m)
qed simp

lemma b64Val_Char: "n < 64 \<Longrightarrow> b64Val (b64Char n) = Some n"
proof -
  assume "n < 64"
  then have "n \<in> set [0..<64]" by simp
  moreover have "\<forall>m \<in> set [0..<64]. b64Val (b64Char m) = Some m" by code_simp
  ultimately show ?thesis by blast
qed

lemma b64Quantum_Char:
  "length acc < 4 \<Longrightarrow> v < 64 \<Longrightarrow> b64Quantum n acc (b64Char v # t) = b64Quantum n (acc @ [v]) t"
  by (simp add: b64Quantum.simps [of n acc] b64Val_Char)

lemma b64Quantum_pads:
  "b64Quantum n [p, q] [CHR ''='', CHR ''=''] = Inr ([p, q], [])"
  "b64Quantum n [p, q, r] [CHR ''=''] = Inr ([p, q, r], [])"
  by (simp_all add: b64Quantum.simps b64Val_def inRange_def isNl_def skipNl_def b64End_def)

lemma byte_pieces:
  "byte a div 4 < 64" "byte a mod 4 * 16 + byte b div 16 < 64" "byte a mod 4 * 16 < 64"
  "byte b mod 16 * 4 + byte c div 64 < 64" "byte b mod 16 * 4 < 64" "byte c mod 64 < 64"
proof -
  have "byte a div 4 < 64" "byte b div 16 < 16" "byte c div 64 < 4"
    by (simp_all add: less_mult_imp_div_less)
  moreover have "byte a mod 4 < 4" "byte b mod 16 < 16" by simp_all
  ultimately show "byte a div 4 < 64" "byte a mod 4 * 16 + byte b div 16 < 64" "byte a mod 4 * 16 < 64"
    "byte b mod 16 * 4 + byte c div 64 < 64" "byte b mod 16 * 4 < 64" "byte c mod 64 < 64"
    by linarith+
qed

lemma byte_joined:
  "(char_of (byte a div 4 * 4 + (byte a mod 4 * 16 + k) div 16) :: char) = a" if "k < 16"
  using that by simp

lemma b64Loop_encode: "length (b64Encode s) < k \<Longrightarrow> b64Loop k n (b64Encode s) = Inr s"
proof (induction s arbitrary: k rule: b64Encode.induct)
  case 1
  then show ?case by (cases k) auto
next
  case (2 a)
  then show ?case
    by (cases k; cases "k - 1")
      (auto simp: b64Quantum_Char byte_pieces b64Quantum_pads b64Bytes_def)
next
  case (3 a b)
  have "byte b div 16 < 16" by (simp add: less_mult_imp_div_less)
  with 3 show ?case
    by (cases k; cases "k - 1")
      (auto simp: b64Quantum_Char byte_pieces b64Quantum_pads b64Bytes_def)
next
  case (4 a b c s)
  have "byte b div 16 < 16" "byte c div 64 < 4" by (simp_all add: less_mult_imp_div_less)
  moreover have "b64Quantum n [p, q, r, t] u = Inr ([p, q, r, t], u)" for p q r t u
    by (simp add: b64Quantum.simps)
  ultimately show ?case using 4
    by (cases k) (auto simp: b64Quantum_Char byte_pieces b64Bytes_def)
qed

theorem b64Decode_Encode: "b64Decode (b64Encode s) = Inr s"
  unfolding b64Decode_def by (rule b64Loop_encode) simp

lemma b64Encode_ascii: "c \<in> set (b64Encode s) \<Longrightarrow> byte c < 0x80"
proof -
  have 1: "byte (b64Char n) < 0x80" if "n < 64" for n
  proof -
    have "n \<in> set [0..<64]" using that by simp
    moreover have "\<forall>m \<in> set [0..<64]. byte (b64Char m) < 0x80" by code_simp
    ultimately show ?thesis by blast
  qed
  show "c \<in> set (b64Encode s) \<Longrightarrow> byte c < 0x80"
    by (induction s rule: b64Encode.induct) (auto simp: 1 byte_pieces)
qed

end
