(* ===== verification/WebhookReplies.thy ===== *)
theory WebhookReplies
  imports LibConfig GoBase64
begin

text \<open>
  What the webhooks answer: the response structs of \<open>lib/webhooks/vernemqtt/model.go\<close>, and the helpers
  of \<open>lib/webhooks/vernemqtt/webhooks.go\<close> that write them. A response is appended to the \<open>written\<close>
  body; writing does not fail.
\<close>

section \<open>Responses\<close>

record webhookTopic = wtTopic :: string  wtQos :: int

definition okText :: string where
  "okText = CHR ''{'' # quote ''result'' @ '': '' @ quote ''ok'' @ ''}''"

definition errorResponse :: "string \<Rightarrow> json" where
  "errorResponse msg = JObj [(''result'', JObj [(''error'', JStr msg)])]"

definition redirectResponse :: "string \<Rightarrow> string \<Rightarrow> json" where
  "redirectResponse topic payload = JObj [(''result'', JStr ''ok''),
     (''modifiers'', JObj [(''topic'', JStr topic), (''payload'', JStr payload), (''retain'', JBool False),
       (''qos'', JNum ''0'')])]"

definition topicJson :: "webhookTopic \<Rightarrow> json" where
  "topicJson t = JObj [(''topic'', JStr (wtTopic t)), (''qos'', JNum (showInt (wtQos t)))]"

definition subscriptionResponse :: "webhookTopic list \<Rightarrow> json" where
  "subscriptionResponse ts = JObj [(''result'', JStr ''ok''), (''topics'', JArr (map topicJson ts))]"

text \<open>A nil slice of topics is written as \<open>null\<close>.\<close>

definition unsubResponse :: "string list option \<Rightarrow> json" where
  "unsubResponse ts = JObj [(''result'', JStr ''ok''),
     (''topics'', case ts of None \<Rightarrow> JNull | Some xs \<Rightarrow> JArr (map JStr xs))]"

definition sendJson :: "json \<Rightarrow> ('w, unit) io" where
  "sendJson v = writeBody (encodeLine v)"

definition sendError :: "string \<Rightarrow> ('w, unit) io" where
  "sendError msg = sendJson (errorResponse msg)"

definition sendOk :: "('w, unit) io" where
  "sendOk = writeBody okText"

definition sendIgnoreRedirect :: "string \<Rightarrow> string \<Rightarrow> ('w, unit) io" where
  "sendIgnoreRedirect topic msg = sendJson (redirectResponse (''ignored/'' @ topic) (b64Encode msg))"

definition subscriptionTopics :: "webhookTopic list \<Rightarrow> webhookTopic list \<Rightarrow> webhookTopic list" where
  "subscriptionTopics ok rejected = ok @ map (\<lambda>t. \<lparr>wtTopic = wtTopic t, wtQos = 128\<rparr>) rejected"

definition sendSubscriptionResult :: "webhookTopic list \<Rightarrow> webhookTopic list \<Rightarrow> ('w, unit) io" where
  "sendSubscriptionResult ok rejected = sendJson (subscriptionResponse (subscriptionTopics ok rejected))"

section \<open>Topics of shared subscriptions\<close>

definition prepareTopic :: "string \<Rightarrow> string" where
  "prepareTopic topic =
     (if hasPrefix topic ''$share/'' then
        (let parts = splitOn CHR 0x2F topic
         in if length parts < 3 then topic else joinWith CHR 0x2F (drop 2 parts))
      else topic)"

definition contains :: "string list \<Rightarrow> string \<Rightarrow> bool" where
  "contains list element = list_ex (\<lambda>e. e = element) list"

section \<open>Secrets\<close>

text \<open>The map literal: of two entries with one key the later one counts.\<close>

definition secretEntries :: "libConfig \<Rightarrow> (string \<times> string) list" where
  "secretEntries c = AList.clearjunk (rev
     [(lcDeviceRepoUrl c, ''device-repository''), (lcDeviceManagerUrl c, ''device-manager''),
      (lcPermissionsV2Url c, ''permissions-v2''), (lcKafkaUrl c, ''kafka''),
      (lcAuthClientSecret c, ''***''), (lcAuthEndpoint c, ''auth''),
      (lcDeveloperNotificationUrl c, ''dev-notify''), (lcJwtPrivateKey c, ''***''),
      (lcPostgresPw c, ''***'')])"

definition replaceSecret :: "string \<times> string \<Rightarrow> string \<Rightarrow> string" where
  "replaceSecret e out =
     (if fst e \<noteq> [] \<and> fst e \<noteq> ''-'' then replaceAll out (fst e) (snd e) else out)"

definition removeSecretsFromString :: "nat list \<Rightarrow> libConfig \<Rightarrow> string \<Rightarrow> string" where
  "removeSecretsFromString choice c input = fold replaceSecret (pickOrder choice (secretEntries c)) input"

definition sendIgnoreRedirectAndNotification ::
  "'w connector \<Rightarrow> libConfig \<Rightarrow> string \<Rightarrow> string \<Rightarrow> string \<Rightarrow> string \<Rightarrow> ('w, unit) io" where
  "sendIgnoreRedirectAndNotification cn lc user clientId topic msg0 = do {
     choice \<leftarrow> perform (rangeChoice cn) CRange;
     let msg = removeSecretsFromString choice lc msg0;
     _ \<leftarrow> sendIgnoreRedirect topic msg;
     r \<leftarrow> callUserId cn user;
     case r of
       Inl e \<Rightarrow> ret ()
     | Inr userId \<Rightarrow> callClientError cn userId clientId (''ignore message to '' @ topic @ '': '' @ msg)
   }"

end
