(* ===== verification/PublishHook.thy ===== *)
theory PublishHook
  imports WebhookReplies HandlerCore
begin

text \<open>
  \<open>lib/webhooks/vernemqtt/publish.go\<close>, \<open>subscribe.go\<close> and \<open>unsubscribe.go\<close>: the webhooks that run
  the topic handlers, and the one that logs devices as disconnected. A request is its body, with the
  error that ended reading it. A handler that refuses without an error makes the webhook panic on
  \<open>err.Error()\<close>; the deferred \<open>recover\<close> then answers with the text of the panic.
\<close>

record webhookRequest =
  rqBody :: string
  rqReadErr :: "goerror option"

definition nilDereference :: string where
  "nilDereference = ''runtime error: invalid memory address or nil pointer dereference''"

text \<open>\<open>err.Error()\<close>, or the panic that the deferred function turns into an answer.\<close>

definition errorTextOr :: "goerror option \<Rightarrow> (string \<Rightarrow> ('w, unit) io) \<Rightarrow> ('w, unit) io" where
  "errorTextOr err f = (case err of None \<Rightarrow> sendError nilDereference | Some e \<Rightarrow> f (errText e))"

section \<open>publish\<close>

record publishMsg =
  pbUsername :: string
  pbClientId :: string
  pbTopic :: string
  pbPayload :: string
  pbQos :: int

definition emptyPublishMsg :: publishMsg where
  "emptyPublishMsg = \<lparr>pbUsername = [], pbClientId = [], pbTopic = [], pbPayload = [], pbQos = 0\<rparr>"

definition publishMsgFields :: "publishMsg field list" where
  "publishMsgFields = [strField ''username'' pbUsername_update, strField ''client_id'' pbClientId_update,
     strField ''topic'' pbTopic_update, strField ''payload'' pbPayload_update, intField ''qos'' pbQos_update]"

definition decodePublish :: "json \<Rightarrow> publishMsg option" where
  "decodePublish v = decodeStruct publishMsgFields v emptyPublishMsg"

definition noTopicHandler :: string where
  "noTopicHandler = ''no matching topic handler found''"

text \<open>The loop over the handlers; \<open>sz\<close> is the size of the request.\<close>

fun publishLoop ::
  "'w connector \<Rightarrow> libConfig \<Rightarrow> publishMsg \<Rightarrow> string \<Rightarrow> nat \<Rightarrow> 'w handler list \<Rightarrow> ('w, unit) io" where
  "publishLoop cn lc msg payload sz [] =
     sendIgnoreRedirectAndNotification cn lc (pbUsername msg) (pbClientId msg) (pbTopic msg) noTopicHandler"
| "publishLoop cn lc msg payload sz (h # hs) = do {
     (r, err) \<leftarrow> hPublish h (pbClientId msg) (pbUsername msg) (pbTopic msg) payload (pbQos msg) sz;
     case r of
       Accepted \<Rightarrow> do { _ \<leftarrow> sendOk; callStat cn (SourceReceiveHandled sz (pbUsername msg)) }
     | Rejected \<Rightarrow>
         errorTextOr err (\<lambda>t. sendIgnoreRedirectAndNotification cn lc (pbUsername msg) (pbClientId msg) (pbTopic msg) t)
     | Error \<Rightarrow> errorTextOr err sendError
     | Unhandled \<Rightarrow> publishLoop cn lc msg payload sz hs
     | UnknownResult _ \<Rightarrow> publishLoop cn lc msg payload sz hs
   }"

definition illegalBase64 :: "nat \<Rightarrow> string" where
  "illegalBase64 n = ''illegal base64 data at input byte '' @ showNat n"

definition publish ::
  "config \<Rightarrow> 'w connector \<Rightarrow> libConfig \<Rightarrow> 'w handler list \<Rightarrow> webhookRequest \<Rightarrow> ('w, unit) io" where
  "publish cfg cn lc handlers rq = (case rqReadErr rq of
     Some e \<Rightarrow> sendError (errText e)
   | None \<Rightarrow>
       (case unmarshal decodePublish (rqBody rq) of
          None \<Rightarrow> sendError (jsonErrorText cn ''PublishWebhookMsg'' (rqBody rq))
        | Some msg \<Rightarrow>
            (if pbUsername msg = AuthClientId cfg then sendOk
             else (case b64Decode (pbPayload msg) of
               Inl n \<Rightarrow> sendError (illegalBase64 n)
             | Inr payload \<Rightarrow> do {
                 _ \<leftarrow> callStat cn (SourceReceive (length (rqBody rq)) (pbUsername msg));
                 publishLoop cn lc msg payload (length (rqBody rq)) handlers
               }))))"

section \<open>subscribe\<close>

record subscribeMsg =
  sbUsername :: string
  sbClientId :: string
  sbTopics :: "webhookTopic list"

definition decodeTopic :: "json \<Rightarrow> webhookTopic option" where
  "decodeTopic v = decodeStruct [strField ''topic'' wtTopic_update, intField ''qos'' wtQos_update] v
     \<lparr>wtTopic = [], wtQos = 0\<rparr>"

definition decodeSubscribe :: "json \<Rightarrow> subscribeMsg option" where
  "decodeSubscribe v = decodeStruct [strField ''username'' sbUsername_update,
     strField ''client_id'' sbClientId_update, listField ''topics'' decodeTopic sbTopics_update] v
     \<lparr>sbUsername = [], sbClientId = [], sbTopics = []\<rparr>"

fun subscribeLoop ::
  "'w handler list \<Rightarrow> subscribeMsg \<Rightarrow> webhookTopic list \<Rightarrow> webhookTopic list \<Rightarrow> webhookTopic list \<Rightarrow> ('w, unit) io" where
  "subscribeLoop handlers msg ok rejected [] = sendSubscriptionResult ok rejected"
| "subscribeLoop handlers msg ok rejected (t # ts) = do {
     (r, err) \<leftarrow> HandleTopicSubscribe (sbClientId msg) (sbUsername msg) (prepareTopic (wtTopic t)) handlers;
     case r of
       Accepted \<Rightarrow> subscribeLoop handlers msg (ok @ [t]) rejected ts
     | Unhandled \<Rightarrow> subscribeLoop handlers msg ok (rejected @ [t]) ts
     | Rejected \<Rightarrow> subscribeLoop handlers msg ok (rejected @ [t]) ts
     | Error \<Rightarrow> errorTextOr err sendError
     | UnknownResult _ \<Rightarrow> subscribeLoop handlers msg ok (rejected @ [t]) ts
   }"

definition subscribe ::
  "config \<Rightarrow> 'w connector \<Rightarrow> 'w handler list \<Rightarrow> webhookRequest \<Rightarrow> ('w, unit) io" where
  "subscribe cfg cn handlers rq = (case decodeFirst decodeSubscribe (rqBody rq) of
     None \<Rightarrow> sendError (jsonErrorText cn ''SubscribeWebhookMsg'' (rqBody rq))
   | Some msg \<Rightarrow>
       (if sbUsername msg = AuthClientId cfg then sendOk
        else subscribeLoop handlers msg [] [] (sbTopics msg)))"

section \<open>unsubscribe\<close>

record unsubscribeMsg =
  usUsername :: string
  usTopics :: "string list option"

text \<open>A slice of strings, where nil and empty differ.\<close>

definition sliceField ::
  "string \<Rightarrow> (('a list option \<Rightarrow> 'a list option) \<Rightarrow> 'r \<Rightarrow> 'r) \<Rightarrow> (json \<Rightarrow> 'a option) \<Rightarrow> 'r field" where
  "sliceField n upd f = (n, \<lambda>v r. case v of
      JArr vs \<Rightarrow> map_option (\<lambda>xs. upd (\<lambda>_. Some xs) r) (decodeList f vs)
    | JNull \<Rightarrow> Some (upd (\<lambda>_. None) r)
    | _ \<Rightarrow> None)"

definition decodeUnsubscribe :: "json \<Rightarrow> unsubscribeMsg option" where
  "decodeUnsubscribe v = decodeStruct [strField ''username'' usUsername_update,
     sliceField ''topics'' usTopics_update decodeString] v \<lparr>usUsername = [], usTopics = None\<rparr>"

fun unsubscribeLoop :: "'w connector \<Rightarrow> string \<Rightarrow> string list \<Rightarrow> ('w, unit) io" where
  "unsubscribeLoop cn token [] = ret ()"
| "unsubscribeLoop cn token (topic # ts) =
     (if \<not> hasPrefix topic ''command'' then unsubscribeLoop cn token ts
      else (case ParseTopic topic of
        Inl e \<Rightarrow> ret ()
      | Inr (TopicParts pre ow deviceUri sv) \<Rightarrow>
          (if pre \<noteq> ''command'' then unsubscribeLoop cn token ts
           else do {
             d \<leftarrow> callDevice cn token deviceUri;
             case d of
               Inl e \<Rightarrow> unsubscribeLoop cn token ts
             | Inr dev \<Rightarrow> do {
                 _ \<leftarrow> perform (logDeviceDisconnect cn (devId dev)) (CDeviceDisconnect (devId dev));
                 unsubscribeLoop cn token ts
               }
           })))"

definition unsubscribe :: "config \<Rightarrow> 'w connector \<Rightarrow> webhookRequest \<Rightarrow> ('w, unit) io" where
  "unsubscribe cfg cn rq = (case decodeFirst decodeUnsubscribe (rqBody rq) of
     None \<Rightarrow> sendError (jsonErrorText cn ''UnsubscribeWebhookMsg'' (rqBody rq))
   | Some msg \<Rightarrow> do {
       _ \<leftarrow> (if usUsername msg \<noteq> AuthClientId cfg then do {
               t \<leftarrow> callToken cn (usUsername msg);
               case t of
                 Inl e \<Rightarrow> ret ()
               | Inr token \<Rightarrow> unsubscribeLoop cn token (case usTopics msg of None \<Rightarrow> [] | Some ts \<Rightarrow> ts)
             }
             else ret ());
       sendJson (unsubResponse (usTopics msg))
     })"

end
