(* ===== verification/SessionHooks.thy ===== *)
theory SessionHooks
  imports PublishHook
begin

text \<open>
  The webhooks of the session life cycle: \<open>login.go\<close>, \<open>online.go\<close> and \<open>disconnect.go\<close> of
  \<open>lib/webhooks/vernemqtt\<close>.
\<close>

section \<open>login\<close>

record loginMsg =
  lgPeerAddr :: string
  lgPeerPort :: int
  lgUsername :: string
  lgPassword :: string
  lgClientId :: string
  lgCleanSession :: bool
  lgCleanStart :: bool

definition emptyLoginMsg :: loginMsg where
  "emptyLoginMsg = \<lparr>lgPeerAddr = [], lgPeerPort = 0, lgUsername = [], lgPassword = [], lgClientId = [],
     lgCleanSession = False, lgCleanStart = False\<rparr>"

definition decodeLogin :: "json \<Rightarrow> loginMsg option" where
  "decodeLogin v = decodeStruct [strField ''peer_addr'' lgPeerAddr_update, intField ''peer_port'' lgPeerPort_update,
     strField ''username'' lgUsername_update, strField ''password'' lgPassword_update,
     strField ''client_id'' lgClientId_update, boolField ''clean_session'' lgCleanSession_update,
     boolField ''clean_start'' lgCleanStart_update] v emptyLoginMsg"

definition loginRemote :: "config \<Rightarrow> loginMsg \<Rightarrow> remoteInfo" where
  "loginRemote cfg msg = \<lparr>riIp = lgPeerAddr msg, riPort = showInt (lgPeerPort msg),
     riProtocol = SecRemoteProtocol cfg\<rparr>"

text \<open>With any other authentication method there is no call, and the token stays empty.\<close>

definition loginToken :: "config \<Rightarrow> 'w connector \<Rightarrow> loginMsg \<Rightarrow> ('w, goerror + string) io" where
  "loginToken cfg cn msg =
     (let ri = loginRemote cfg msg in
      if MqttAuthMethod cfg = ''password'' then
        perform (getUserToken cn (lgUsername msg) (lgPassword msg) ri) (CUserToken (lgUsername msg) (lgPassword msg) ri)
      else if MqttAuthMethod cfg = ''certificate'' then
        perform (exchangeUserToken cn (lgUsername msg) ri) (CExchangeToken (lgUsername msg) ri)
      else ret (Inr []))"

definition login :: "config \<Rightarrow> 'w connector \<Rightarrow> webhookRequest \<Rightarrow> ('w, unit) io" where
  "login cfg cn rq = (case decodeFirst decodeLogin (rqBody rq) of
     None \<Rightarrow> sendError (jsonErrorText cn ''LoginWebhookMsg'' (rqBody rq))
   | Some msg \<Rightarrow>
       (if lgUsername msg \<noteq> AuthClientId cfg then
          (if \<not> lgCleanSession msg \<and> \<not> lgCleanStart msg \<and> ForceCleanSession cfg \<and>
              \<not> contains (CleanSessionAllowUserList cfg) (lgUsername msg)
           then sendError ''expect clean session''
           else do {
             t \<leftarrow> loginToken cfg cn msg;
             case t of
               Inl e \<Rightarrow> sendError (errText e)
             | Inr token \<Rightarrow>
                 (if token = [] then sendError ''access denied''
                  else do {
                    l \<leftarrow> perform (limitCheck cn (lgClientId msg)) (CLimit (lgClientId msg));
                    case l of
                      Some e \<Rightarrow> sendError (errText e)
                    | None \<Rightarrow>
                        (if CheckHub cfg then do {
                           (exists, err) \<leftarrow> callExistsHub cn (lgClientId msg) token;
                           case err of
                             Some e \<Rightarrow> sendError (errText e)
                           | None \<Rightarrow>
                               (if \<not> exists then sendError ''client id is unknown as hub id'' else ret ())
                         }
                         else sendOk)
                  })
           })
        else if lgPassword msg \<noteq> AuthClientSecret cfg \<and> MqttAuthMethod cfg = ''password''
          then sendError ''access denied''
        else sendOk))"

section \<open>online\<close>

definition emptyDoc :: string where
  "emptyDoc = ''{}''"

definition decodeClientId :: "json \<Rightarrow> string option" where
  "decodeClientId v = decodeStruct [strField ''client_id'' (\<lambda>f r. f r)] v []"

text \<open>The deferred function writes the empty document after whatever the body has written.\<close>

definition online :: "'w connector \<Rightarrow> webhookRequest \<Rightarrow> ('w, unit) io" where
  "online cn rq = do {
     _ \<leftarrow> (case decodeFirst decodeClientId (rqBody rq) of
            None \<Rightarrow> sendError (jsonErrorText cn ''OnlineWebhookMsg'' (rqBody rq))
          | Some clientId \<Rightarrow> do {
              a \<leftarrow> callAccess cn;
              case a of
                Inl e \<Rightarrow> ret ()
              | Inr token \<Rightarrow> do {
                  (exists, err) \<leftarrow> callExistsHub cn clientId token;
                  case err of
                    Some e \<Rightarrow> ret ()
                  | None \<Rightarrow>
                      (if exists then do {
                         _ \<leftarrow> perform (logHubConnect cn clientId) (CHubConnect clientId);
                         ret ()
                       }
                       else ret ())
                }
            });
     writeBody emptyDoc
   }"

section \<open>disconnect\<close>

fun disconnectDevices :: "'w connector \<Rightarrow> string \<Rightarrow> string list \<Rightarrow> ('w, unit) io" where
  "disconnectDevices cn userToken [] = ret ()"
| "disconnectDevices cn userToken (l # ls) = do {
     d \<leftarrow> callDevice cn userToken l;
     case d of
       Inl e \<Rightarrow> disconnectDevices cn userToken ls
     | Inr dev \<Rightarrow> do {
         _ \<leftarrow> perform (logDeviceDisconnect cn (devId dev)) (CDeviceDisconnect (devId dev));
         disconnectDevices cn userToken ls
       }
   }"

definition disconnect :: "'w connector \<Rightarrow> webhookRequest \<Rightarrow> ('w, unit) io" where
  "disconnect cn rq = do {
     _ \<leftarrow> (case decodeFirst decodeClientId (rqBody rq) of
            None \<Rightarrow> ret ()
          | Some clientId \<Rightarrow> do {
              a \<leftarrow> callAccess cn;
              case a of
                Inl e \<Rightarrow> ret ()
              | Inr token \<Rightarrow> do {
                  g \<leftarrow> callGetHub cn clientId token;
                  case g of
                    Inl e \<Rightarrow> ret ()
                  | Inr h \<Rightarrow> do {
                      u \<leftarrow> callToken cn (hubOwnerId h);
                      case u of
                        Inl e \<Rightarrow> ret ()
                      | Inr userToken \<Rightarrow> do {
                          l \<leftarrow> perform (logHubDisconnect cn clientId) (CHubDisconnect clientId);
                          case l of
                            Some e \<Rightarrow> ret ()
                          | None \<Rightarrow> disconnectDevices cn userToken (hubDeviceLocalIds h)
                        }
                    }
                }
            });
     writeBody emptyDoc
   }"

end
