(* ===== verification/DisconnectCommand.thy ===== *)
theory DisconnectCommand
  imports SessionHooks GoUrl GoTime
begin

text \<open>
  \<open>lib/webhooks/vernemqtt/disconnectcmd.go\<close>: a command that ends the MQTT sessions of a user through
  the administration API of the broker, at once or after a delay. The delayed run is the operation
  \<open>execDisconnectCommand\<close> again; \<open>afterFunc\<close> only notes that it was scheduled.
\<close>

definition wrapErr :: "string \<Rightarrow> goerror \<Rightarrow> goerror" where
  "wrapErr t e = GoError (t @ '': '' @ errText e) (errChain e)"

definition statusErr :: "string \<Rightarrow> int \<Rightarrow> string \<Rightarrow> goerror" where
  "statusErr t status body = errorsNew (t @ '': status-code: '' @ showInt status @ '' response: '' @ body)"

record subscription =
  suClientId :: string
  suUser :: string
  suTopic :: string
  suIsOnline :: bool

definition decodeSubscription :: "json \<Rightarrow> subscription option" where
  "decodeSubscription v = decodeStruct [strField ''client_id'' suClientId_update, strField ''user'' suUser_update,
     strField ''topic'' suTopic_update, boolField ''is_online'' suIsOnline_update] v
     \<lparr>suClientId = [], suUser = [], suTopic = [], suIsOnline = False\<rparr>"

definition decodeTable :: "json \<Rightarrow> subscription list option" where
  "decodeTable v = decodeStruct [listField ''table'' decodeSubscription (\<lambda>f r. f r)] v []"

definition sessionsUrl :: "string \<Rightarrow> string \<Rightarrow> string" where
  "sessionsUrl apiUrl user = apiUrl @ ''/api/v1/session/show?--user='' @ queryEscape user"

definition disconnectUrl :: "string \<Rightarrow> string \<Rightarrow> string" where
  "disconnectUrl apiUrl clientId =
     apiUrl @ ''/api/v1/session/disconnect?client-id='' @ queryEscape clientId @ ''&--cleanup''"

definition listErr :: string where "listErr = ''ubable to get user sessions''"
definition disconnectErr :: string where "disconnectErr = ''ubable to disconnect client session''"

definition listSessionsClientIdsOfUser ::
  "'w connector \<Rightarrow> string \<Rightarrow> string \<Rightarrow> ('w, goerror + string list) io" where
  "listSessionsClientIdsOfUser cn apiUrl user =
     (let url = sessionsUrl apiUrl user in
      case newRequestErr cn url of
        Some e \<Rightarrow> ret (Inl (wrapErr listErr e))
      | None \<Rightarrow> do {
          g \<leftarrow> perform (httpGet cn url) (CHttpGet url);
          case g of
            Inl e \<Rightarrow> ret (Inl (wrapErr listErr e))
          | Inr (status, body) \<Rightarrow>
              (if 300 \<le> status then ret (Inl (statusErr listErr status body))
               else (case decodeFirst decodeTable body of
                 None \<Rightarrow> ret (Inl (errorsNew (''ubable to decode user sessions: '' @
                   jsonErrorText cn ''SubscriptionWrapper'' body)))
               | Some table \<Rightarrow> ret (Inr (map suClientId table))))
        })"

definition disconnectClient :: "'w connector \<Rightarrow> string \<Rightarrow> string \<Rightarrow> ('w, goerror option) io" where
  "disconnectClient cn apiUrl clientId =
     (let url = disconnectUrl apiUrl clientId in
      case newRequestErr cn url of
        Some e \<Rightarrow> ret (Some (wrapErr disconnectErr e))
      | None \<Rightarrow> do {
          g \<leftarrow> perform (httpGet cn url) (CHttpGet url);
          case g of
            Inl e \<Rightarrow> ret (Some (wrapErr disconnectErr e))
          | Inr (status, body) \<Rightarrow>
              (if 300 \<le> status then ret (Some (statusErr disconnectErr status body)) else ret None)
        })"

fun disconnectClients :: "'w connector \<Rightarrow> string \<Rightarrow> string list \<Rightarrow> ('w, goerror option) io" where
  "disconnectClients cn apiUrl [] = ret None"
| "disconnectClients cn apiUrl (c # cs) = do {
     r \<leftarrow> disconnectClient cn apiUrl c;
     case r of Some e \<Rightarrow> ret (Some e) | None \<Rightarrow> disconnectClients cn apiUrl cs
   }"

definition execDisconnectCommand :: "config \<Rightarrow> 'w connector \<Rightarrow> string \<Rightarrow> ('w, goerror option) io" where
  "execDisconnectCommand cfg cn user = do {
     l \<leftarrow> listSessionsClientIdsOfUser cn (VmqAdminApiUrl cfg) user;
     case l of
       Inl e \<Rightarrow> ret (Some e)
     | Inr clientIds \<Rightarrow> disconnectClients cn (VmqAdminApiUrl cfg) clientIds
   }"

definition decodeUsername :: "json \<Rightarrow> string option" where
  "decodeUsername v = decodeStruct [strField ''username'' (\<lambda>f r. f r)] v []"

definition disconnectCommand :: "config \<Rightarrow> 'w connector \<Rightarrow> webhookRequest \<Rightarrow> ('w, unit) io" where
  "disconnectCommand cfg cn rq = (case decodeFirst decodeUsername (rqBody rq) of
     None \<Rightarrow> sendError (jsonErrorText cn ''DisconnectCommand'' (rqBody rq))
   | Some user \<Rightarrow>
       (if VmqAdminApiUrl cfg = [] \<or> VmqAdminApiUrl cfg = ''-'' then sendError ''missing VmqAdminApiUrl config''
        else if DisconnectCommandDelay cfg \<noteq> [] \<and> DisconnectCommandDelay cfg \<noteq> ''-'' then
          (case parseDuration (DisconnectCommandDelay cfg) of
             Inl e \<Rightarrow> sendError e
           | Inr delay \<Rightarrow> do {
               _ \<leftarrow> perform (afterFunc cn delay user) (\<lambda>_. CAfterFunc delay user);
               sendOk
             })
        else do {
          _ \<leftarrow> execDisconnectCommand cfg cn user;
          sendOk
        }))"

end
