(* ===== verification/Webhooks.thy ===== *)
theory Webhooks
  imports DisconnectCommand
begin

text \<open>
  \<open>InitWebhooks\<close> of \<open>lib/webhooks/vernemqtt/webhooks.go\<close>: which request runs which webhook, and
  \<open>lib/webhooks/helper/httptimeouthandler.go\<close>, which ends the process when an answer takes too long, and the server.
\<close>

section \<open>The router\<close>

text \<open>
  \<open>doc\<close> is what \<open>swag.ReadDoc\<close> returns. Only exact paths are modelled; the standard library's mux
  answers the others. Its pattern for \<open>GET\<close> also matches \<open>HEAD\<close>, of whose answer the server drops the body.
\<close>

definition docPattern :: string where
  "docPattern = quote ''host'' @ '': '' @ quote [] @ '',''"

definition serveDoc :: "goerror + string \<Rightarrow> ('w, unit) io" where
  "serveDoc doc = (case doc of
     Inl e \<Rightarrow> writeBody (''Internal Server Error'' @ [CHR 0x0A])
   | Inr d \<Rightarrow> writeBody (replaceFirst d docPattern []))"

definition handleRequest ::
  "config \<Rightarrow> 'w connector \<Rightarrow> libConfig \<Rightarrow> 'w handler list \<Rightarrow> goerror + string \<Rightarrow> string \<Rightarrow> string \<Rightarrow>
   webhookRequest \<Rightarrow> ('w, unit) io" where
  "handleRequest cfg cn lc handlers doc meth path rq =
     (if path = ''/doc'' \<and> meth \<in> {''GET'', ''HEAD''} then serveDoc doc
      else if path = ''/doc'' then writeBody (''Method Not Allowed'' @ [CHR 0x0A])
      else if path = ''/disconnect-command'' then disconnectCommand cfg cn rq
      else if path = ''/health'' then ret ()
      else if path = ''/publish'' then publish cfg cn lc handlers rq
      else if path = ''/subscribe'' then subscribe cfg cn handlers rq
      else if path = ''/login'' then login cfg cn rq
      else if path = ''/online'' then online cn rq
      else if path = ''/disconnect'' then disconnect cn rq
      else if path = ''/unsubscribe'' then unsubscribe cfg cn rq
      else writeBody (''404 page not found'' @ [CHR 0x0A]))"

section \<open>The timeout\<close>

text \<open>
  \<open>ServeHTTP\<close> waits for the first of two events, the handler's return, which cancels the context, and
  the deadline; \<open>finish\<close> is when the handler returns, \<open>None\<close> for never. At the very same moment
  either may come first (\<open>tie\<close>).
\<close>

datatype ctxErr = Canceled | DeadlineExceeded

definition ctxDone :: "int \<Rightarrow> int option \<Rightarrow> bool \<Rightarrow> ctxErr" where
  "ctxDone timeout finish tie = (case finish of
     None \<Rightarrow> DeadlineExceeded
   | Some t \<Rightarrow> if t < timeout \<or> t = timeout \<and> tie then Canceled else DeadlineExceeded)"

definition serveHTTP :: "int \<Rightarrow> int option \<Rightarrow> bool \<Rightarrow> bool" where
  "serveHTTP timeout finish tie \<longleftrightarrow> ctxDone timeout finish tie \<noteq> Canceled"

text \<open>
  What the webhooks do on a timeout: a line in \<open>timeouts.log\<close> when the file can be opened, a second for
  the logs to be written, and the end of the process; \<open>openErr\<close> is the error of opening the file.
\<close>

datatype timeoutStep = TOpenLog string | TWriteTime | TSync | TSleep int | TExit int

definition timeoutHandler :: "goerror option \<Rightarrow> timeoutStep list" where
  "timeoutHandler openErr = (case openErr of
     Some e \<Rightarrow> [TOpenLog ''timeouts.log'', TSleep (10 ^ 9), TExit 1]
   | None \<Rightarrow> [TOpenLog ''timeouts.log'', TWriteTime, TSync, TSleep (10 ^ 9), TExit 1])"

text \<open>A request to the webhooks with the timeout that is configured: the steps that follow it.\<close>

definition serveWebhook :: "int option \<Rightarrow> int option \<Rightarrow> bool \<Rightarrow> goerror option \<Rightarrow> timeoutStep list" where
  "serveWebhook timeout finish tie openErr = (case timeout of
     None \<Rightarrow> []
   | Some t \<Rightarrow> if serveHTTP t finish tie then timeoutHandler openErr else [])"

definition webhookTimeout :: "config \<Rightarrow> int option" where
  "webhookTimeout cfg = (if 0 < WebhookTimeout cfg then Some (WebhookTimeout cfg * 10 ^ 9) else None)"

section \<open>The server\<close>

text \<open>Times are in nanoseconds. The server is started in a goroutine of its own; an error of it ends the process.\<close>

record webhookServer =
  wsAddr :: string
  wsTimeout :: "int option"
  wsWriteTimeout :: int
  wsReadTimeout :: int
  wsReadHeaderTimeout :: int

definition webhookServerOf :: "config \<Rightarrow> webhookServer" where
  "webhookServerOf cfg = \<lparr>wsAddr = '':'' @ WebhookPort cfg, wsTimeout = webhookTimeout cfg,
     wsWriteTimeout = 10 * 10 ^ 9, wsReadTimeout = 2 * 10 ^ 9, wsReadHeaderTimeout = 2 * 10 ^ 9\<rparr>"

datatype serverEnd = ServerStopped | ServerFatal goerror

definition listenAndServe :: "(webhookServer \<Rightarrow> goerror option) \<Rightarrow> webhookServer \<Rightarrow> serverEnd" where
  "listenAndServe listen srv = (case listen srv of None \<Rightarrow> ServerStopped | Some e \<Rightarrow> ServerFatal e)"

text \<open>The server and the webhook that runs for a request.\<close>

definition InitWebhooks ::
  "config \<Rightarrow> 'w connector \<Rightarrow> libConfig \<Rightarrow> 'w handler list \<Rightarrow> goerror + string \<Rightarrow>
   webhookServer \<times> (string \<Rightarrow> string \<Rightarrow> webhookRequest \<Rightarrow> ('w, unit) io)" where
  "InitWebhooks cfg cn lc handlers doc = (webhookServerOf cfg, handleRequest cfg cn lc handlers doc)"

end
