(* ===== verification/Startup.thy ===== *)
theory Startup
  imports LibConfig ConfigEnv OwnTopicHandlers ProcessHandler CommandHandler ResponseHandler ErrorMessageHandler
    EventHandler FogHandler HealthHandler Webhooks
begin

text \<open>
  \<open>lib/lib.go\<close>, the client start of \<open>lib/mqtt.go\<close>, \<open>lib/metrics/metrics.go\<close> and \<open>main.go\<close>: the order in
  which the connector is built, the handlers it runs, its decisions along the way, and how it ends
  when a step fails. The constructors of the libraries are parameters; every one is recorded with its
  arguments and its answer in a log of its own.
\<close>

section \<open>The steps of the start\<close>

text \<open>The handlers, in the order of the list, as the constructors are called.\<close>

datatype handlerKind =
    EventK eventHandlerConf | ResponseK | CommandK | ProcessK | ExportK | NotificationsK | ErrorK
  | FogK fogHandlerConf | HealthK healthHandler

record mqtt4Options =
  moPassword :: string
  moUsername :: string
  moAutoReconnect :: bool
  moCleanSession :: bool
  moClientId :: string
  moBroker :: string

record mqtt5Options =
  m5Broker :: string
  m5KeepAlive :: int
  m5ClientId :: string
  m5Username :: string
  m5Password :: string

text \<open>
  What a goroutine does to its client when the context ends; the time is the limit it has. \<open>SOnDone\<close> below
  is the start of such a goroutine, \<open>SDisconnect\<close> the call that disconnects the client.
\<close>

datatype disconnectJob = Disconnect4 int | Disconnect5 int

datatype commandMode = DirectCommands | QueuedCommands int

datatype startCall =
    SNew libConfig "goerror option"
  | SCacheDebug
  | SInitProducer "goerror option"
  | SGetProducer int "goerror option"
  | SLoggerConnCheck int string string string "goerror option"
  | SLogger string string "goerror option"
  | SMetrics "goerror option"
  | SCorrelation int int int "string list"
  | SConnectionLimit int int "string list"
  | SWebhooks "handlerKind list" bool
  | SSleep int
  | SMqtt4 mqtt4Options "goerror option"
  | SMqtt5 mqtt5Options "goerror option"
  | SMqtt5Await int "goerror option"
  | SOnDone disconnectJob
  | SDisconnect disconnectJob
  | SSetCommands commandMode
  | SStartConsumer "goerror option"
  | SPutDoc string string string "goerror option"

record 'w startSys =
  ssWorld :: 'w
  ssCalls :: "startCall list"

type_synonym ('w, 'a) start = "('w startSys, 'a) state"

text \<open>
  \<open>slUuid\<close> is \<open>uuid.NewString\<close>, \<open>slRegister\<close> what registering the error counter comes to, \<open>slAsyncDoc\<close> the
  generated document that is embedded in the binary.
\<close>

datatype registered = RegOk | RegExists bool goerror | RegError goerror

record 'w startLib =
  slNew :: "libConfig \<Rightarrow> ('w, goerror option) ext"
  slInitProducer :: "('w, goerror option) ext"
  slGetProducer :: "int \<Rightarrow> ('w, goerror option) ext"
  slLoggerConnCheck :: "int \<Rightarrow> string \<Rightarrow> string \<Rightarrow> string \<Rightarrow> ('w, goerror option) ext"
  slLogger :: "string \<Rightarrow> string \<Rightarrow> ('w, goerror option) ext"
  slRegister :: "('w, registered) ext"
  slUuid :: "('w, string) ext"
  slParseUrl :: "string \<Rightarrow> goerror + string"
  slMqtt4Connect :: "mqtt4Options \<Rightarrow> ('w, goerror option) ext"
  slMqtt5Open :: "mqtt5Options \<Rightarrow> ('w, goerror option) ext"
  slMqtt5Await :: "int \<Rightarrow> ('w, goerror option) ext"
  slStartConsumer :: "('w, goerror option) ext"
  slPutDoc :: "string \<Rightarrow> string \<Rightarrow> string \<Rightarrow> ('w, goerror option) ext"
  slAsyncDoc :: string

definition sCall :: "('w, 'a) ext \<Rightarrow> ('a \<Rightarrow> startCall list) \<Rightarrow> ('w, 'a) start" where
  "sCall f c = State (\<lambda>s. case f (ssWorld s) of
     (a, w) \<Rightarrow> (a, s\<lparr>ssWorld := w, ssCalls := ssCalls s @ c a\<rparr>))"

definition sNote :: "startCall \<Rightarrow> ('w, unit) start" where
  "sNote c = State (\<lambda>s. ((), s\<lparr>ssCalls := ssCalls s @ [c]\<rparr>))"

lemma run_sCall [io_simps]:
  "run_state (sCall f c) s = (case f (ssWorld s) of
     (a, w) \<Rightarrow> (a, s\<lparr>ssWorld := w, ssCalls := ssCalls s @ c a\<rparr>))"
  by (simp add: sCall_def)

lemma run_sNote [io_simps]: "run_state (sNote c) s = ((), s\<lparr>ssCalls := ssCalls s @ [c]\<rparr>)"
  by (simp add: sNote_def)

section \<open>Metrics\<close>

text \<open>A counter that is already registered is used as it is; anything else of that name is an error.\<close>

definition metricsErr :: "registered \<Rightarrow> goerror option" where
  "metricsErr r = (case r of
     RegOk \<Rightarrow> None
   | RegExists isCounter e \<Rightarrow> if isCounter then None else Some e
   | RegError e \<Rightarrow> Some e)"

definition NewMetrics :: "'w startLib \<Rightarrow> ('w, goerror option) start" where
  "NewMetrics lib = do {
     r \<leftarrow> sCall (slRegister lib) (\<lambda>r. [SMetrics (metricsErr r)]);
     ret (metricsErr r)
   }"

section \<open>MQTT clients\<close>

definition mqtt4OptionsOf :: "config \<Rightarrow> string \<Rightarrow> mqtt4Options" where
  "mqtt4OptionsOf cfg uuid = \<lparr>moPassword = AuthClientSecret cfg, moUsername = AuthClientId cfg,
     moAutoReconnect = True, moCleanSession = True, moClientId = AuthClientId cfg @ ''_'' @ uuid,
     moBroker = MqttBroker cfg\<rparr>"

definition Mqtt4Start :: "'w startLib \<Rightarrow> config \<Rightarrow> ('w, goerror option) start" where
  "Mqtt4Start lib cfg = do {
     uuid \<leftarrow> sCall (slUuid lib) (\<lambda>_. []);
     let opts = mqtt4OptionsOf cfg uuid;
     r \<leftarrow> sCall (slMqtt4Connect lib opts) (\<lambda>e. [SMqtt4 opts e]);
     case r of
       Some e \<Rightarrow> ret (Some e)
     | None \<Rightarrow> do {
         _ \<leftarrow> sNote (SOnDone (Disconnect4 0));
         ret None
       }
   }"

definition mqtt5OptionsOf :: "config \<Rightarrow> string \<Rightarrow> string \<Rightarrow> mqtt5Options" where
  "mqtt5OptionsOf cfg broker uuid = \<lparr>m5Broker = broker, m5KeepAlive = 30,
     m5ClientId = AuthClientId cfg @ ''_'' @ uuid, m5Username = AuthClientId cfg,
     m5Password = AuthClientSecret cfg\<rparr>"

text \<open>
  \<open>NewConnection\<close> starts a manager that connects in the background until the context ends;
  \<open>AwaitConnection\<close> waits for it, at most a minute. An error of the second leaves the first running.
\<close>

definition Mqtt5Start :: "'w startLib \<Rightarrow> config \<Rightarrow> ('w, goerror option) start" where
  "Mqtt5Start lib cfg = (case slParseUrl lib (MqttBroker cfg) of
     Inl e \<Rightarrow> ret (Some e)
   | Inr broker \<Rightarrow> do {
       uuid \<leftarrow> sCall (slUuid lib) (\<lambda>_. []);
       let opts = mqtt5OptionsOf cfg broker uuid;
       r \<leftarrow> sCall (slMqtt5Open lib opts) (\<lambda>e. [SMqtt5 opts e]);
       case r of
         Some e \<Rightarrow> ret (Some e)
       | None \<Rightarrow> do {
           _ \<leftarrow> sNote (SOnDone (Disconnect5 (10 * 10 ^ 9)));
           sCall (slMqtt5Await lib (60 * 10 ^ 9)) (\<lambda>e. [SMqtt5Await (60 * 10 ^ 9) e])
         }
     })"

definition MqttStart :: "'w startLib \<Rightarrow> config \<Rightarrow> ('w, goerror option) start" where
  "MqttStart lib cfg = (if MqttVersion cfg = ''5'' then Mqtt5Start lib cfg else Mqtt4Start lib cfg)"

text \<open>The loop of ten attempts: \<open>n\<close> of them are left, \<open>err\<close> is the error of the last one.\<close>

fun mqttAttempts :: "'w startLib \<Rightarrow> config \<Rightarrow> nat \<Rightarrow> goerror option \<Rightarrow> ('w, goerror option) start" where
  "mqttAttempts lib cfg 0 err = ret err"
| "mqttAttempts lib cfg (Suc n) err = do {
     r \<leftarrow> MqttStart lib cfg;
     case r of
       None \<Rightarrow> ret None
     | Some e \<Rightarrow> do {
         _ \<leftarrow> sNote (SSleep (5 * 10 ^ 9));
         mqttAttempts lib cfg n (Some e)
       }
   }"

section \<open>Handlers\<close>

definition startHandlers ::
  "config \<Rightarrow> eventHandlerConf \<Rightarrow> goerror + handlerKind list" where
  "startHandlers cfg ev =
     (let base = [EventK ev, ResponseK, CommandK, ProcessK, ExportK, NotificationsK, ErrorK];
          fog = (if FogHandlerTopicPrefix cfg \<noteq> [] \<and> FogHandlerTopicPrefix cfg \<noteq> ''-''
                 then [FogK \<lparr>fogTopicPrefix = FogHandlerTopicPrefix cfg\<rparr>] else [])
      in if Enabled (HealthTopic cfg)
         then (case NewFromConfig cfg of
           Inl e \<Rightarrow> Inl e
         | Inr (h, cache) \<Rightarrow> Inr (base @ fog @ [HealthK h]))
         else Inr (base @ fog))"

text \<open>
  The handler a constructor builds; \<open>upstream\<close> and \<open>syncQos\<close> are the constants of the libraries.
\<close>

definition handlerOf ::
  "config \<Rightarrow> 'w connector \<Rightarrow> string \<Rightarrow> int \<Rightarrow> handlerKind \<Rightarrow> 'w handler" where
  "handlerOf cfg cn upstream syncQos k = (case k of
     EventK ev \<Rightarrow> eventHandler cfg cn ev
   | ResponseK \<Rightarrow> responseHandler cfg cn
   | CommandK \<Rightarrow> commandHandler cfg cn
   | ProcessK \<Rightarrow> processHandler cn
   | ExportK \<Rightarrow> exportHandler cn
   | NotificationsK \<Rightarrow> notificationsHandler cn
   | ErrorK \<Rightarrow> errorHandler cfg cn
   | FogK f \<Rightarrow> fogHandler cn upstream f
   | HealthK h \<Rightarrow> healthHandlerOf cn syncQos h)"

section \<open>Start\<close>

definition correlationTimeout :: "config \<Rightarrow> int" where
  "correlationTimeout cfg = (case parseDuration (CorrelationTimeout cfg) of
     Inl e \<Rightarrow> 200 * 10 ^ 6 | Inr d \<Rightarrow> d)"

text \<open>
  The timeout of the connection check. \<open>ParseDuration\<close> returns 0 with an error, which stays when the
  setting is empty.
\<close>

definition connCheckTimeout :: "config \<Rightarrow> int" where
  "connCheckTimeout cfg = (case parseDuration (ConnectionCheckHttpTimeout cfg) of
     Inl e \<Rightarrow> if ConnectionCheckHttpTimeout cfg \<noteq> [] then 15 * 10 ^ 9 else 0
   | Inr d \<Rightarrow> d)"

definition startLogger :: "'w startLib \<Rightarrow> config \<Rightarrow> ('w, goerror option) start" where
  "startLogger lib cfg =
     (if ConnectionCheckUrl cfg \<noteq> [] then
        (let t = connCheckTimeout cfg; u = ConnectionCheckUrl cfg; d = DeviceLogTopic cfg; g = GatewayLogTopic cfg
         in sCall (slLoggerConnCheck lib t u d g) (\<lambda>e. [SLoggerConnCheck t u d g e]))
      else
        (let d = DeviceLogTopic cfg; g = GatewayLogTopic cfg in sCall (slLogger lib d g) (\<lambda>e. [SLogger d g e])))"

text \<open>From the webhooks on.\<close>

definition startServing :: "'w startLib \<Rightarrow> config \<Rightarrow> handlerKind list \<Rightarrow> ('w, goerror option) start" where
  "startServing lib cfg handlers = do {
     let urls = StringToList (MemcachedUrl cfg);
     _ \<leftarrow> (if 0 < ConnectionLimitCount cfg
          then sNote (SConnectionLimit (ConnectionLimitCount cfg) (toInt32 (ConnectionLimitDurationInSeconds cfg)) urls)
          else ret ());
     _ \<leftarrow> sNote (SWebhooks handlers (0 < ConnectionLimitCount cfg));
     _ \<leftarrow> (if StartupDelay cfg \<noteq> 0 then sNote (SSleep (StartupDelay cfg * 10 ^ 9)) else ret ());
     m \<leftarrow> mqttAttempts lib cfg 10 None;
     case m of
       Some e \<Rightarrow> ret (Some e)
     | None \<Rightarrow> do {
         _ \<leftarrow> sNote (SSetCommands (if 1 < CommandWorkerCount cfg then QueuedCommands (CommandWorkerCount cfg)
                else DirectCommands));
         sCall (slStartConsumer lib) (\<lambda>e. [SStartConsumer e])
       }
   }"

text \<open>
  \<open>Start\<close> asks for the logger first, which settles the log level of the configuration. \<open>Crashed\<close>: the
  constructor of the event handler panics on an invalid namespace.
\<close>

datatype startResult = Started | StartFailed goerror | Crashed

definition finishStart :: "goerror option \<Rightarrow> startResult" where
  "finishStart e = (case e of None \<Rightarrow> Started | Some e \<Rightarrow> StartFailed e)"

definition Start ::
  "'w startLib \<Rightarrow> 'v connector \<Rightarrow> config \<Rightarrow> waitingRoom \<Rightarrow> ('w, startResult) start" where
  "Start lib cn cfg0 wr = (let cfg = loggerLevel cfg0 in case parseDuration (AsyncFlushFrequency cfg) of
     Inl e \<Rightarrow> ret (StartFailed (errorsNew e))
   | Inr flush \<Rightarrow> do {
       _ \<leftarrow> sNote (SCorrelation (toInt32 (CorrelationExpiration cfg)) (CorrelationMaxIdleConns cfg)
            (correlationTimeout cfg) (StringToList (MemcachedUrl cfg)));
       let lc = libConfigOf cfg flush;
       r1 \<leftarrow> sCall (slNew lib lc) (\<lambda>e. [SNew lc e]);
       case r1 of Some e \<Rightarrow> ret (StartFailed e) | None \<Rightarrow> do {
       _ \<leftarrow> (if Debug cfg then sNote SCacheDebug else ret ());
       r2 \<leftarrow> sCall (slInitProducer lib) (\<lambda>e. [SInitProducer e]);
       case r2 of Some e \<Rightarrow> ret (StartFailed e) | None \<Rightarrow> do {
       r3 \<leftarrow> sCall (slGetProducer lib (ConnectionLogQos cfg)) (\<lambda>e. [SGetProducer (ConnectionLogQos cfg) e]);
       case r3 of Some e \<Rightarrow> ret (StartFailed e) | None \<Rightarrow> do {
       r4 \<leftarrow> startLogger lib cfg;
       case r4 of Some e \<Rightarrow> ret (StartFailed e) | None \<Rightarrow> do {
       r5 \<leftarrow> NewMetrics lib;
       case r5 of Some e \<Rightarrow> ret (StartFailed e) | None \<Rightarrow>
         (case newEventHandler cfg cn wr of
            None \<Rightarrow> ret Crashed
          | Some ev \<Rightarrow>
              (case startHandlers cfg ev of
                 Inl e \<Rightarrow> ret (StartFailed e)
               | Inr handlers \<Rightarrow> do {
                   r \<leftarrow> startServing lib cfg handlers;
                   ret (finishStart r)
                 }))
       }}}}
     })"

section \<open>main\<close>

datatype logTarget = VoidLog | DefaultLog | StdoutLog | StderrLog | FileLog string

definition logTarget :: "config \<Rightarrow> logTarget" where
  "logTarget cfg =
     (if Log cfg = ''void'' then VoidLog
      else if Log cfg = [] then DefaultLog
      else if Log cfg = ''stdout'' then StdoutLog
      else if Log cfg = ''stderr'' then StderrLog
      else FileLog (Log cfg))"

definition publishesDocs :: "config \<Rightarrow> bool" where
  "publishesDocs cfg \<longleftrightarrow> ApiDocsProviderBaseUrl cfg \<noteq> [] \<and> ApiDocsProviderBaseUrl cfg \<noteq> ''-''"

definition asyncDocName :: string where
  "asyncDocName = ''github_com_SENERGY-Platform_senergy-platform-connector''"

definition PublishAsyncApiDoc :: "'w startLib \<Rightarrow> config \<Rightarrow> ('w, goerror option) start" where
  "PublishAsyncApiDoc lib cfg =
     (let u = ApiDocsProviderBaseUrl cfg; d = slAsyncDoc lib
      in sCall (slPutDoc lib u asyncDocName d) (\<lambda>e. [SPutDoc u asyncDocName d e]))"

text \<open>
  The process ends at once with an error (\<open>Fatal\<close>) or serves until a signal; \<open>logOpen\<close> is the error of
  opening the log file. An error of the upload is only logged. The configuration is the one \<open>Start\<close> leaves.
\<close>

datatype mainResult = Fatal goerror | Serving config logTarget | Panicked

definition mainProgram ::
  "'w startLib \<Rightarrow> 'v connector \<Rightarrow> loadResult \<Rightarrow> (string \<Rightarrow> goerror option) \<Rightarrow> ('w, mainResult) start" where
  "mainProgram lib cn loaded logOpen = do {
     _ \<leftarrow> sNote (SSleep (5 * 10 ^ 9));
     case loaded of
       LoadError e \<Rightarrow> ret (Fatal e)
     | LoadCrash \<Rightarrow> ret Panicked
     | Loaded cfg \<Rightarrow>
         (case (case logTarget cfg of FileLog f \<Rightarrow> logOpen f | _ \<Rightarrow> None) of
            Some e \<Rightarrow> ret (Fatal e)
          | None \<Rightarrow> do {
              r \<leftarrow> Start lib cn cfg (NewWaitingRoom (WaitingRoomUrl cfg));
              case r of
                StartFailed e \<Rightarrow> ret (Fatal e)
              | Crashed \<Rightarrow> ret Panicked
              | Started \<Rightarrow> do {
                  _ \<leftarrow> (if publishesDocs cfg then PublishAsyncApiDoc lib cfg else ret None);
                  ret (Serving (loggerLevel cfg) (logTarget cfg))
                }
            })
   }"

text \<open>
  After the signal the context ends: every goroutine that waits for this disconnects its client, here in
  the order in which they were started, while \<open>main\<close> waits one second and returns.
\<close>

fun shutdownJobs :: "startCall list \<Rightarrow> disconnectJob list" where
  "shutdownJobs [] = []"
| "shutdownJobs (c # cs) = (case c of SOnDone j \<Rightarrow> j # shutdownJobs cs | _ \<Rightarrow> shutdownJobs cs)"

definition shutdown :: "'w startSys \<Rightarrow> 'w startSys" where
  "shutdown s = s\<lparr>ssCalls := ssCalls s @ map SDisconnect (shutdownJobs (ssCalls s))\<rparr>"

definition shutdownPause :: int where
  "shutdownPause = 10 ^ 9"

text \<open>The writer behind the log target \<open>void\<close>: every byte counts as written.\<close>

definition voidWrite :: "string \<Rightarrow> nat \<times> goerror option" where
  "voidWrite p = (length p, None)"

section \<open>The list of handlers keeps the contract\<close>

lemma handlerOf_contract: "topic_handler (handlerOf cfg cn upstream syncQos k)"
  by (cases k) (simp_all add: handlerOf_def eventH.topic_handler_axioms responseH.topic_handler_axioms
      commandH.topic_handler_axioms processH.topic_handler_axioms exportH.topic_handler_axioms
      notificationsH.topic_handler_axioms errorH.topic_handler_axioms fogH.topic_handler_axioms
      healthH.topic_handler_axioms)

end
