(* ===== verification/CommandSend.thy ===== *)
theory CommandSend
  imports HandlerCore
begin

text \<open>
  Commands to devices: \<open>lib/command.go\<close>, the envelope of \<open>lib/model.go\<close>, and the \<open>Publish\<close> methods of
  the MQTT clients in \<open>lib/mqtt.go\<close>. A command is stored under a correlation id and sent to the topic of
  its device. The channel and the workers are in \<open>CommandWorkers\<close>.
\<close>

section \<open>Publishing to MQTT\<close>

text \<open>Quality of service 2, not retained. Version 4 clients refuse while they are not connected.\<close>

definition mqttSendMsg :: "'w connector \<Rightarrow> string \<Rightarrow> string \<Rightarrow> ('w, goerror option) io" where
  "mqttSendMsg cn topic msg = perform (mqttSend cn topic 2 False msg) (CMqttPublish topic 2 False msg)"

definition mqtt4Publish :: "'w connector \<Rightarrow> string \<Rightarrow> string \<Rightarrow> ('w, goerror option) io" where
  "mqtt4Publish cn topic msg = do {
     c \<leftarrow> perform (mqttConnected cn) CMqttConnected;
     if \<not> c then ret (Some (errorsNew ''mqtt client not connected''))
     else mqttSendMsg cn topic msg
   }"

definition mqtt5Publish :: "'w connector \<Rightarrow> string \<Rightarrow> string \<Rightarrow> ('w, goerror option) io" where
  "mqtt5Publish cn topic msg = mqttSendMsg cn topic msg"

definition mqttPublish :: "config \<Rightarrow> 'w connector \<Rightarrow> string \<Rightarrow> string \<Rightarrow> ('w, goerror option) io" where
  "mqttPublish cfg cn topic msg =
     (if MqttVersion cfg = ''5'' then mqtt5Publish cn topic msg else mqtt4Publish cn topic msg)"

section \<open>The command handler\<close>

text \<open>
  \<open>model.ProtocolMsg\<close> as in \<open>Services\<close>; the request message is a map of the platform library, given
  by the JSON value it is encoded as.
\<close>

record command =
  cmdRequest :: protocolMsg
  cmdMsg :: json
  cmdTime :: int

record requestEnvelope =
  rvCorrelationId :: string
  rvPayload :: json
  rvTime :: int
  rvCompletionStrategy :: string

definition envelopeJson :: "requestEnvelope \<Rightarrow> json" where
  "envelopeJson e = JObj [(''correlation_id'', JStr (rvCorrelationId e)), (''payload'', rvPayload e),
     (''timestamp'', JNum (showInt (rvTime e))), (''completion_strategy'', JStr (rvCompletionStrategy e))]"

text \<open>1 January 1970 in seconds since the zero time; \<open>Unix\<close> and \<open>UnixNano\<close>.\<close>

definition unixEpoch :: int where "unixEpoch = 62135596800"

definition unixSeconds :: "int \<Rightarrow> int" where
  "unixSeconds t = t div 10 ^ 9 - unixEpoch"

definition unixNano :: "int \<Rightarrow> int" where
  "unixNano t = t - unixEpoch * 10 ^ 9"

definition connectorTrace :: "int \<Rightarrow> trace" where
  "connectorTrace now = \<lparr>trTimestamp = unixNano now, trTimeUnit = ''unix_nano'',
     trLocation = ''github.com/SENERGY-Platform/senergy-platform-connector GetCommandHandler()''\<rparr>"

definition ownerTopic :: "protocolMsg \<Rightarrow> string" where
  "ownerTopic m = ''command/'' @ pmDeviceOwnerId m @ ''/'' @ pmDeviceLocalId m @ ''/'' @ pmServiceLocalId m"

definition plainTopic :: "protocolMsg \<Rightarrow> string" where
  "plainTopic m = ''command/'' @ pmDeviceLocalId m @ ''/'' @ pmServiceLocalId m"

definition GetCommandHandler :: "config \<Rightarrow> 'w connector \<Rightarrow> command \<Rightarrow> ('w, goerror option) io" where
  "GetCommandHandler cfg cn cmd = do {
     now \<leftarrow> perform (timeNow cn) CNow;
     let request = (cmdRequest cmd)\<lparr>pmTrace := pmTrace (cmdRequest cmd) @ [connectorTrace now]\<rparr>;
     c \<leftarrow> perform (correlationSave cn request) (CCorrelationSave request);
     case c of
       Inl e \<Rightarrow> ret (Some e)
     | Inr correlationId \<Rightarrow> do {
         let b = marshal (envelopeJson \<lparr>rvCorrelationId = correlationId, rvPayload = cmdMsg cmd,
               rvTime = unixSeconds (cmdTime cmd), rvCompletionStrategy = pmCompletionStrategy request\<rparr>);
         r \<leftarrow> mqttPublish cfg cn (ownerTopic request) b;
         case r of
           Some e \<Rightarrow> ret (Some e)
         | None \<Rightarrow>
             (if \<not> ForceTopicsWithOwner cfg then mqttPublish cfg cn (plainTopic request) b else ret None)
       }
   }"

lemma quiet_mqttPublish [quiet_intros]: "quiet (mqttPublish cfg cn t m)"
  unfolding mqttPublish_def mqtt4Publish_def mqtt5Publish_def mqttSendMsg_def by (intro quiet_intros)

lemma quiet_GetCommandHandler [quiet_intros]: "quiet (GetCommandHandler cfg cn cmd)"
  unfolding GetCommandHandler_def by (intro quiet_intros)

end
