(* ===== verification/TestServices.thy ===== *)
theory TestServices
  imports Startup CommandSend
begin

text \<open>
  One concrete platform, for the examples at which the theorems are applied: a user whose id is
  \<open>user\<close>, one device of every local id with one service \<open>srv\<close>, a hub \<open>hub\<close>, and services that
  succeed. Nothing else rests on it.
\<close>

definition testDevice :: "string \<Rightarrow> device" where
  "testDevice l = \<lparr>devId = ''id:'' @ l, devLocalId = l, devName = l, devAttributes = [], devTypeId = ''type''\<rparr>"

definition testDeviceType :: deviceType where
  "testDeviceType = \<lparr>dtId = ''type'', dtAttributes = [],
     dtServices = [\<lparr>svLocalId = ''srv'', svOutputs = []\<rparr>]\<rparr>"

definition testRequest :: protocolMsg where
  "testRequest = \<lparr>pmDeviceId = ''id:d'', pmDeviceOwnerId = ''user'', pmDeviceLocalId = ''d'',
     pmServiceLocalId = ''srv'', pmCompletionStrategy = ''pessimistic'', pmTrace = []\<rparr>"

definition testInfo :: handledInfo where
  "testInfo = \<lparr>hiDeviceId = ''id'', hiDeviceTypeId = ''type'', hiServiceIds = [''s'']\<rparr>"

definition testConn :: "unit connector" where
  "testConn = \<lparr>
     getCachedUserToken = \<lambda>u w. (Inr ''token'', w),
     getUserToken = \<lambda>u p r w. (if p = ''pw'' then Inr ''token'' else Inr [], w),
     exchangeUserToken = \<lambda>u r w. (Inr ''token'', w),
     access = \<lambda>w. (Inr ''admin'', w),
     getUserId = \<lambda>u w. (Inr ''user'', w),
     getHub = \<lambda>h t w. (Inr \<lparr>hubOwnerId = ''user'', hubDeviceLocalIds = [''d'']\<rparr>, w),
     existsHub = \<lambda>h t w. ((h = ''hub'', None), w),
     getDeviceByLocalId = \<lambda>t l w. (Inr (testDevice l), w),
     getDeviceType = \<lambda>t i w. (Inr testDeviceType, w),
     updateDeviceType = \<lambda>t d w. (Inr d, w),
     handleDeviceEvent = \<lambda>t d s m q w. ((testInfo, None), w),
     handleCommandResponse = \<lambda>r m q w. (None, w),
     handleClientError = \<lambda>u c m w. ((), w),
     handleDeviceError = \<lambda>u d m w. ((), w),
     handleCommandErr = \<lambda>u p m w. ((), w),
     getProducer = \<lambda>q w. (None, w),
     produceWithKey = \<lambda>q t m k w. (None, w),
     correlationGet = \<lambda>i w. (Inr testRequest, w),
     correlationSave = \<lambda>r w. (Inr ''corr'', w),
     logDeviceConnect = \<lambda>d w. (None, w),
     logDeviceDisconnect = \<lambda>d w. (None, w),
     logHubConnect = \<lambda>d w. (None, w),
     logHubDisconnect = \<lambda>d w. (None, w),
     limitCheck = \<lambda>c w. (None, w),
     errorMetricInc = \<lambda>w. ((), w),
     statistics = \<lambda>x w. ((), w),
     timeNow = \<lambda>w. (1000, w),
     cacheGet = \<lambda>k w. (Inl (GoError ''not found'' [CacheErrNotFound]), w),
     cacheSet = \<lambda>k v d w. (None, w),
     execCommand = \<lambda>p as w. (([], None), w),
     httpHead = \<lambda>u t w. (Inr 404, w),
     putAttributes = \<lambda>u t as w. (None, w),
     putStub = \<lambda>u t d w. ((d, None), w),
     cacheUseLookup = \<lambda>k w. (None, w),
     cacheUseFinish = \<lambda>k r w. (r, w),
     getJsonDevice = \<lambda>u t w. (Inr (testDevice ''d''), w),
     httpGet = \<lambda>u w. (Inr (200, ''{}''), w),
     mqttConnected = \<lambda>w. (True, w),
     mqttSend = \<lambda>t q r m w. (None, w),
     rangeChoice = \<lambda>w. ([], w),
     afterFunc = \<lambda>d u w. ((), w),
     jwtParse = \<lambda>t. Inr \<lparr>jwtUserId = ''user'', jwtIsAdmin = False\<rparr>,
     jwtGetPayload = \<lambda>t. Inr \<lparr>plUserId = ''user'', plRoles = []\<rparr>,
     jsonErrorText = \<lambda>t s. ''invalid json'',
     decodeResponse = \<lambda>p. Inr \<lparr>reCorrelationId = ''corr'', rePayload = Map.empty, reTrace = []\<rparr>,
     decodeEncrypted = \<lambda>s. Inl (errorsNew ''no telegram''),
     uuidParse = \<lambda>s. Some s,
     utilDeviceTypeId = \<lambda>a b c d. Inr ''type'',
     utilDeviceType = \<lambda>a b c d e f g h. testDeviceType,
     floatText = \<lambda>s. Some s,
     newRequestErr = \<lambda>u. None\<rparr>"

definition s0 :: "unit sys" where
  "s0 = \<lparr>world = (), calls = [], written = [], hubCache = newHubCheckCache 1000 10\<rparr>"

definition testConfig :: config where
  "testConfig = emptyConfig\<lparr>AuthClientId := ''connector'', AuthClientSecret := ''secret'',
     MqttAuthMethod := ''password'', HealthTopic := ''health'', GatewayHealthTopic := ''gateway-health'',
     HealthHubCheckCacheDuration := ''10s'', HealthMaxPayloadSize := 1000, FogHandlerTopicPrefix := ''fog/'',
     AsyncFlushFrequency := ''1s'', NimbusDeviceTypeId := ''nimbus''\<rparr>"

definition testEvent :: eventHandlerConf where
  "testEvent = \<lparr>ehNamespace = ''ns'', ehWaitingRoom = TestWaitingRoom\<rparr>"

section \<open>Reading it\<close>

named_theorems test_simps \<open>the fields of the example platform, one by one\<close>

lemma testConn_fields [test_simps]:
  "getCachedUserToken testConn u1 w1 = (Inr ''token'', w1)"
  "getUserToken testConn u2 p2 r2 w2 = (if p2 = ''pw'' then Inr ''token'' else Inr [], w2)"
  "exchangeUserToken testConn u3 r3 w3 = (Inr ''token'', w3)"
  "access testConn w4 = (Inr ''admin'', w4)"
  "getUserId testConn u5 w5 = (Inr ''user'', w5)"
  "getHub testConn h6 t6 w6 = (Inr \<lparr>hubOwnerId = ''user'', hubDeviceLocalIds = [''d'']\<rparr>, w6)"
  "existsHub testConn h7 t7 w7 = ((h7 = ''hub'', None), w7)"
  "getDeviceByLocalId testConn t8 l8 w8 = (Inr (testDevice l8), w8)"
  "getDeviceType testConn t9 i9 w9 = (Inr testDeviceType, w9)"
  "updateDeviceType testConn t10 d10 w10 = (Inr d10, w10)"
  "handleDeviceEvent testConn t11 d11 s11 m11 q11 w11 = ((testInfo, None), w11)"
  "handleCommandResponse testConn r12 m12 q12 w12 = (None, w12)"
  "handleClientError testConn u13 c13 m13 w13 = ((), w13)"
  "handleDeviceError testConn u14 d14 m14 w14 = ((), w14)"
  "handleCommandErr testConn u15 p15 m15 w15 = ((), w15)"
  "getProducer testConn q16 w16 = (None, w16)"
  "produceWithKey testConn q17 t17 m17 k17 w17 = (None, w17)"
  "correlationGet testConn i18 w18 = (Inr testRequest, w18)"
  "correlationSave testConn r19 w19 = (Inr ''corr'', w19)"
  "logDeviceConnect testConn d20 w20 = (None, w20)"
  "logDeviceDisconnect testConn d21 w21 = (None, w21)"
  "logHubConnect testConn d22 w22 = (None, w22)"
  "logHubDisconnect testConn d23 w23 = (None, w23)"
  "limitCheck testConn c24 w24 = (None, w24)"
  "errorMetricInc testConn w25 = ((), w25)"
  "statistics testConn x26 w26 = ((), w26)"
  "timeNow testConn w27 = (1000, w27)"
  "cacheGet testConn k28 w28 = (Inl (GoError ''not found'' [CacheErrNotFound]), w28)"
  "cacheSet testConn k29 v29 d29 w29 = (None, w29)"
  "execCommand testConn p30 as30 w30 = (([], None), w30)"
  "httpHead testConn u31 t31 w31 = (Inr 404, w31)"
  "putAttributes testConn u32 t32 as32 w32 = (None, w32)"
  "putStub testConn u33 t33 d33 w33 = ((d33, None), w33)"
  "cacheUseLookup testConn k34 w34 = (None, w34)"
  "cacheUseFinish testConn k35 r35 w35 = (r35, w35)"
  "getJsonDevice testConn u36 t36 w36 = (Inr (testDevice ''d''), w36)"
  "httpGet testConn u37 w37 = (Inr (200, ''{}''), w37)"
  "mqttConnected testConn w38 = (True, w38)"
  "mqttSend testConn t39 q39 r39 m39 w39 = (None, w39)"
  "rangeChoice testConn w40 = ([], w40)"
  "afterFunc testConn d41 u41 w41 = ((), w41)"
  "jwtParse testConn t42 = Inr \<lparr>jwtUserId = ''user'', jwtIsAdmin = False\<rparr>"
  "jwtGetPayload testConn t43 = Inr \<lparr>plUserId = ''user'', plRoles = []\<rparr>"
  "jsonErrorText testConn t44 s44 = ''invalid json''"
  "decodeResponse testConn p45 = Inr \<lparr>reCorrelationId = ''corr'', rePayload = Map.empty, reTrace = []\<rparr>"
  "decodeEncrypted testConn s46 = Inl (errorsNew ''no telegram'')"
  "uuidParse testConn s47 = Some s47"
  "utilDeviceTypeId testConn a48 b48 c48 d48 = Inr ''type''"
  "utilDeviceType testConn a49 b49 c49 d49 e49 f49 g49 h49 = testDeviceType"
  "floatText testConn s50 = Some s50"
  "newRequestErr testConn u51 = None"
  by (simp_all add: testConn_def)

lemma testConfig_fields [test_simps]:
  "AuthClientId testConfig = ''connector''"
  "AuthClientSecret testConfig = ''secret''"
  "MqttAuthMethod testConfig = ''password''"
  "HealthTopic testConfig = ''health''"
  "GatewayHealthTopic testConfig = ''gateway-health''"
  "HealthHubCheckCacheDuration testConfig = ''10s''"
  "HealthMaxPayloadSize testConfig = 1000"
  "FogHandlerTopicPrefix testConfig = ''fog/''"
  "AsyncFlushFrequency testConfig = ''1s''"
  "NimbusDeviceTypeId testConfig = ''nimbus''"
  "CheckHub testConfig = False"
  "ForceTopicsWithOwner testConfig = False"
  "ForceCommandSubscriptionServiceSingleLevelWildcard testConfig = False"
  "MqttPublishAuthOnly testConfig = False"
  "MqttVersion testConfig = []"
  "MqttErrorOnEventValidationError testConfig = False"
  "CommandWorkerCount testConfig = 0"
  "ForceCleanSession testConfig = False"
  "CleanSessionAllowUserList testConfig = []"
  "VmqAdminApiUrl testConfig = []"
  "DisconnectCommandDelay testConfig = []"
  "DeviceManagerUrl testConfig = []"
  "DeviceExpiration testConfig = 0"
  "WmbusmetersExecutable testConfig = []"
  "WmbusmetersDriversDir testConfig = []"
  "WmbusDeviceClassId testConfig = []"
  "SenergyProtocolId testConfig = []"
  "SenergyProtoclSegment testConfig = []"
  "SecRemoteProtocol testConfig = []"
  by (simp_all add: testConfig_def emptyConfig_def)

lemma s0_fields [test_simps]:
  "world s0 = ()" "calls s0 = []" "written s0 = []" "hubCache s0 = newHubCheckCache 1000 10"
  by (simp_all add: s0_def)

section \<open>Its durations\<close>

lemma durLoop_numeral: "durLoop (numeral k) orig d s =
     (if s = [] then Inr d
      else (case durItem orig s of
        Inl e \<Rightarrow> Inl e
      | Inr (v, r) \<Rightarrow>
          (if 2 ^ 63 < d + v then Inl (''time: invalid duration '' @ durQuote orig)
           else durLoop (pred_numeral k) orig (d + v) r)))"
  by (simp add: numeral_eq_Suc)

lemma parseDuration_examples:
  "parseDuration ''10s'' = Inr (10 * 10 ^ 9)" "parseDuration ''1s'' = Inr (10 ^ 9)"
proof -
  have "durItem ''10s'' ''10s'' = Inr (10 * 1000000000, [])" "durItem ''1s'' ''1s'' = Inr (1000000000, [])"
    by (simp_all add: durItem_def durDigit_def durUnit_def Let_def)
  then show "parseDuration ''10s'' = Inr (10 * 10 ^ 9)" "parseDuration ''1s'' = Inr (10 ^ 9)"
    by (simp_all add: parseDuration_def durLoop_numeral Let_def)
qed

lemma testConfig_health: "NewFromConfig testConfig = Inr (\<lparr>hhConfig = \<lparr>hcTopic = ''health'',
    hcKafkaTopic = ''gateway-health'', hcMaxPayloadSize = 1000, hcDuration = 10 * 10 ^ 9\<rparr>\<rparr>,
    newHubCheckCache (10 * 10 ^ 9) 100000)"
  by (simp add: NewFromConfig_def newHealth_def Enabled_def maxHubCheckCacheEntries_def test_simps
      parseDuration_examples)

end
