(* ===== verification/JsonNumbers.thy ===== *)
theory JsonNumbers
  imports GoJsonFacts GoStrings
begin

text \<open>
  The integers the connector writes (\<open>strconv\<close>, \<open>encoding/json\<close>) are number literals of the JSON
  grammar, so a document built from them reads back.
\<close>

lemma digitChar: "n < 10 \<Longrightarrow> byte (char_of (48 + n :: nat)) = 48 + n"
  by simp

lemma isDigit_digit: "n < 10 \<Longrightarrow> isDigit (char_of (48 + n :: nat))"
  by (simp add: isDigit_def inRange_def)

lemma showNat_digits: "list_all isDigit (showNat n) \<and> showNat n \<noteq> []"
proof (induction n rule: showNat.induct)
  case (1 n)
  then show ?case by (simp add: showNat.simps [of n] isDigit_digit)
qed

lemma showNat_head: "10 \<le> n \<Longrightarrow> hd (showNat n) \<noteq> CHR ''0''"
proof (induction n rule: showNat.induct)
  case (1 n)
  have h: "hd (showNat n) = hd (showNat (n div 10))"
    using 1(2) showNat_digits [of "n div 10"] by (subst showNat.simps) simp
  show ?case
  proof (cases "10 \<le> n div 10")
    case True
    with 1 h show ?thesis by simp
  next
    case False
    have "48 + n div 10 \<noteq> byte CHR ''0''" using 1(2) by simp
    with False have "char_of (48 + n div 10) \<noteq> CHR ''0''" by (metis digitChar not_le)
    with False h show ?thesis by (simp add: showNat.simps [of "n div 10"])
  qed
qed

lemma intPart_digits:
  assumes "list_all isDigit s" "s \<noteq> []" "hd s \<noteq> CHR ''0'' \<or> length s = 1"
  shows "intPart s = Some (s, [])"
  using assms by (cases s) (auto simp: intPart_def list_all_iff)

lemma intPart_showNat: "intPart (showNat n) = Some (showNat n, [])"
proof (rule intPart_digits)
  show "hd (showNat n) \<noteq> CHR ''0'' \<or> length (showNat n) = 1"
    using showNat_head [of n] by (cases "10 \<le> n") (simp_all add: showNat.simps [of n])
qed (use showNat_digits [of n] in auto)

lemma digit_not_minus: "isDigit c \<Longrightarrow> c \<noteq> CHR ''-''"
  by (auto simp: isDigit_def inRange_def)

lemma isDigit_set: "isDigit c \<Longrightarrow> c \<in> set ''0123456789''"
proof -
  assume "isDigit c"
  then have "byte c \<in> {48..57}" by (auto simp: isDigit_def inRange_def)
  moreover have "{48..57} = {48, 49, 50, 51, 52, 53, 54, 55, 56, 57 :: nat}"
    by (intro set_eqI) (simp, presburger)
  ultimately have "byte c \<in> {48, 49, 50, 51, 52, 53, 54, 55, 56, 57}" by simp
  then have "char_of (byte c) \<in> set ''0123456789''" by (elim insertE emptyE) (simp_all add: char_of_def bit_0)
  then show ?thesis by simp
qed

lemma numOk_showInt: "numOk (showInt i)"
proof -
  let ?n = "showNat (nat \<bar>i\<bar>)"
  have d: "list_all isDigit ?n" "?n \<noteq> []" using showNat_digits by blast+
  then have hd: "isDigit (hd ?n)" by (cases ?n) simp_all
  have sign: "optSign ?n = ([], ?n)" using d hd digit_not_minus [of "hd ?n"]
    by (cases ?n) (auto simp: optSign_def)
  have neg: "optSign (CHR ''-'' # ?n) = (''-'', ?n)" by (simp add: optSign_def)
  note lit = numLit_def intPart_showNat fracPart_def expPart_def
  show ?thesis
  proof (cases "i < 0")
    case True
    then have "showInt i = CHR ''-'' # ?n" by (simp add: showInt_def)
    then show ?thesis by (simp add: numOk_def lit neg)
  next
    case False
    then have "showInt i = ?n" by (simp add: showInt_def)
    then show ?thesis using d(2) isDigit_set [OF hd] by (simp add: numOk_def lit sign)
  qed
qed

end
