(* ===== verification/CommandProperties.thy ===== *)
theory CommandProperties
  imports TestServices JsonNumbers
begin

text \<open>
  What the handler of one command promises: the topics a command is sent to read back as its device,
  the message as its envelope, and it is delivered or reported as an error.
\<close>

section \<open>One command\<close>

text \<open>
  C18. The topics a command is sent to are the ones the connector itself parses: with an owner, and
  without one, they give back device and service of the command, when those contain no slash.
\<close>

theorem command_topics_parse:
  assumes "CHR ''/'' \<notin> set (pmDeviceOwnerId m @ pmDeviceLocalId m @ pmServiceLocalId m)"
  shows "ParseTopic (ownerTopic m) =
      Inr (TopicParts ''command'' (pmDeviceOwnerId m) (pmDeviceLocalId m) (pmServiceLocalId m)) \<and>
    ParseTopic (plainTopic m) = Inr (TopicParts ''command'' [] (pmDeviceLocalId m) (pmServiceLocalId m))"
proof -
  have "splitOn CHR ''/'' (ownerTopic m) =
      [''command'', pmDeviceOwnerId m, pmDeviceLocalId m, pmServiceLocalId m]"
    "splitOn CHR ''/'' (plainTopic m) = [''command'', pmDeviceLocalId m, pmServiceLocalId m]"
    using assms by (simp_all add: splitOn_eq_iff ownerTopic_def plainTopic_def)
  then show ?thesis by (simp add: ParseTopic_def)
qed

theorem command_topics_parse_witness:
  "ParseTopic (ownerTopic testRequest) = Inr (TopicParts ''command'' ''user'' ''d'' ''srv'') \<and>
   ParseTopic (plainTopic testRequest) = Inr (TopicParts ''command'' [] ''d'' ''srv'')"
  using command_topics_parse [of testRequest] by (simp add: testRequest_def)

section \<open>The message\<close>

lemma normUtf8_ascii_names:
  "normUtf8 ''correlation_id'' = ''correlation_id''" "normUtf8 ''payload'' = ''payload''"
  "normUtf8 ''timestamp'' = ''timestamp''" "normUtf8 ''completion_strategy'' = ''completion_strategy''"
  by (rule normUtf8_valid, rule utf8Valid_ascii, simp)+

lemma envelope_parses:
  assumes "jsonOk (maxNestingDepth - 1) (rvPayload env)"
  shows "parseJson (marshal (envelopeJson env)) =
    Some (JObj [(''correlation_id'', JStr (normUtf8 (rvCorrelationId env))), (''payload'', normJson (rvPayload env)),
      (''timestamp'', JNum (showInt (rvTime env))),
      (''completion_strategy'', JStr (normUtf8 (rvCompletionStrategy env)))])"
proof -
  have "jsonOk maxNestingDepth (envelopeJson env)"
    using assms by (simp add: envelopeJson_def numOk_showInt maxNestingDepth_def)
  from parse_marshal [OF this] show ?thesis
    unfolding parseJson_def by (simp add: envelopeJson_def normUtf8_ascii_names)
qed

text \<open>The text that is sent, and the request that is stored.\<close>

definition commandText :: "string \<Rightarrow> command \<Rightarrow> string" where
  "commandText cid cmd = marshal (envelopeJson \<lparr>rvCorrelationId = cid, rvPayload = cmdMsg cmd,
     rvTime = unixSeconds (cmdTime cmd), rvCompletionStrategy = pmCompletionStrategy (cmdRequest cmd)\<rparr>)"

definition tracedRequest :: "int \<Rightarrow> command \<Rightarrow> protocolMsg" where
  "tracedRequest now cmd = (cmdRequest cmd)\<lparr>pmTrace := pmTrace (cmdRequest cmd) @ [connectorTrace now]\<rparr>"

text \<open>The messages sent, with the error each of them met.\<close>

definition published :: "call list \<Rightarrow> (string \<times> goerror option) list" where
  "published cs = List.map_filter
     (\<lambda>c. case c of CMqttPublish t q rt b e \<Rightarrow> Some (t, e) | _ \<Rightarrow> None) cs"

lemma published_simps [simp]:
  "published [] = []" "published (CMqttPublish t q rt b e # cs) = (t, e) # published cs"
  "published (CNow n # cs) = published cs" "published (CCorrelationSave p c # cs) = published cs"
  "published (CMqttConnected x # cs) = published cs"
  by (simp_all add: published_def map_filter_simps)

lemma published_append [simp]: "published (cs @ ds) = published cs @ published ds"
  by (simp add: published_def List.map_filter_def)

text \<open>Every message among the calls has this text, quality of service 2 and is not retained.\<close>

definition carries :: "string \<Rightarrow> call list \<Rightarrow> bool" where
  "carries b cs \<longleftrightarrow>
     (\<forall>t q rt b' e. CMqttPublish t q rt b' e \<in> set cs \<longrightarrow> q = 2 \<and> \<not> rt \<and> b' = b)"

lemma carries_append [simp]: "carries b (cs @ ds) \<longleftrightarrow> carries b cs \<and> carries b ds"
  unfolding carries_def set_append Un_iff by blast

lemma carries_sent [simp]: "carries b []" "carries b [CMqttPublish t 2 False b e]"
  "carries b [CMqttConnected x]" "carries b [CMqttConnected x, CMqttPublish t 2 False b e]"
  by (simp_all add: carries_def)

lemma carriesD: "carries b cs \<Longrightarrow> CMqttPublish t q rt b' e \<in> set cs \<Longrightarrow> q = 2 \<and> \<not> rt \<and> b' = b"
  unfolding carries_def by blast

lemma mqttPublish_calls:
  assumes "run_state (mqttPublish cfg cn t b) s = (r, s')"
  obtains cs where "calls s' = calls s @ cs"
    "carries b cs"
    "published cs = [(t, r)] \<or> r \<noteq> None \<and> published cs = []"
  using assms
  by (auto simp: mqttPublish_def mqtt4Publish_def mqtt5Publish_def mqttSendMsg_def io_simps
      split: if_splits prod.splits)

lemma topics_trace [simp]: "ownerTopic (m\<lparr>pmTrace := x\<rparr>) = ownerTopic m" "plainTopic (m\<lparr>pmTrace := x\<rparr>) = plainTopic m"
  by (simp_all add: ownerTopic_def plainTopic_def)

lemma GetCommandHandler_calls:
  assumes "run_state (GetCommandHandler cfg cn cmd) s = (r, s')"
  obtains (unsaved) now e where "r \<noteq> None"
      "calls s' = calls s @ [CNow now, CCorrelationSave (tracedRequest now cmd) (Inl e)]"
  | (saved) now cid cs where
      "calls s' = calls s @ [CNow now, CCorrelationSave (tracedRequest now cmd) (Inr cid)] @ cs"
      "carries (commandText cid cmd) cs"
      "published cs = [] \<and> r \<noteq> None \<or> published cs = [(ownerTopic (cmdRequest cmd), r)] \<and>
         (r = None \<longrightarrow> ForceTopicsWithOwner cfg) \<or>
       \<not> ForceTopicsWithOwner cfg \<and> (published cs = [(ownerTopic (cmdRequest cmd), None)] \<and> r \<noteq> None \<or>
         published cs = [(ownerTopic (cmdRequest cmd), None), (plainTopic (cmdRequest cmd), r)])"
proof -
  obtain now w1 where now: "timeNow cn (world s) = (now, w1)" by (metis surj_pair)
  obtain c w2 where c: "correlationSave cn (tracedRequest now cmd) w1 = (c, w2)" by (metis surj_pair)
  define s1 where "s1 = s\<lparr>world := w2, calls := calls s @ [CNow now, CCorrelationSave (tracedRequest now cmd) c]\<rparr>"
  have s1': "c = x \<Longrightarrow> s\<lparr>world := w2, calls := calls s @ [CNow now, CCorrelationSave (tracedRequest now cmd) x]\<rparr> = s1" for x
    by (simp add: s1_def)
  have s1: "calls s1 = calls s @ [CNow now, CCorrelationSave (tracedRequest now cmd) c]" by (simp add: s1_def)
  note step = GetCommandHandler_def io_simps s1' Let_def tracedRequest_def [symmetric]
    commandText_def [symmetric]
  have strat: "pmCompletionStrategy (tracedRequest now cmd) = pmCompletionStrategy (cmdRequest cmd)"
    "ownerTopic (tracedRequest now cmd) = ownerTopic (cmdRequest cmd)"
    "plainTopic (tracedRequest now cmd) = plainTopic (cmdRequest cmd)"
    by (simp_all add: tracedRequest_def)
  show ?thesis
  proof (cases c)
    case (Inl e)
    with assms now c s1 show ?thesis by (intro unsaved) (auto simp: step)
  next
    case (Inr cid)
    obtain r1 s2 where m: "run_state (mqttPublish cfg cn (ownerTopic (cmdRequest cmd)) (commandText cid cmd)) s1 = (r1, s2)"
      by (metis surj_pair)
    obtain cs1 where cs1: "calls s2 = calls s1 @ cs1"
      "carries (commandText cid cmd) cs1"
      "published cs1 = [(ownerTopic (cmdRequest cmd), r1)] \<or> r1 \<noteq> None \<and> published cs1 = []"
      using m by (rule mqttPublish_calls) blast
    show ?thesis
    proof (cases "r1 = None \<and> \<not> ForceTopicsWithOwner cfg")
      case False
      then have "r = r1" "s' = s2" using assms now c m Inr strat
        by (cases r1; simp add: step)+
      with False cs1 s1 Inr show ?thesis by (intro saved [of now cid cs1]) auto
    next
      case True
      then have "run_state (mqttPublish cfg cn (plainTopic (cmdRequest cmd)) (commandText cid cmd)) s2 = (r, s')"
        using assms now c m Inr strat by (auto simp: step)
      then obtain cs2 where cs2: "calls s' = calls s2 @ cs2"
        "carries (commandText cid cmd) cs2"
        "published cs2 = [(plainTopic (cmdRequest cmd), r)] \<or> r \<noteq> None \<and> published cs2 = []"
        by (rule mqttPublish_calls) blast
      show ?thesis
        by (rule saved [of now cid "cs1 @ cs2"]) (use True s1 Inr cs1 cs2 in auto)
    qed
  qed
qed

text \<open>What every message of a command carries.\<close>

lemma command_message:
  assumes "run_state (GetCommandHandler cfg cn cmd) s = (r, s')"
    and "CMqttPublish topic q retain b e \<in> set (newCalls s s')"
    and "jsonOk (maxNestingDepth - 1) (cmdMsg cmd)"
  shows "q = 2 \<and> \<not> retain \<and>
    (\<exists>now cid. CCorrelationSave ((cmdRequest cmd)\<lparr>pmTrace := pmTrace (cmdRequest cmd) @ [connectorTrace now]\<rparr>)
         (Inr cid) \<in> set (newCalls s s') \<and>
       parseJson b = Some (JObj [(''correlation_id'', JStr (normUtf8 cid)), (''payload'', normJson (cmdMsg cmd)),
         (''timestamp'', JNum (showInt (unixSeconds (cmdTime cmd)))),
         (''completion_strategy'', JStr (normUtf8 (pmCompletionStrategy (cmdRequest cmd))))]))"
  using assms(1)
proof (cases rule: GetCommandHandler_calls)
  case (saved now cid cs)
  have "CMqttPublish topic q retain b e \<in> set cs" using saved(1) assms(2) by (simp add: newCalls_def)
  then have "q = 2 \<and> \<not> retain \<and> b = commandText cid cmd" using saved(2) carriesD by blast
  with saved(1) assms(3) show ?thesis
    by (auto simp: newCalls_def commandText_def envelope_parses tracedRequest_def)
qed (use assms(2) in \<open>simp add: newCalls_def\<close>)

text \<open>
  C17. Every MQTT message a command leads to is a JSON envelope that reads back with the correlation id
  under which the request was stored, the payload, the time in seconds and the completion strategy.
\<close>

theorem command_message_parses:
  assumes "run_state (GetCommandHandler cfg cn cmd) s = (r, s')"
    and "CMqttPublish topic q retain b e \<in> set (newCalls s s')"
    and "jsonOk (maxNestingDepth - 1) (cmdMsg cmd)"
  shows "q = 2 \<and> \<not> retain \<and>
    (\<exists>now cid. CCorrelationSave ((cmdRequest cmd)\<lparr>pmTrace := pmTrace (cmdRequest cmd) @ [connectorTrace now]\<rparr>)
         (Inr cid) \<in> set (newCalls s s') \<and>
       parseJson b = Some (JObj [(''correlation_id'', JStr (normUtf8 cid)), (''payload'', normJson (cmdMsg cmd)),
         (''timestamp'', JNum (showInt (unixSeconds (cmdTime cmd)))),
         (''completion_strategy'', JStr (normUtf8 (pmCompletionStrategy (cmdRequest cmd))))]))"
  using assms by (rule command_message)

definition testCommand :: command where
  "testCommand = \<lparr>cmdRequest = testRequest, cmdMsg = JObj [(''data'', JStr ''on'')],
     cmdTime = (unixEpoch + 5) * 10 ^ 9\<rparr>"

theorem command_message_parses_witness:
  "\<exists>now cid. CCorrelationSave (testRequest\<lparr>pmTrace := [connectorTrace now]\<rparr>) (Inr cid) \<in>
       set (calls (snd (run_state (GetCommandHandler testConfig testConn testCommand) s0))) \<and>
     parseJson (marshal (envelopeJson \<lparr>rvCorrelationId = ''corr'', rvPayload = JObj [(''data'', JStr ''on'')],
         rvTime = 5, rvCompletionStrategy = ''pessimistic''\<rparr>)) =
       Some (JObj [(''correlation_id'', JStr (normUtf8 cid)),
         (''payload'', normJson (JObj [(''data'', JStr ''on'')])), (''timestamp'', JNum (showInt 5)),
         (''completion_strategy'', JStr (normUtf8 ''pessimistic''))])"
proof -
  obtain r s' where run: "run_state (GetCommandHandler testConfig testConn testCommand) s0 = (r, s')"
    by (metis surj_pair)
  let ?b = "marshal (envelopeJson \<lparr>rvCorrelationId = ''corr'', rvPayload = JObj [(''data'', JStr ''on'')],
    rvTime = 5, rvCompletionStrategy = ''pessimistic''\<rparr>)"
  have "CMqttPublish ''command/user/d/srv'' 2 False ?b None \<in> set (newCalls s0 s')"
    using run
    by (auto simp: GetCommandHandler_def mqttPublish_def mqtt4Publish_def mqttSendMsg_def io_simps newCalls_def
        Let_def test_simps testCommand_def testRequest_def ownerTopic_def unixSeconds_def)
  moreover have "jsonOk (maxNestingDepth - 1) (cmdMsg testCommand)"
    by (simp add: testCommand_def maxNestingDepth_def)
  ultimately show ?thesis
    using command_message_parses [OF run, of "''command/user/d/srv''" 2 False ?b None] run
    by (simp add: testCommand_def testRequest_def newCalls_def s0_def unixSeconds_def)
qed

section \<open>Who gets it\<close>

text \<open>
  C19. A command is handled without an error exactly when it was delivered to the topic with the owner
  and then, unless topics must name the owner, to the one without; nothing else is sent.
\<close>

theorem command_delivery:
  "fst (run_state (GetCommandHandler cfg cn cmd) s) = None \<longleftrightarrow>
   published (newCalls s (snd (run_state (GetCommandHandler cfg cn cmd) s))) =
     (ownerTopic (cmdRequest cmd), None) #
       (if ForceTopicsWithOwner cfg then [] else [(plainTopic (cmdRequest cmd), None)])"
proof -
  obtain r s' where run: "run_state (GetCommandHandler cfg cn cmd) s = (r, s')" by (metis surj_pair)
  then show ?thesis
    by (cases rule: GetCommandHandler_calls) (auto simp: run newCalls_def)
qed

end
