(* ===== verification/CommandWorkers.thy ===== *)
theory CommandWorkers
  imports CommandProperties "HOL-Library.Sublist"
begin

text \<open>
  \<open>GetQueuedCommandHandler\<close> of \<open>lib/command.go\<close>: the channel for commands and the workers that empty
  it. A worker runs the handler one call of a service at a time, so that the calls of several workers,
  callers and the end of the context interleave in every order.
\<close>

section \<open>The handler in steps\<close>

text \<open>
  Where \<open>GetCommandHandler\<close> is between two calls: before it reads the clock, before it stores the
  request, before a version 4 client looks whether it is connected, before the client sends (\<open>True\<close>: to
  the topic with the owner), and at the end with its result.
\<close>

datatype commandPhase =
  AtTrace
| AtSave protocolMsg
| AtConnect bool protocolMsg string
| AtSend bool protocolMsg string
| AtEnd "goerror option"

definition atPublish :: "config \<Rightarrow> bool \<Rightarrow> protocolMsg \<Rightarrow> string \<Rightarrow> commandPhase" where
  "atPublish cfg withOwner request b =
     (if MqttVersion cfg = ''5'' then AtSend withOwner request b else AtConnect withOwner request b)"

fun commandStep :: "config \<Rightarrow> 'w connector \<Rightarrow> command \<Rightarrow> commandPhase \<Rightarrow> ('w, commandPhase) io" where
  "commandStep cfg cn cmd AtTrace = do {
     now \<leftarrow> perform (timeNow cn) CNow;
     ret (AtSave ((cmdRequest cmd)\<lparr>pmTrace := pmTrace (cmdRequest cmd) @ [connectorTrace now]\<rparr>))
   }"
| "commandStep cfg cn cmd (AtSave request) = do {
     c \<leftarrow> perform (correlationSave cn request) (CCorrelationSave request);
     ret (case c of
        Inl e \<Rightarrow> AtEnd (Some e)
      | Inr correlationId \<Rightarrow> atPublish cfg True request
          (marshal (envelopeJson \<lparr>rvCorrelationId = correlationId, rvPayload = cmdMsg cmd,
             rvTime = unixSeconds (cmdTime cmd), rvCompletionStrategy = pmCompletionStrategy request\<rparr>)))
   }"
| "commandStep cfg cn cmd (AtConnect withOwner request b) = do {
     c \<leftarrow> perform (mqttConnected cn) CMqttConnected;
     ret (if \<not> c then AtEnd (Some (errorsNew ''mqtt client not connected'')) else AtSend withOwner request b)
   }"
| "commandStep cfg cn cmd (AtSend withOwner request b) = do {
     r \<leftarrow> mqttSendMsg cn (if withOwner then ownerTopic request else plainTopic request) b;
     ret (if r = None \<and> withOwner \<and> \<not> ForceTopicsWithOwner cfg then atPublish cfg False request b else AtEnd r)
   }"
| "commandStep cfg cn cmd (AtEnd r) = ret (AtEnd r)"

primrec commandSteps :: "config \<Rightarrow> 'w connector \<Rightarrow> command \<Rightarrow> nat \<Rightarrow> commandPhase \<Rightarrow> ('w, commandPhase) io" where
  "commandSteps cfg cn cmd 0 p = ret p"
| "commandSteps cfg cn cmd (Suc n) p = do {
     p' \<leftarrow> commandStep cfg cn cmd p;
     commandSteps cfg cn cmd n p'
   }"

lemma commandSteps_AtEnd: "run_state (commandSteps cfg cn cmd n (AtEnd r)) s = (AtEnd r, s)"
  by (induction n) (simp_all add: io_simps)

text \<open>A worker that nobody interrupts does what the handler does: six steps are enough.\<close>

lemma commandSteps_publish:
  "run_state (commandSteps cfg cn cmd (Suc (Suc n)) (atPublish cfg w request b)) s =
   (case run_state (mqttPublish cfg cn (if w then ownerTopic request else plainTopic request) b) s of
      (r, s') \<Rightarrow> if r = None \<and> w \<and> \<not> ForceTopicsWithOwner cfg
        then run_state (commandSteps cfg cn cmd (if MqttVersion cfg = ''5'' then Suc n else n) (atPublish cfg False request b)) s'
        else (AtEnd r, s'))"
  by (auto simp: atPublish_def mqttPublish_def mqtt4Publish_def mqtt5Publish_def mqttSendMsg_def io_simps
      commandSteps_AtEnd simp del: commandSteps.simps(2) split: prod.splits
      simp: commandSteps.simps(2) [of _ _ _ "Suc n"] commandSteps.simps(2) [of _ _ _ n])

lemma commandSteps_handler:
  "run_state (commandSteps cfg cn cmd (6 + n) AtTrace) s =
   (case run_state (GetCommandHandler cfg cn cmd) s of (r, s') \<Rightarrow> (AtEnd r, s'))"
proof -
  have six: "6 + n = Suc (Suc (Suc (Suc (Suc (Suc n)))))" by simp
  obtain now w1 where now: "timeNow cn (world s) = (now, w1)" by (metis surj_pair)
  obtain c w2 where c: "correlationSave cn (tracedRequest now cmd) w1 = (c, w2)" by (metis surj_pair)
  note start = commandSteps.simps(2) [of _ _ _ "Suc (Suc (Suc (Suc (Suc n))))"]
    commandSteps.simps(2) [of _ _ _ "Suc (Suc (Suc (Suc n)))"]
  show ?thesis
  proof (cases c)
    case (Inl e)
    with now c show ?thesis unfolding six start
      by (simp add: GetCommandHandler_def io_simps tracedRequest_def commandSteps_AtEnd Let_def del: commandSteps.simps(2))
  next
    case (Inr cid)
    with now c show ?thesis unfolding six start
      by (auto simp: GetCommandHandler_def io_simps tracedRequest_def commandSteps_AtEnd Let_def commandSteps_publish
          simp del: commandSteps.simps(2) split: prod.splits option.splits if_splits)
  qed
qed

section \<open>The channel and its workers\<close>

text \<open>
  The capacity and the buffer of the channel, the callers that wait for room in it, oldest first, what
  each worker is busy with, whether the context has closed the channel, and the state of the connector
  that the workers act on. What a worker is busy with is a command, the place in the handler and, as a
  history, the calls made for the command so far. The last four fields are history too, in order: what
  was put into the channel, what callers got an error for, what workers took out of it, and what they
  have handled.
\<close>

record task =
  tkCommand :: command
  tkPhase :: commandPhase
  tkCalls :: "call list"

record 'w queue =
  qCap :: nat
  qBuffer :: "command list"
  qWaiting :: "command list"
  qBusy :: "task option list"
  qClosed :: bool
  qWorld :: "'w sys"
  qAccepted :: "command list"
  qRefused :: "command list"
  qTaken :: "command list"
  qHandled :: "task list"

datatype queueEvent =
  Sent command | Waits command | SendPanic command | Took nat command | Worked nat | Finished nat | Closing

text \<open>
  \<open>make\<close> and the loop that starts the workers take the same number; the connector calls this with at
  least two workers (\<open>make\<close> would panic for a negative number).
\<close>

definition newQueue :: "nat \<Rightarrow> nat \<Rightarrow> 'w sys \<Rightarrow> 'w queue" where
  "newQueue capacity workers s = \<lparr>qCap = capacity, qBuffer = [], qWaiting = [], qBusy = replicate workers None,
     qClosed = False, qWorld = s, qAccepted = [], qRefused = [], qTaken = [], qHandled = []\<rparr>"

definition GetQueuedCommandHandler :: "config \<Rightarrow> 'w sys \<Rightarrow> 'w queue" where
  "GetQueuedCommandHandler cfg s = newQueue (nat (CommandWorkerCount cfg)) (nat (CommandWorkerCount cfg)) s"

definition newTask :: "command \<Rightarrow> task" where
  "newTask cmd = \<lparr>tkCommand = cmd, tkPhase = AtTrace, tkCalls = []\<rparr>"

definition advance :: "config \<Rightarrow> 'w connector \<Rightarrow> task \<Rightarrow> 'w sys \<Rightarrow> task \<times> 'w sys" where
  "advance cfg cn t s = (case run_state (commandStep cfg cn (tkCommand t) (tkPhase t)) s of
     (p, s') \<Rightarrow> (t\<lparr>tkPhase := p, tkCalls := tkCalls t @ newCalls s s'\<rparr>, s'))"

fun ended :: "commandPhase \<Rightarrow> bool" where
  "ended (AtEnd r) = True"
| "ended p = False"

text \<open>
  The steps. A receive from a full channel lets the oldest waiting caller put its message in. Sending on
  a closed channel panics, for a caller that arrives later as for those that wait when it is closed, and
  the deferred function returns that as an error. A busy worker makes the next call of its handler
  (\<open>Worked\<close>) or, at the end of it, is free again (\<open>Finished\<close>). It leaves its loop, which needs no step,
  when the channel is closed and empty.
\<close>

inductive qstep :: "config \<Rightarrow> 'w connector \<Rightarrow> 'w queue \<Rightarrow> queueEvent \<Rightarrow> 'w queue \<Rightarrow> bool"
  for cfg cn where
  send: "\<not> qClosed q \<Longrightarrow> length (qBuffer q) < qCap q \<Longrightarrow>
    qstep cfg cn q (Sent m) (q\<lparr>qBuffer := qBuffer q @ [m], qAccepted := qAccepted q @ [m]\<rparr>)"
| wait: "\<not> qClosed q \<Longrightarrow> qCap q \<le> length (qBuffer q) \<Longrightarrow>
    qstep cfg cn q (Waits m) (q\<lparr>qWaiting := qWaiting q @ [m]\<rparr>)"
| panic: "qClosed q \<Longrightarrow> qstep cfg cn q (SendPanic m) (q\<lparr>qRefused := qRefused q @ [m]\<rparr>)"
| take: "i < length (qBusy q) \<Longrightarrow> qBusy q ! i = None \<Longrightarrow> qBuffer q = m # ms \<Longrightarrow> qWaiting q = [] \<Longrightarrow>
    qstep cfg cn q (Took i m)
      (q\<lparr>qBuffer := ms, qBusy := (qBusy q)[i := Some (newTask m)], qTaken := qTaken q @ [m]\<rparr>)"
| takeAdmit: "i < length (qBusy q) \<Longrightarrow> qBusy q ! i = None \<Longrightarrow> qBuffer q = m # ms \<Longrightarrow> qWaiting q = w # ws \<Longrightarrow>
    qstep cfg cn q (Took i m)
      (q\<lparr>qBuffer := ms @ [w], qWaiting := ws, qBusy := (qBusy q)[i := Some (newTask m)],
         qAccepted := qAccepted q @ [w], qTaken := qTaken q @ [m]\<rparr>)"
| work: "i < length (qBusy q) \<Longrightarrow> qBusy q ! i = Some t \<Longrightarrow> \<not> ended (tkPhase t) \<Longrightarrow>
    advance cfg cn t (qWorld q) = (t', s') \<Longrightarrow>
    qstep cfg cn q (Worked i) (q\<lparr>qBusy := (qBusy q)[i := Some t'], qWorld := s'\<rparr>)"
| finish: "i < length (qBusy q) \<Longrightarrow> qBusy q ! i = Some t \<Longrightarrow> ended (tkPhase t) \<Longrightarrow>
    qstep cfg cn q (Finished i) (q\<lparr>qBusy := (qBusy q)[i := None], qHandled := qHandled q @ [t]\<rparr>)"
| close: "\<not> qClosed q \<Longrightarrow>
    qstep cfg cn q Closing (q\<lparr>qClosed := True, qRefused := qRefused q @ qWaiting q, qWaiting := []\<rparr>)"

inductive_simps qstep_Took: "qstep cfg cn q (Took i m) q'"
inductive_simps qstep_Worked: "qstep cfg cn q (Worked i) q'"
inductive_simps qstep_Finished: "qstep cfg cn q (Finished i) q'"

inductive qsteps :: "config \<Rightarrow> 'w connector \<Rightarrow> 'w queue \<Rightarrow> queueEvent list \<Rightarrow> 'w queue \<Rightarrow> bool"
  for cfg cn where
  refl: "qsteps cfg cn q [] q"
| step: "qsteps cfg cn q es q' \<Longrightarrow> qstep cfg cn q' e q'' \<Longrightarrow> qsteps cfg cn q (es @ [e]) q''"

text \<open>The step an event leads to, as a function; and the state that a sequence of events leads to.\<close>

fun qnext :: "config \<Rightarrow> 'w connector \<Rightarrow> 'w queue \<Rightarrow> queueEvent \<Rightarrow> 'w queue option" where
  "qnext cfg cn q (Sent m) =
     (if \<not> qClosed q \<and> length (qBuffer q) < qCap q
      then Some (q\<lparr>qBuffer := qBuffer q @ [m], qAccepted := qAccepted q @ [m]\<rparr>) else None)"
| "qnext cfg cn q (Waits m) =
     (if \<not> qClosed q \<and> qCap q \<le> length (qBuffer q) then Some (q\<lparr>qWaiting := qWaiting q @ [m]\<rparr>) else None)"
| "qnext cfg cn q (SendPanic m) = (if qClosed q then Some (q\<lparr>qRefused := qRefused q @ [m]\<rparr>) else None)"
| "qnext cfg cn q (Took i m) =
     (if i < length (qBusy q) \<and> qBusy q ! i = None \<and> qBuffer q \<noteq> [] \<and> hd (qBuffer q) = m
      then (case qWaiting q of
          [] \<Rightarrow> Some (q\<lparr>qBuffer := tl (qBuffer q), qBusy := (qBusy q)[i := Some (newTask m)],
             qTaken := qTaken q @ [m]\<rparr>)
        | w # ws \<Rightarrow> Some (q\<lparr>qBuffer := tl (qBuffer q) @ [w], qWaiting := ws,
             qBusy := (qBusy q)[i := Some (newTask m)], qAccepted := qAccepted q @ [w], qTaken := qTaken q @ [m]\<rparr>))
      else None)"
| "qnext cfg cn q (Worked i) =
     (if i < length (qBusy q)
      then (case qBusy q ! i of
          None \<Rightarrow> None
        | Some t \<Rightarrow> if ended (tkPhase t) then None
            else (case advance cfg cn t (qWorld q) of
              (t', s') \<Rightarrow> Some (q\<lparr>qBusy := (qBusy q)[i := Some t'], qWorld := s'\<rparr>)))
      else None)"
| "qnext cfg cn q (Finished i) =
     (if i < length (qBusy q)
      then (case qBusy q ! i of
          None \<Rightarrow> None
        | Some t \<Rightarrow> if ended (tkPhase t)
            then Some (q\<lparr>qBusy := (qBusy q)[i := None], qHandled := qHandled q @ [t]\<rparr>) else None)
      else None)"
| "qnext cfg cn q Closing =
     (if \<not> qClosed q then Some (q\<lparr>qClosed := True, qRefused := qRefused q @ qWaiting q, qWaiting := []\<rparr>) else None)"

fun qexec :: "config \<Rightarrow> 'w connector \<Rightarrow> 'w queue \<Rightarrow> queueEvent list \<Rightarrow> 'w queue option" where
  "qexec cfg cn q [] = Some q"
| "qexec cfg cn q (e # es) = (case qnext cfg cn q e of None \<Rightarrow> None | Some q' \<Rightarrow> qexec cfg cn q' es)"

lemma qstep_iff: "qstep cfg cn q e q' \<longleftrightarrow> qnext cfg cn q e = Some q'"
proof
  assume "qstep cfg cn q e q'"
  then show "qnext cfg cn q e = Some q'" by (induction rule: qstep.induct) simp_all
next
  assume a: "qnext cfg cn q e = Some q'"
  show "qstep cfg cn q e q'"
  proof (cases e)
    case (Took i m)
    with a obtain ms where ms: "i < length (qBusy q)" "qBusy q ! i = None" "qBuffer q = m # ms"
      by (cases "qBuffer q") (auto split: if_splits)
    show ?thesis
    proof (cases "qWaiting q")
      case Nil
      with a Took ms qstep.take [OF ms Nil] show ?thesis by simp
    next
      case (Cons w ws)
      with a Took ms qstep.takeAdmit [OF ms Cons] show ?thesis by simp
    qed
  qed (use a in \<open>auto intro: qstep.intros split: if_splits option.splits prod.splits\<close>)
qed

lemma qsteps_trans: "qsteps cfg cn q' fs q'' \<Longrightarrow> qsteps cfg cn q es q' \<Longrightarrow> qsteps cfg cn q (es @ fs) q''"
proof (induction rule: qsteps.induct)
  case (step q' fs q1 e q2)
  then show ?case using qsteps.step [of cfg cn q "es @ fs" q1 e q2] by simp
qed simp

lemma qexec_steps: "qexec cfg cn q es = Some q' \<Longrightarrow> qsteps cfg cn q es q'"
proof (induction es arbitrary: q)
  case (Cons e es)
  then obtain q1 where q1: "qnext cfg cn q e = Some q1" "qexec cfg cn q1 es = Some q'"
    by (auto split: option.splits)
  then have "qsteps cfg cn q ([] @ [e]) q1" using qsteps.step [OF qsteps.refl] by (simp only: qstep_iff)
  from qsteps_trans [OF Cons.IH [OF q1(2)] this] show ?case by simp
qed (simp add: qsteps.refl)

section \<open>The calls of one command\<close>

text \<open>
  The calls that handling a command to the end with the result \<open>r\<close> consists of: the clock, the stored
  request, and for a stored request only messages that carry its envelope, to the topic with the owner
  first and then, if that was sent and topics need not name the owner, to the one without.
\<close>

definition commandDone :: "config \<Rightarrow> command \<Rightarrow> goerror option \<Rightarrow> call list \<Rightarrow> bool" where
  "commandDone cfg cmd r cs \<longleftrightarrow> (\<exists>now.
     (\<exists>e. r = Some e \<and> cs = [CNow now, CCorrelationSave (tracedRequest now cmd) (Inl e)]) \<or>
     (\<exists>cid ds. cs = [CNow now, CCorrelationSave (tracedRequest now cmd) (Inr cid)] @ ds \<and>
        carries (commandText cid cmd) ds \<and>
        (published ds = [] \<and> r \<noteq> None \<or>
         published ds = [(ownerTopic (cmdRequest cmd), r)] \<and> (r = None \<longrightarrow> ForceTopicsWithOwner cfg) \<or>
         \<not> ForceTopicsWithOwner cfg \<and> (published ds = [(ownerTopic (cmdRequest cmd), None)] \<and> r \<noteq> None \<or>
           published ds = [(ownerTopic (cmdRequest cmd), None), (plainTopic (cmdRequest cmd), r)]))))"

text \<open>The calls of a task at its place in the handler.\<close>

definition underway :: "config \<Rightarrow> command \<Rightarrow> bool \<Rightarrow> protocolMsg \<Rightarrow> string \<Rightarrow> call list \<Rightarrow> bool" where
  "underway cfg cmd w request b cs \<longleftrightarrow> (\<exists>now cid ds. request = tracedRequest now cmd \<and> b = commandText cid cmd \<and>
     cs = [CNow now, CCorrelationSave (tracedRequest now cmd) (Inr cid)] @ ds \<and> carries b ds \<and>
     published ds = (if w then [] else [(ownerTopic (cmdRequest cmd), None)]) \<and>
     (\<not> w \<longrightarrow> \<not> ForceTopicsWithOwner cfg))"

fun phaseCalls :: "config \<Rightarrow> command \<Rightarrow> commandPhase \<Rightarrow> call list \<Rightarrow> bool" where
  "phaseCalls cfg cmd AtTrace cs = (cs = [])"
| "phaseCalls cfg cmd (AtSave request) cs = (\<exists>now. request = tracedRequest now cmd \<and> cs = [CNow now])"
| "phaseCalls cfg cmd (AtConnect w request b) cs = underway cfg cmd w request b cs"
| "phaseCalls cfg cmd (AtSend w request b) cs = underway cfg cmd w request b cs"
| "phaseCalls cfg cmd (AtEnd r) cs = commandDone cfg cmd r cs"

lemma phaseCalls_atPublish [simp]:
  "phaseCalls cfg cmd (atPublish cfg w request b) cs = underway cfg cmd w request b cs"
  by (simp add: atPublish_def)

lemma quiet_commandStep [quiet_intros]: "quiet (commandStep cfg cn cmd p)"
  by (cases p; simp only: commandStep.simps mqttSendMsg_def; intro quiet_intros)

lemma underway_sent:
  assumes "underway cfg cmd w request b cs"
    and "topic = (if w then ownerTopic request else plainTopic request)"
  shows "(if r = None \<and> w \<and> \<not> ForceTopicsWithOwner cfg
      then underway cfg cmd False request b (cs @ [CMqttPublish topic 2 False b r])
      else commandDone cfg cmd r (cs @ [CMqttPublish topic 2 False b r]))"
proof -
  from assms(1) obtain now cid ds where u: "request = tracedRequest now cmd" "b = commandText cid cmd"
    "cs = [CNow now, CCorrelationSave (tracedRequest now cmd) (Inr cid)] @ ds" "carries b ds"
    "published ds = (if w then [] else [(ownerTopic (cmdRequest cmd), None)])"
    "\<not> w \<longrightarrow> \<not> ForceTopicsWithOwner cfg"
    unfolding underway_def by blast
  have topics: "ownerTopic request = ownerTopic (cmdRequest cmd)" "plainTopic request = plainTopic (cmdRequest cmd)"
    by (simp_all add: u(1) tracedRequest_def)
  let ?ds = "ds @ [CMqttPublish topic 2 False b r]"
  have ds: "carries b ?ds" "published ?ds =
      (if w then [(ownerTopic (cmdRequest cmd), r)] else [(ownerTopic (cmdRequest cmd), None), (plainTopic (cmdRequest cmd), r)])"
    using u(4,5) assms(2) topics by simp_all
  show ?thesis
  proof (cases "r = None \<and> w \<and> \<not> ForceTopicsWithOwner cfg")
    case True
    then have "underway cfg cmd False request b (cs @ [CMqttPublish topic 2 False b r])"
      unfolding underway_def using u ds
      by (intro exI [of _ now] exI [of _ cid] exI [of _ ?ds]) simp
    with True show ?thesis by simp
  next
    case False
    then have "commandDone cfg cmd r (cs @ [CMqttPublish topic 2 False b r])"
      unfolding commandDone_def using u ds
      by (intro exI [of _ now] disjI2 exI [of _ cid] exI [of _ ?ds]) (cases w; auto)
    with False show ?thesis by (simp only: if_False)
  qed
qed

lemma underway_connected:
  assumes "underway cfg cmd w request b cs"
  shows "underway cfg cmd w request b (cs @ [CMqttConnected x])"
    and "r \<noteq> None \<Longrightarrow> commandDone cfg cmd r (cs @ [CMqttConnected x])"
proof -
  from assms obtain now cid ds where u: "request = tracedRequest now cmd" "b = commandText cid cmd"
    "cs = [CNow now, CCorrelationSave (tracedRequest now cmd) (Inr cid)] @ ds" "carries b ds"
    "published ds = (if w then [] else [(ownerTopic (cmdRequest cmd), None)])"
    "\<not> w \<longrightarrow> \<not> ForceTopicsWithOwner cfg"
    unfolding underway_def by blast
  let ?ds = "ds @ [CMqttConnected x]"
  show "underway cfg cmd w request b (cs @ [CMqttConnected x])"
    unfolding underway_def using u by (intro exI [of _ now] exI [of _ cid] exI [of _ ?ds]) simp
  show "commandDone cfg cmd r (cs @ [CMqttConnected x])" if "r \<noteq> None"
    unfolding commandDone_def using u that
    by (intro exI [of _ now] disjI2 exI [of _ cid] exI [of _ ?ds]) (cases w; auto)
qed

lemma phaseCalls_step:
  assumes "run_state (commandStep cfg cn cmd p) s = (p', s')" "phaseCalls cfg cmd p cs"
  shows "phaseCalls cfg cmd p' (cs @ newCalls s s')"
proof (cases p)
  case AtTrace
  with assms show ?thesis by (auto simp: io_simps newCalls_def tracedRequest_def split: prod.splits)
next
  case (AtSave request)
  with assms(2) obtain now where now: "request = tracedRequest now cmd" "cs = [CNow now]" by auto
  obtain c w where c: "correlationSave cn (tracedRequest now cmd) (world s) = (c, w)" by (metis surj_pair)
  have strat: "pmCompletionStrategy (tracedRequest now cmd) = pmCompletionStrategy (cmdRequest cmd)"
    by (simp add: tracedRequest_def)
  from assms(1) AtSave now(1) c have p': "p' = (case c of Inl e \<Rightarrow> AtEnd (Some e)
      | Inr cid \<Rightarrow> atPublish cfg True (tracedRequest now cmd) (commandText cid cmd))"
    "newCalls s s' = [CCorrelationSave (tracedRequest now cmd) c]"
    by (cases c; auto simp: io_simps newCalls_def commandText_def strat)+
  show ?thesis
    by (cases c) (auto simp: p' now commandDone_def underway_def)
next
  case (AtConnect w request b)
  with assms show ?thesis
    by (auto simp: io_simps newCalls_def underway_connected split: prod.splits)
next
  case (AtSend w request b)
  define topic where "topic = (if w then ownerTopic request else plainTopic request)"
  obtain r w1 where r: "mqttSend cn topic 2 False b (world s) = (r, w1)" by (metis surj_pair)
  from assms(1) AtSend r have p': "newCalls s s' = [CMqttPublish topic 2 False b r]"
    "p' = (if r = None \<and> w \<and> \<not> ForceTopicsWithOwner cfg then atPublish cfg False request b else AtEnd r)"
    by (simp_all add: io_simps newCalls_def mqttSendMsg_def topic_def [symmetric]) (elim conjE, drule sym, simp)
  have "underway cfg cmd w request b cs" using assms(2) AtSend by simp
  from underway_sent [OF this topic_def, of r] show ?thesis unfolding p' by (auto split: if_splits)
next
  case (AtEnd r)
  with assms show ?thesis by (simp add: io_simps)
qed

section \<open>The invariant\<close>

definition busyMsgs :: "'m option list \<Rightarrow> 'm multiset" where
  "busyMsgs bs = mset (List.map_filter id bs)"

lemma busyMsgs_simps [simp]:
  "busyMsgs [] = {#}" "busyMsgs (None # bs) = busyMsgs bs" "busyMsgs (Some m # bs) = add_mset m (busyMsgs bs)"
  by (simp_all add: busyMsgs_def)

lemma busyMsgs_replicate [simp]: "busyMsgs (replicate n None) = {#}"
  by (induction n) simp_all

lemma busyMsgs_set:
  "i < length bs \<Longrightarrow> bs ! i = None \<Longrightarrow> busyMsgs (bs[i := Some m]) = add_mset m (busyMsgs bs)"
proof (induction bs arbitrary: i)
  case (Cons b bs)
  then show ?case by (cases i; cases b) auto
qed simp

lemma busyMsgs_clear:
  "i < length bs \<Longrightarrow> bs ! i = Some m \<Longrightarrow> busyMsgs bs = add_mset m (busyMsgs (bs[i := None]))"
proof (induction bs arbitrary: i)
  case (Cons b bs)
  then show ?case by (cases i; cases b) auto
qed simp

lemma busyMsgs_change:
  "i < length bs \<Longrightarrow> bs ! i = Some m \<Longrightarrow>
   busyMsgs (bs[i := Some m']) = add_mset m' (busyMsgs (bs[i := None]))"
proof (induction bs arbitrary: i)
  case (Cons b bs)
  then show ?case by (cases i; cases b) auto
qed simp

lemma busyMsgs_empty: "busyMsgs bs = {#} \<longleftrightarrow> bs = replicate (length bs) None"
proof (induction bs)
  case (Cons b bs)
  then show ?case by (cases b) auto
qed simp

lemma busyMsgs_size: "size (busyMsgs bs) \<le> length bs"
proof (induction bs)
  case (Cons b bs)
  then show ?case by (cases b) auto
qed simp

text \<open>The tasks whose calls have been made or are being made.\<close>

definition tasks :: "'w queue \<Rightarrow> task multiset" where
  "tasks q = busyMsgs (qBusy q) + mset (qHandled q)"

text \<open>
  One conjunct for each promise of the channel, and what the calls of the workers are: every one is a
  call of one task, and those of a task occur in the order of its handler.
\<close>

definition taskOk :: "config \<Rightarrow> call list \<Rightarrow> task \<Rightarrow> bool" where
  "taskOk cfg cs t \<longleftrightarrow> phaseCalls cfg (tkCommand t) (tkPhase t) (tkCalls t) \<and> subseq (tkCalls t) cs"

definition queueInv :: "config \<Rightarrow> nat \<Rightarrow> 'w sys \<Rightarrow> 'w queue \<Rightarrow> bool" where
  "queueInv cfg workers start q \<longleftrightarrow>
     qCap q = workers \<and> length (qBuffer q) \<le> qCap q \<and> length (qBusy q) = workers \<and>
     (qWaiting q \<noteq> [] \<longrightarrow> length (qBuffer q) = qCap q \<and> \<not> qClosed q) \<and>
     qAccepted q = qTaken q @ qBuffer q \<and>
     mset (qTaken q) = image_mset tkCommand (tasks q) \<and>
     (\<forall>t \<in> set (qHandled q). ended (tkPhase t)) \<and>
     extends start (qWorld q) \<and>
     mset (newCalls start (qWorld q)) = (\<Sum>t\<in>#tasks q. mset (tkCalls t)) \<and>
     (\<forall>t \<in># tasks q. taskOk cfg (newCalls start (qWorld q)) t)"

lemma queueInv_new: "queueInv cfg workers s (newQueue workers workers s)"
  by (simp add: queueInv_def newQueue_def tasks_def)

lemma taskOk_new [simp]: "taskOk cfg cs (newTask m)" "tkCommand (newTask m) = m" "tkCalls (newTask m) = []"
  by (simp_all add: taskOk_def newTask_def)

lemma taskOk_later: "taskOk cfg cs t \<Longrightarrow> taskOk cfg (cs @ ds) t"
  by (auto simp: taskOk_def intro: list_emb_append2 subseq_rev_drop_many)

lemma advance_ok:
  assumes "advance cfg cn t s = (t', s')"
  shows "extends s s'" "tkCommand t' = tkCommand t" "tkCalls t' = tkCalls t @ newCalls s s'"
    "taskOk cfg cs t \<Longrightarrow> taskOk cfg (cs @ newCalls s s') t'"
proof -
  obtain p where p: "run_state (commandStep cfg cn (tkCommand t) (tkPhase t)) s = (p, s')"
    and t': "t' = t\<lparr>tkPhase := p, tkCalls := tkCalls t @ newCalls s s'\<rparr>"
    using assms by (auto simp: advance_def split: prod.splits)
  show "extends s s'" by (rule quietD [OF quiet_commandStep p])
  show "tkCommand t' = tkCommand t" "tkCalls t' = tkCalls t @ newCalls s s'" by (simp_all add: t')
  show "taskOk cfg (cs @ newCalls s s') t'" if "taskOk cfg cs t"
    using that phaseCalls_step [OF p] by (simp add: taskOk_def t' list_emb_append_mono)
qed

lemma queueInv_step:
  assumes "qstep cfg cn q e q'" "queueInv cfg workers start q"
  shows "queueInv cfg workers start q'"
  using assms
proof (induction rule: qstep.induct)
  case (take i q m ms)
  then show ?case by (auto simp: queueInv_def busyMsgs_set tasks_def)
next
  case (takeAdmit i q m ms w ws)
  then show ?case by (auto simp: queueInv_def busyMsgs_set tasks_def)
next
  case (work i q t t' s')
  let ?new = "newCalls (qWorld q) s'"
  note adv = advance_ok [OF work.hyps(4)]
  define R where "R = busyMsgs ((qBusy q)[i := None]) + mset (qHandled q)"
  have before: "tasks q = add_mset t R"
    using busyMsgs_clear [OF work.hyps(1,2)] by (simp add: tasks_def R_def)
  have after: "tasks (q\<lparr>qBusy := (qBusy q)[i := Some t'], qWorld := s'\<rparr>) = add_mset t' R"
    using busyMsgs_change [OF work.hyps(1,2)] by (simp add: tasks_def R_def)
  have calls: "newCalls start s' = newCalls start (qWorld q) @ ?new"
    using work.prems adv(1) by (intro newCalls_trans) (auto simp: queueInv_def)
  have ext: "extends start s'" using work.prems adv(1) extends_trans by (auto simp: queueInv_def)
  show ?case
    using work.prems adv(2-4) taskOk_later ext unfolding queueInv_def after before calls
    by (auto simp: calls ac_simps)
next
  case (finish i q t)
  then show ?case using busyMsgs_clear [of i "qBusy q" t] by (auto simp: queueInv_def tasks_def)
qed (auto simp: queueInv_def tasks_def)

lemma queueInv_steps:
  "qsteps cfg cn q es q' \<Longrightarrow> queueInv cfg workers start q \<Longrightarrow> queueInv cfg workers start q'"
  by (induction rule: qsteps.induct) (auto intro: queueInv_step)

text \<open>What callers handed in is what was accepted, refused, or still waits.\<close>

fun offered :: "queueEvent list \<Rightarrow> command multiset" where
  "offered [] = {#}"
| "offered (Sent m # es) = add_mset m (offered es)"
| "offered (Waits m # es) = add_mset m (offered es)"
| "offered (SendPanic m # es) = add_mset m (offered es)"
| "offered (e # es) = offered es"

lemma offered_append: "offered (es @ fs) = offered es + offered fs"
  by (induction es rule: offered.induct) auto

lemma offered_steps:
  assumes "qsteps cfg cn q es q'"
  shows "mset (qAccepted q') + mset (qRefused q') + mset (qWaiting q') =
    mset (qAccepted q) + mset (qRefused q) + mset (qWaiting q) + offered es"
  using assms
proof (induction rule: qsteps.induct)
  case (step q es q' e q'')
  have "mset (qAccepted q'') + mset (qRefused q'') + mset (qWaiting q'') =
      mset (qAccepted q') + mset (qRefused q') + mset (qWaiting q') + offered [e]"
    using step.hyps(2) by (induction rule: qstep.induct) auto
  with step.IH show ?case by (simp add: offered_append)
qed simp

section \<open>A closed channel is drained\<close>

text \<open>
  The workers' own steps. Each brings a closed queue closer to its end: a command in the channel is at
  most eight steps away from being handled, the one that takes it, six calls and the end of the handler.
\<close>

fun workerStep :: "queueEvent \<Rightarrow> bool" where
  "workerStep (Took i m) = True"
| "workerStep (Worked i) = True"
| "workerStep (Finished i) = True"
| "workerStep e = False"

fun phaseRank :: "commandPhase \<Rightarrow> nat" where
  "phaseRank AtTrace = 6"
| "phaseRank (AtSave request) = 5"
| "phaseRank (AtConnect w request b) = (if w then 4 else 2)"
| "phaseRank (AtSend w request b) = (if w then 3 else 1)"
| "phaseRank (AtEnd r) = 0"

definition remaining :: "'w queue \<Rightarrow> nat" where
  "remaining q = 8 * length (qBuffer q) + (\<Sum>t\<in>#busyMsgs (qBusy q). Suc (phaseRank (tkPhase t)))"

lemma phaseRank_le: "phaseRank p \<le> 6"
  by (cases p) simp_all

lemma phaseRank_step:
  "run_state (commandStep cfg cn cmd p) s = (p', s') \<Longrightarrow> \<not> ended p \<Longrightarrow> phaseRank p' < phaseRank p"
  by (cases p) (auto simp: io_simps atPublish_def mqttSendMsg_def split: prod.splits sum.splits if_splits)

lemma remaining_le: "remaining q \<le> 8 * length (qBuffer q) + 7 * length (qBusy q)"
proof -
  have "(\<Sum>t\<in>#M. Suc (phaseRank (tkPhase t))) \<le> 7 * size M" for M
  proof (induction M)
    case (add t M)
    then show ?case using phaseRank_le [of "tkPhase t"] by simp
  qed simp
  from this [of "busyMsgs (qBusy q)"] show ?thesis
    using busyMsgs_size [of "qBusy q"] unfolding remaining_def by linarith
qed

text \<open>What a step of a closed queue without waiting callers keeps, and that workers make progress.\<close>

lemma closed_step:
  assumes "qstep cfg cn q e q'" "qClosed q" "qWaiting q = []"
  shows "qClosed q' \<and> qWaiting q' = [] \<and> qAccepted q' = qAccepted q \<and>
    length (qBusy q') = length (qBusy q) \<and>
    (if workerStep e then remaining q' < remaining q \<and> qRefused q' = qRefused q else remaining q' = remaining q)"
  using assms
proof (induction rule: qstep.induct)
  case (take i q m ms)
  then show ?case by (simp add: remaining_def busyMsgs_set newTask_def)
next
  case (work i q t t' s')
  have "phaseRank (tkPhase t') < phaseRank (tkPhase t)"
    using work.hyps(3,4) phaseRank_step by (auto simp: advance_def split: prod.splits)
  with work show ?case
    using busyMsgs_clear [of i "qBusy q" t] busyMsgs_change [of i "qBusy q" t t'] by (simp add: remaining_def)
next
  case (finish i q t)
  then show ?case using busyMsgs_clear [of i "qBusy q" t] by (simp add: remaining_def)
qed (simp_all add: remaining_def)

lemma closed_steps:
  assumes "qsteps cfg cn q es q'" "qClosed q" "qWaiting q = []"
  shows "remaining q' + length (filter workerStep es) \<le> remaining q \<and> qClosed q' \<and> qWaiting q' = [] \<and>
    qAccepted q' = qAccepted q \<and> length (qBusy q') = length (qBusy q) \<and>
    (list_all workerStep es \<longrightarrow> qRefused q' = qRefused q)"
  using assms
proof (induction rule: qsteps.induct)
  case (step q es q' e q'')
  then show ?case using closed_step [OF step.hyps(2)] by (auto split: if_splits)
qed simp

lemma worker_ready:
  assumes "0 < remaining q" "qBusy q \<noteq> []" "qWaiting q = []"
  obtains e q' where "qstep cfg cn q e q'" "workerStep e"
proof (cases "\<exists>i < length (qBusy q). qBusy q ! i \<noteq> None")
  case True
  then obtain i t where i: "i < length (qBusy q)" "qBusy q ! i = Some t" by auto
  obtain t' s' where t': "advance cfg cn t (qWorld q) = (t', s')" by (metis surj_pair)
  show ?thesis
  proof (cases "ended (tkPhase t)")
    case True
    from qstep.finish [OF i True] show ?thesis by (rule that) simp
  next
    case False
    from qstep.work [OF i False t'] show ?thesis by (rule that) simp
  qed
next
  case False
  then have "qBusy q = replicate (length (qBusy q)) None" by (simp add: list_eq_iff_nth_eq)
  then have "busyMsgs (qBusy q) = {#}" by (metis busyMsgs_empty)
  with assms(1) obtain m ms where "qBuffer q = m # ms" by (cases "qBuffer q") (auto simp: remaining_def)
  moreover have "0 < length (qBusy q)" "qBusy q ! 0 = None" using False assms(2) by auto
  ultimately have "qstep cfg cn q (Took 0 m)
      (q\<lparr>qBuffer := ms, qBusy := (qBusy q)[0 := Some (newTask m)], qTaken := qTaken q @ [m]\<rparr>)"
    using assms(3) by (intro qstep.take)
  then show ?thesis by (rule that) simp
qed

lemma drained: "remaining q = 0 \<Longrightarrow> qBuffer q = [] \<and> busyMsgs (qBusy q) = {#}"
  by (auto simp: remaining_def)

lemma drains:
  assumes "qClosed q" "qWaiting q = []" "qBusy q \<noteq> []"
  shows "\<exists>es q'. qsteps cfg cn q es q' \<and> list_all workerStep es \<and> remaining q' = 0"
  using assms
proof (induction "remaining q" arbitrary: q rule: less_induct)
  case less
  show ?case
  proof (cases "remaining q = 0")
    case True
    then show ?thesis using qsteps.refl by (intro exI [of _ "[]"] exI [of _ q]) simp
  next
    case False
    then obtain e q1 where e: "qstep cfg cn q e q1" "workerStep e"
      using worker_ready less.prems by (metis neq0_conv)
    note r = closed_step [OF e(1) less.prems(1,2)]
    with e(2) less.prems(3) have "remaining q1 < remaining q" "qClosed q1" "qWaiting q1 = []" "qBusy q1 \<noteq> []"
      by auto
    with less.hyps [of q1] obtain es q' where es: "qsteps cfg cn q1 es q'" "list_all workerStep es"
      "remaining q' = 0" by blast
    have "qsteps cfg cn q ([] @ [e]) q1" by (rule qsteps.step [OF qsteps.refl e(1)])
    then have "qsteps cfg cn q (([] @ [e]) @ es) q'" by (rule qsteps_trans [OF es(1)])
    with es e(2) show ?thesis by (intro exI [of _ "([] @ [e]) @ es"] exI [of _ q']) simp
  qed
qed

end
