(* ===== verification/QueueProperties.thy ===== *)
theory QueueProperties
  imports CommandWorkers
begin

text \<open>
  What the channel of \<open>GetQueuedCommandHandler\<close> promises, for every interleaving of callers, of the
  calls of the workers, and of the end of the context.
\<close>

section \<open>The queue\<close>

lemma commandQueueInv:
  assumes "qsteps cfg cn (GetQueuedCommandHandler cfg s) es q"
  shows "queueInv cfg (nat (CommandWorkerCount cfg)) s q"
  using assms unfolding GetQueuedCommandHandler_def by (rule queueInv_steps) (rule queueInv_new)

lemma handled_calls:
  assumes "queueInv cfg workers s q" "t \<in> set (qHandled q)"
  shows "\<exists>r. tkPhase t = AtEnd r \<and> commandDone cfg (tkCommand t) r (tkCalls t)"
proof -
  from assms have "ended (tkPhase t)" "taskOk cfg (newCalls s (qWorld q)) t"
    by (auto simp: queueInv_def tasks_def)
  then show ?thesis by (cases "tkPhase t") (auto simp: taskOk_def)
qed

text \<open>
  C6. In every reachable state of the command queue, with the calls of its workers interleaved in any
  way: the channel holds at most CommandWorkerCount commands, callers wait only while it is full and
  open, commands leave it in the order in which they entered, each one taken is with a worker or
  handled, the calls made so far are those made for the commands taken, the calls of each command occur
  in the order of its handler, and the calls of a handled one are complete: commandDone, by the result.
\<close>

theorem queue_fifo_bounded:
  assumes "qsteps cfg cn (GetQueuedCommandHandler cfg s) es q"
  shows "length (qBuffer q) \<le> nat (CommandWorkerCount cfg) \<and>
    (qWaiting q \<noteq> [] \<longrightarrow> length (qBuffer q) = nat (CommandWorkerCount cfg) \<and> \<not> qClosed q) \<and>
    qAccepted q = qTaken q @ qBuffer q \<and>
    mset (qTaken q) = image_mset tkCommand (busyMsgs (qBusy q) + mset (qHandled q)) \<and>
    mset (newCalls s (qWorld q)) = (\<Sum>t\<in>#busyMsgs (qBusy q) + mset (qHandled q). mset (tkCalls t)) \<and>
    (\<forall>t \<in># busyMsgs (qBusy q) + mset (qHandled q). subseq (tkCalls t) (newCalls s (qWorld q))) \<and>
    (\<forall>t \<in> set (qHandled q). \<exists>r. tkPhase t = AtEnd r \<and> commandDone cfg (tkCommand t) r (tkCalls t))"
proof -
  note inv = commandQueueInv [OF assms]
  have "subseq (tkCalls t) (newCalls s (qWorld q))" if "t \<in># busyMsgs (qBusy q) + mset (qHandled q)" for t
    using inv that by (auto simp: queueInv_def tasks_def taskOk_def)
  then show ?thesis using inv handled_calls [OF inv] by (simp add: queueInv_def tasks_def)
qed

text \<open>
  C20. No command is lost or doubled: those handed in by callers are, as often, the ones put into the
  channel, the ones refused with an error and the ones whose callers still wait; when the channel is
  closed nobody waits any more.
\<close>

theorem queue_loses_nothing:
  assumes "qsteps cfg cn (GetQueuedCommandHandler cfg s) es q"
  shows "offered es = mset (qAccepted q) + mset (qRefused q) + mset (qWaiting q) \<and>
    (qClosed q \<longrightarrow> offered es = mset (qAccepted q) + mset (qRefused q))"
  using offered_steps [OF assms] commandQueueInv [OF assms]
  by (auto simp: queueInv_def GetQueuedCommandHandler_def newQueue_def)


section \<open>After it is closed\<close>

lemma closed_start:
  assumes "1 < CommandWorkerCount cfg" "qsteps cfg cn (GetQueuedCommandHandler cfg s) es q" "qClosed q"
  shows "qWaiting q = []" "qBusy q \<noteq> []" "remaining q \<le> 15 * nat (CommandWorkerCount cfg)"
  using assms(1,3) commandQueueInv [OF assms(2)] remaining_le [of q] by (auto simp: queueInv_def)

text \<open>Nothing remains: what was put into the channel has been handled.\<close>

lemma all_handled:
  assumes "queueInv cfg workers s q" "remaining q = 0"
  shows "mset (map tkCommand (qHandled q)) = mset (qAccepted q)"
  using assms(1) drained [OF assms(2)] by (simp add: queueInv_def tasks_def)

lemma stuck_handled:
  assumes "queueInv cfg workers s q" "qBusy q \<noteq> []" "qWaiting q = []"
    and "\<forall>e q'. workerStep e \<longrightarrow> \<not> qstep cfg cn q e q'"
  shows "mset (map tkCommand (qHandled q)) = mset (qAccepted q)"
proof -
  have "\<not> 0 < remaining q"
    using worker_ready [of q cfg cn, OF _ assms(2,3)] assms(4) by blast
  with all_handled [OF assms(1)] show ?thesis by simp
qed

text \<open>
  C21. With several workers, a closed queue is emptied by them: whatever steps the workers take, they
  are at most remaining many, and when no worker can take a step every command that was put into the
  channel has been handled; none is refused on the way.
\<close>

theorem closed_queue_drains:
  assumes "1 < CommandWorkerCount cfg"
    and "qsteps cfg cn (GetQueuedCommandHandler cfg s) es q"
    and "qClosed q"
    and "qsteps cfg cn q fs q'" "list_all workerStep fs"
  shows "length fs \<le> remaining q \<and> qRefused q' = qRefused q \<and>
    ((\<forall>e q''. workerStep e \<longrightarrow> \<not> qstep cfg cn q' e q'') \<longrightarrow>
     mset (map tkCommand (qHandled q')) = mset (qAccepted q))"
proof -
  note start = closed_start [OF assms(1-3)]
  note keep = closed_steps [OF assms(4,3) start(1)]
  have "filter workerStep fs = fs" using assms(5) by (simp add: list_all_iff)
  moreover have "queueInv cfg (nat (CommandWorkerCount cfg)) s q'"
    by (rule queueInv_steps [OF assms(4) commandQueueInv [OF assms(2)]])
  note stuck_handled [OF this]
  moreover have "qBusy q' \<noteq> []" using keep start(2) by auto
  ultimately show ?thesis using keep assms(5) by auto
qed

text \<open>
  C22. The shutdown of the queue terminates. Whatever happens after the channel is closed, workers' steps
  and callers that come too late in any order, the workers take at most fifteen steps for each worker
  altogether; and at every moment either one of them can take a step or every command that was put into
  the channel has been handled, which they reach in any case.
\<close>

theorem closed_queue_terminates:
  assumes "1 < CommandWorkerCount cfg"
    and "qsteps cfg cn (GetQueuedCommandHandler cfg s) es q"
    and "qClosed q"
    and "qsteps cfg cn q fs q'"
  shows "length (filter workerStep fs) \<le> 15 * nat (CommandWorkerCount cfg) \<and>
    qClosed q' \<and> qAccepted q' = qAccepted q \<and>
    ((\<exists>e q''. workerStep e \<and> qstep cfg cn q' e q'') \<or>
     mset (map tkCommand (qHandled q')) = mset (qAccepted q)) \<and>
    (\<exists>gs q''. qsteps cfg cn q' gs q'' \<and> list_all workerStep gs \<and>
       length (filter workerStep (fs @ gs)) \<le> 15 * nat (CommandWorkerCount cfg) \<and>
       mset (map tkCommand (qHandled q'')) = mset (qAccepted q))"
proof -
  let ?n = "nat (CommandWorkerCount cfg)"
  note start = closed_start [OF assms(1-3)]
  note keep = closed_steps [OF assms(4,3) start(1)]
  have inv: "queueInv cfg ?n s q'"
    by (rule queueInv_steps [OF assms(4) commandQueueInv [OF assms(2)]])
  have busy: "qBusy q' \<noteq> []" using keep start(2) by auto
  obtain gs q'' where gs: "qsteps cfg cn q' gs q''" "list_all workerStep gs" "remaining q'' = 0"
    using drains [of q' cfg cn] keep busy by blast
  note later = closed_steps [OF gs(1)]
  have "mset (map tkCommand (qHandled q'')) = mset (qAccepted q)"
    using all_handled [OF queueInv_steps [OF gs(1) inv] gs(3)] keep later by simp
  moreover have "length (filter workerStep (fs @ gs)) \<le> 15 * ?n"
    using keep later start(3) by simp
  moreover have "length (filter workerStep fs) \<le> 15 * ?n" using keep start(3) by linarith
  moreover have "(\<exists>e q''. workerStep e \<and> qstep cfg cn q' e q'') \<or>
     mset (map tkCommand (qHandled q')) = mset (qAccepted q)"
    using stuck_handled [OF inv busy] keep by metis
  ultimately show ?thesis using keep gs(1,2) by blast
qed

section \<open>An example run\<close>

text \<open>Two commands whose calls two workers interleave.\<close>

definition testWorkers :: config where
  "testWorkers = testConfig\<lparr>CommandWorkerCount := 2\<rparr>"

lemma testWorkers_fields [simp]:
  "CommandWorkerCount testWorkers = 2" "MqttVersion testWorkers = []" "ForceTopicsWithOwner testWorkers = False"
  by (simp_all add: testWorkers_def test_simps)

definition testCommand2 :: command where
  "testCommand2 = testCommand\<lparr>cmdTime := unixEpoch * 10 ^ 9\<rparr>"

definition testClosing :: "queueEvent list" where
  "testClosing = [Sent testCommand, Sent testCommand2, Took 0 testCommand, Worked 0, Took 1 testCommand2,
     Worked 1, Worked 0, Closing]"

definition testDraining :: "queueEvent list" where
  "testDraining = [Worked 1, Worked 0, SendPanic testCommand, Worked 0, Worked 1, Worked 0, Worked 0,
     Worked 1, Finished 0, Worked 1, Worked 1, Finished 1]"

definition testClosed :: "unit queue" where
  "testClosed = the (qexec testWorkers testConn (GetQueuedCommandHandler testWorkers s0) testClosing)"

definition testDrained :: "unit queue" where
  "testDrained = the (qexec testWorkers testConn testClosed testDraining)"

lemmas queue_simps = GetQueuedCommandHandler_def newQueue_def newTask_def advance_def atPublish_def mqttSendMsg_def
  newCalls_def io_simps test_simps

lemma testClosed_reached:
  "qexec testWorkers testConn (GetQueuedCommandHandler testWorkers s0) testClosing = Some testClosed"
  "qClosed testClosed" "qAccepted testClosed = [testCommand, testCommand2]" "qRefused testClosed = []"
  "qBuffer testClosed = []" "length (calls (qWorld testClosed)) = 3"
  by (simp_all add: testClosed_def testClosing_def queue_simps numeral_2_eq_2)

lemma testDrained_reached:
  "qexec testWorkers testConn testClosed testDraining = Some testDrained"
  "map tkCommand (qHandled testDrained) = [testCommand, testCommand2]" "qBuffer testDrained = []"
  "qBusy testDrained = [None, None]" "qWaiting testDrained = []" "qRefused testDrained = [testCommand]"
  "length (calls (qWorld testDrained)) = 12"
  by (simp_all add: testDrained_def testDraining_def testClosed_def testClosing_def queue_simps numeral_2_eq_2)

lemma testClosed_steps: "qsteps testWorkers testConn (GetQueuedCommandHandler testWorkers s0) testClosing testClosed"
  by (rule qexec_steps) (rule testClosed_reached)

lemma testDrained_steps: "qsteps testWorkers testConn testClosed testDraining testDrained"
  by (rule qexec_steps) (rule testDrained_reached)

theorem queue_fifo_bounded_witness:
  "mset (calls (qWorld testDrained)) = (\<Sum>t\<in>#mset (qHandled testDrained). mset (tkCalls t)) \<and>
   list_all (\<lambda>t. \<exists>r. tkPhase t = AtEnd r \<and> commandDone testWorkers (tkCommand t) r (tkCalls t)) (qHandled testDrained) \<and>
   length (qHandled testDrained) = 2"
proof -
  have "length (qHandled testDrained) = 2"
    using arg_cong [OF testDrained_reached(2), of length] by simp
  then show ?thesis
    using queue_fifo_bounded [OF qsteps_trans [OF testDrained_steps testClosed_steps]] testDrained_reached
    by (simp add: list_all_iff newCalls_def test_simps)
qed

theorem queue_loses_nothing_witness:
  "offered testClosing = mset (qAccepted testClosed) + mset (qRefused testClosed) \<and> size (offered testClosing) = 2"
  using queue_loses_nothing [OF testClosed_steps] testClosed_reached by (simp add: testClosing_def)

text \<open>The steps of the workers alone.\<close>

definition testFinishing :: "queueEvent list" where
  "testFinishing = filter workerStep testDraining"

definition testFinished :: "unit queue" where
  "testFinished = the (qexec testWorkers testConn testClosed testFinishing)"

lemma testFinished_reached:
  "qexec testWorkers testConn testClosed testFinishing = Some testFinished"
  "qBuffer testFinished = []" "qBusy testFinished = [None, None]"
  by (simp_all add: testFinished_def testFinishing_def testDraining_def testClosed_def testClosing_def queue_simps numeral_2_eq_2)

theorem closed_queue_drains_witness:
  "11 \<le> remaining testClosed \<and> qRefused testFinished = [] \<and>
   mset (map tkCommand (qHandled testFinished)) = {#testCommand, testCommand2#}"
proof -
  have "\<not> qstep testWorkers testConn testFinished e q''" if "workerStep e" for e q''
    using that by (cases e)
      (auto simp: qstep_Took qstep_Worked qstep_Finished testFinished_reached less_Suc_eq nth_Cons split: nat.splits)
  moreover have "qsteps testWorkers testConn testClosed testFinishing testFinished"
    by (rule qexec_steps) (rule testFinished_reached)
  ultimately show ?thesis
    using closed_queue_drains [OF _ testClosed_steps testClosed_reached(2), of testFinishing testFinished]
      testClosed_reached by (simp add: testFinishing_def testDraining_def list_all_iff)
qed

theorem closed_queue_terminates_witness:
  "length (filter workerStep testDraining) \<le> 30 \<and> qClosed testDrained \<and>
   (\<exists>gs q''. qsteps testWorkers testConn testDrained gs q'' \<and>
      mset (map tkCommand (qHandled q'')) = {#testCommand, testCommand2#})"
  using closed_queue_terminates [OF _ testClosed_steps testClosed_reached(2) testDrained_steps] testClosed_reached
  by auto

end
