(* ===== verification/Emits.thy ===== *)
theory Emits
  imports Wmbus
begin

text \<open>
  Properties of every call an operation makes: \<open>emits P m\<close> says that, whatever the services answer,
  \<open>m\<close> only appends calls that satisfy \<open>P\<close>. Closed under the constructs of the programs, so that a
  long operation is checked by walking its text.
\<close>

definition emits :: "(call \<Rightarrow> bool) \<Rightarrow> ('w, 'a) io \<Rightarrow> bool" where
  "emits P m \<longleftrightarrow> (\<forall>s a s'. run_state m s = (a, s') \<longrightarrow>
     extends s s' \<and> (\<forall>c \<in> set (newCalls s s'). P c))"

named_theorems emits_intros \<open>the calls of an operation, construct by construct\<close>

lemma emitsD: "emits P m \<Longrightarrow> run_state m s = (a, s') \<Longrightarrow> c \<in> set (newCalls s s') \<Longrightarrow> P c"
  unfolding emits_def by blast

lemma emits_extends: "emits P m \<Longrightarrow> run_state m s = (a, s') \<Longrightarrow> extends s s'"
  unfolding emits_def by blast

lemma emits_ret [emits_intros]: "emits P (ret x)"
  by (simp add: emits_def)

lemma emits_perform [emits_intros]: "(\<And>a. P (c a)) \<Longrightarrow> emits P (perform f c)"
  by (auto simp: emits_def io_simps extends_def newCalls_def split: prod.splits)

text \<open>The same when the property speaks of the answer of the service.\<close>

lemma emits_answer: "(\<And>w. P (c (fst (f w)))) \<Longrightarrow> emits P (perform f c)"
  by (auto simp: emits_def io_simps extends_def newCalls_def split: prod.splits) (metis fst_conv)

lemma emits_bind [emits_intros]:
  assumes "emits P m" "\<And>a. emits P (f a)"
  shows "emits P (State_Monad.bind m f)"
  unfolding emits_def
proof (intro allI impI)
  fix s b s''
  assume "run_state (State_Monad.bind m f) s = (b, s'')"
  then obtain a s' where r: "run_state m s = (a, s')" "run_state (f a) s' = (b, s'')"
    by (auto simp: io_simps split: prod.splits)
  have e: "extends s s'" "extends s' s''" by (rule emits_extends [OF assms(1) r(1)], rule emits_extends [OF assms(2) r(2)])
  then have "newCalls s s'' = newCalls s s' @ newCalls s' s''" by (rule newCalls_trans)
  then show "extends s s'' \<and> (\<forall>c \<in> set (newCalls s s''). P c)"
    using e extends_trans emitsD [OF assms(1) r(1)] emitsD [OF assms(2) r(2)] by auto
qed

lemma emits_cases [emits_intros]:
  "(b \<Longrightarrow> emits P m) \<Longrightarrow> (\<not> b \<Longrightarrow> emits P n) \<Longrightarrow> emits P (if b then m else n)"
  "(\<And>e. emits P (f e)) \<Longrightarrow> (\<And>a. emits P (g a)) \<Longrightarrow> emits P (case x of Inl e \<Rightarrow> f e | Inr a \<Rightarrow> g a)"
  "emits P m \<Longrightarrow> (\<And>a. emits P (k a)) \<Longrightarrow> emits P (case y of None \<Rightarrow> m | Some a \<Rightarrow> k a)"
  "(\<And>a b. emits P (h a b)) \<Longrightarrow> emits P (case z of (a, b) \<Rightarrow> h a b)"
  "emits P (l v) \<Longrightarrow> emits P (Let v l)"
  "emits P m \<Longrightarrow> (\<And>u. emits P (w u)) \<Longrightarrow> emits P (case wr of TestWaitingRoom \<Rightarrow> m | WaitingRoom u \<Rightarrow> w u)"
  by (simp_all split: sum.splits option.splits prod.splits waitingRoom.splits)

lemma emits_mono: "emits P m \<Longrightarrow> (\<And>c. P c \<Longrightarrow> Q c) \<Longrightarrow> emits Q m"
  unfolding emits_def by blast

section \<open>What the handling of a telegram may do\<close>

text \<open>The arguments of the external program: no byte of a request can form another option.\<close>

definition execByte :: "char \<Rightarrow> bool" where
  "execByte c \<longleftrightarrow> isAlnum c \<or> c \<in> set ''_:''"

definition execSafe :: "config \<Rightarrow> string \<Rightarrow> string list \<Rightarrow> bool" where
  "execSafe cfg p args \<longleftrightarrow> p = WmbusmetersExecutable cfg \<and>
     (\<exists>d t. args = (if WmbusmetersDriversDir cfg = [] then [] else [''--driversdir='' @ WmbusmetersDriversDir cfg]) @
         [''--analyze'' @ d, t] \<and>
       (d = [] \<or> (\<exists>b. d = CHR ''='' # b \<and> list_all execByte b)) \<and> list_all isAlnum t)"

text \<open>The update of attributes: what is sent belongs to the origins that the request replaces.\<close>

definition attributesUrl :: "config \<Rightarrow> string \<Rightarrow> string list \<Rightarrow> string" where
  "attributesUrl cfg deviceId origins = DeviceManagerUrl cfg @ ''/devices/'' @ pathEscape deviceId @
     ''/attributes?update-only-same-origin-attributes='' @ queryEscape (joinWith CHR '','' origins)"

text \<open>
  The calls allowed: events only of the decrypted service with the token of the nimbus, the program
  with clean arguments, attributes with that token and of the origins replaced.
\<close>

definition wmbusCall :: "config \<Rightarrow> string \<Rightarrow> int \<Rightarrow> call \<Rightarrow> bool" where
  "wmbusCall cfg token qos c = (case c of
     CDeviceEvent t d sv ev q x \<Rightarrow> t = token \<and> sv = ''decrypted'' \<and> q = qos
   | CExec p args x \<Rightarrow> execSafe cfg p args
   | CPutAttributes url t attrs x \<Rightarrow> t = token \<and> (\<exists>i origins. url = attributesUrl cfg i origins \<and>
       (\<forall>a \<in> set attrs. attrOrigin a \<in> set origins))
   | _ \<Rightarrow> True)"

lemma lowerChar_isAlnum: "isAlnum c \<Longrightarrow> isAlnum (lowerChar c)"
  by (auto simp: isAlnum_def inRange_def lowerChar_def)

lemma toLower_isAlnum: "list_all isAlnum s \<Longrightarrow> list_all isAlnum (toLower s)"
proof (induction s rule: toLower.induct)
  case (2 c s)
  then have "c \<noteq> CHR 0xC4" "c \<noteq> CHR 0xE2" by (auto simp: isAlnum_def inRange_def)
  with 2 show ?case by (simp add: lowerChar_isAlnum)
qed simp

lemma sanitize_clean:
  "list_all isAlnum (sanitizeTelegram t)" "list_all execByte (sanitizeDriver d)" "list_all execByte (sanitizeKey k)"
  unfolding sanitizeTelegram_def sanitizeDriver_def sanitizeKey_def isAlnumByte_def
  by (rule toLower_isAlnum) (auto simp: execByte_def list_all_iff)

lemma emits_decrypt [emits_intros]:
  "emits (wmbusCall cfg k q)
     (decryptAndDecodeTelegram cn (WmbusmetersExecutable cfg) (WmbusmetersDriversDir cfg) driver key tele)"
  unfolding decryptAndDecodeTelegram_def Let_def
  by (intro emits_intros; simp add: wmbusCall_def execSafe_def)
    (auto simp: analyzeArg_def Let_def sanitize_clean execByte_def split: option.splits)

lemma emits_attributes [emits_intros]:
  "\<forall>a \<in> set attrs. attrOrigin a \<in> set origins \<Longrightarrow>
   emits (wmbusCall cfg token q) (setSameOriginAttributes cfg cn token i origins attrs)"
  unfolding setSameOriginAttributes_def Let_def
  by (intro emits_intros) (auto simp: wmbusCall_def attributesUrl_def)

lemma emits_wmbus_calls [emits_intros]:
  "emits (wmbusCall cfg k q) (EnsureWaitingRoom cn wr token stub)"
  "emits (wmbusCall cfg k q) (getWmbusDeviceType cn i)"
  "emits (wmbusCall cfg k q) (dedupTelegram cn user local tele)"
  unfolding EnsureWaitingRoom_def getWmbusDeviceType_def dedupTelegram_def
  by (intro emits_intros; simp add: wmbusCall_def)+

lemma emits_publishDecoded [emits_intros]:
  "emits (wmbusCall cfg token qos) (publishDecoded cn token local dec event qos)"
  unfolding publishDecoded_def by (intro emits_intros; simp add: wmbusCall_def)

lemma legacyOrigins_head: "o1 \<in> set (legacyOrigins o1 attrs)"
proof -
  have "set os \<subseteq> set (foldl (\<lambda>os a. if isLegacyKeyOk a \<and> attrOrigin a \<notin> set os then os @ [attrOrigin a] else os) os as)"
    for os as by (induction as rule: rev_induct) auto
  from this [of "[o1]" attrs] show ?thesis unfolding legacyOrigins_def by simp
qed

lemma emits_ensure [emits_intros]: "emits (wmbusCall cfg token q) (ensureWmbusDeviceType cfg cn i msg dec)"
  unfolding ensureWmbusDeviceType_def by (intro emits_intros; simp add: wmbusCall_def)

lemma emits_receiver [emits_intros]: "emits (wmbusCall cfg token q) (recordWmbusReceiver cfg cn token dev nimbus)"
  unfolding recordWmbusReceiver_def by (intro emits_intros; simp add: wmbusCall_def)

lemma kept_origins: "\<forall>a \<in> set (keptAttributes keyOk (legacyOrigins (attrOrigin keyOk) xs) xs).
    attrOrigin a \<in> set (legacyOrigins (attrOrigin keyOk) xs)"
  using legacyOrigins_head by (simp add: keptAttributes_def)

lemma emits_replaceLegacy [emits_intros]: "emits (wmbusCall cfg token q) (replaceLegacyKeyOk cfg cn token i keyOk)"
  unfolding replaceLegacyKeyOk_def Let_def by (intro emits_intros kept_origins; simp add: wmbusCall_def)

lemma emits_useWaitingRoom [emits_intros]: "emits (wmbusCall cfg token q) (useWaitingRoom cn wr k stub)"
  unfolding useWaitingRoom_def by (intro emits_intros; simp add: wmbusCall_def)

lemma emits_updateStatus [emits_intros]:
  "emits (wmbusCall cfg token q) (updateDeviceDecryptionStatus cfg cn token dev v)"
  unfolding updateDeviceDecryptionStatus_def by (intro emits_intros; simp add: wmbusCall_def)

lemma emits_tryKeys [emits_intros]:
  "emits (wmbusCall cfg k q) (tryKeys cfg cn driver tele ks dec ok)"
  by (induction ks arbitrary: dec ok) (simp, intro emits_intros, simp, intro emits_intros)

lemma emits_handleWmbusEvent:
  "emits (wmbusCall cfg token qos) (handleWmbusEvent cfg cn ns wr user token event qos nimbus)"
  unfolding handleWmbusEvent_def processTelegram_def decryptWithKeys_def
  by (intro emits_intros; simp add: wmbusCall_def)

end
