(* ===== verification/WmbusProperties.thy ===== *)
theory WmbusProperties
  imports TestServices Emits
begin

text \<open>
  Wireless M-Bus: what reaches the external program and the device manager, how the keys of a device
  are tried, and what the local id of a metering device, the update of its attributes and the
  comparison of device types guarantee.
\<close>

section \<open>The calls of a telegram\<close>

text \<open>
  C24. Whatever a telegram, a driver attribute or a key holds, the external program is the configured one
  and gets only the configured driver directory, one analyze option made of letters, digits, underscore
  and colon, and a telegram of letters and digits.
\<close>

theorem telegram_program_arguments:
  assumes "run_state (handleWmbusEvent cfg cn ns wr user token event qos nimbus) s = (x, s')"
    and "CExec p args r \<in> set (newCalls s s')"
  shows "execSafe cfg p args"
  using emitsD [OF emits_handleWmbusEvent assms] by (simp add: wmbusCall_def)

section \<open>Trying keys\<close>

definition keyArgs :: "config \<Rightarrow> string \<Rightarrow> string \<Rightarrow> string \<Rightarrow> string list" where
  "keyArgs cfg driver telegram k =
     (if WmbusmetersDriversDir cfg = [] then [] else [''--driversdir='' @ WmbusmetersDriversDir cfg]) @
     [analyzeArg driver (Some k), sanitizeTelegram telegram]"

text \<open>The answers of the program, one for each key, and the two variables of the loop after them.\<close>

definition keyAnswers :: "'w connector \<Rightarrow> string \<Rightarrow> (string \<times> goerror option) list \<Rightarrow> (goerror + json) list" where
  "keyAnswers cn driver outs = map (decodeOutput cn driver True) outs"

definition goodOrWrong :: "goerror + json \<Rightarrow> bool" where
  "goodOrWrong r = (case r of Inl e \<Rightarrow> errorsIs e ErrorWrongKey | Inr m \<Rightarrow> True)"

definition decodedBy :: "json option \<Rightarrow> (goerror + json) list \<Rightarrow> json option" where
  "decodedBy d rs = (if rs = [] then d else case last rs of Inl e \<Rightarrow> None | Inr m \<Rightarrow> Some m)"

definition anyGood :: "(goerror + json) list \<Rightarrow> bool" where
  "anyGood rs = list_ex (\<lambda>r. case r of Inl e \<Rightarrow> False | Inr m \<Rightarrow> True) rs"

lemma decodedBy_Cons: "decodedBy (case r of Inl e \<Rightarrow> None | Inr m \<Rightarrow> Some m) rs = decodedBy d (r # rs)"
  by (simp add: decodedBy_def)

lemma tryKeys_calls:
  "run_state (tryKeys cfg cn driver t ks d ok) s = (Inr (decoded, keyOk), s') \<Longrightarrow>
   \<exists>outs. length outs = length ks \<and>
     calls s' = calls s @ map2 (\<lambda>k r. CExec (WmbusmetersExecutable cfg) (keyArgs cfg driver t k) r) ks outs \<and>
     list_all goodOrWrong (keyAnswers cn driver outs) \<and>
     keyOk = (ok \<or> anyGood (keyAnswers cn driver outs)) \<and> decoded = decodedBy d (keyAnswers cn driver outs)"
proof (induction ks arbitrary: d ok s)
  case (Cons k ks)
  let ?args = "keyArgs cfg driver t k"
  obtain out w where out: "execCommand cn (WmbusmetersExecutable cfg) ?args (world s) = (out, w)" by (metis surj_pair)
  let ?s1 = "s\<lparr>world := w, calls := calls s @ [CExec (WmbusmetersExecutable cfg) ?args out]\<rparr>"
  let ?r = "decodeOutput cn driver True out"
  have dir: "WmbusmetersDriversDir cfg = [] \<or> hasPrefix (WmbusmetersDriversDir cfg) ''/''"
    using Cons.prems by (auto simp: decryptAndDecodeTelegram_def io_simps errorsIs_def split: if_splits)
  then have step: "run_state (decryptAndDecodeTelegram cn (WmbusmetersExecutable cfg) (WmbusmetersDriversDir cfg) driver
      (Some k) t) s = (?r, ?s1)"
    using out by (auto simp: decryptAndDecodeTelegram_def io_simps Let_def keyArgs_def)
  from Cons.prems step have ok: "goodOrWrong ?r" and
    run: "run_state (tryKeys cfg cn driver t ks (case ?r of Inl e \<Rightarrow> None | Inr m \<Rightarrow> Some m)
      (ok \<or> \<not> isl ?r)) ?s1 = (Inr (decoded, keyOk), s')"
    by (auto simp: io_simps goodOrWrong_def split: sum.splits if_splits)
  from Cons.IH [OF run] obtain outs where outs: "length outs = length ks"
     "calls s' = calls ?s1 @ map2 (\<lambda>k r. CExec (WmbusmetersExecutable cfg) (keyArgs cfg driver t k) r) ks outs"
     "list_all goodOrWrong (keyAnswers cn driver outs)"
     "keyOk = ((ok \<or> \<not> isl ?r) \<or> anyGood (keyAnswers cn driver outs))"
     "decoded = decodedBy (case ?r of Inl e \<Rightarrow> None | Inr m \<Rightarrow> Some m) (keyAnswers cn driver outs)" by blast
  then show ?case using ok
    by (intro exI [of _ "out # outs"])
      (auto simp: keyAnswers_def decodedBy_Cons anyGood_def isl_def split: sum.splits)
qed (simp add: io_simps keyAnswers_def anyGood_def decodedBy_def)

text \<open>
  C23. When an encrypted telegram is let through after trying the keys of the device, every key was tried,
  in order and each once, one of them was good, and each of the others failed as a wrong key. The
  event carries what the last key gave: after a good key a wrong last one makes it null.
\<close>

theorem event_carries_last_key:
  assumes "run_state (decryptWithKeys cfg cn token dev driver i msg) s = (Inr (Some decoded), s')"
  shows "\<exists>outs rest. length outs = length (wmbusKeys dev) \<and>
    newCalls s s' = map2 (\<lambda>k r. CExec (WmbusmetersExecutable cfg) (keyArgs cfg driver (emTelegram msg) k) r)
      (wmbusKeys dev) outs @ rest \<and>
    list_all goodOrWrong (keyAnswers cn driver outs) \<and> anyGood (keyAnswers cn driver outs) \<and>
    wmbusEvent decoded event ''data'' =
      Some (case last (keyAnswers cn driver outs) of Inl e \<Rightarrow> ''null'' | Inr m \<Rightarrow> marshal m)"
proof -
  obtain r s1 where t: "run_state (tryKeys cfg cn driver (emTelegram msg) (wmbusKeys dev) None False) s = (r, s1)"
    by (metis surj_pair)
  with assms have r: "r = Inr (decoded, True)"
    by (auto simp: decryptWithKeys_def io_simps split: sum.splits prod.splits option.splits if_splits)
  let ?tail = "do {
       u \<leftarrow> updateDeviceDecryptionStatus cfg cn token dev ''true'';
       case u of
         Some e \<Rightarrow> ret (Inl e)
       | None \<Rightarrow> do {
           t \<leftarrow> ensureWmbusDeviceType cfg cn i msg decoded;
           case t of Inl e \<Rightarrow> ret (Inl e) | Inr _ \<Rightarrow> ret (Inr (Some decoded))
         }
     }"
  have tail: "run_state ?tail s1 = (Inr (Some decoded), s')"
    using assms t r by (simp add: decryptWithKeys_def run_state_bind [of "tryKeys cfg cn driver (emTelegram msg) (wmbusKeys dev) None False"])
  have "quiet ?tail" by (intro quiet_intros)
  then have "extends s1 s'" using tail by (rule quietD)
  then obtain rest where rest: "calls s' = calls s1 @ rest" by (auto simp: extends_def)
  from tryKeys_calls [OF t [unfolded r]] obtain outs where outs: "length outs = length (wmbusKeys dev)"
    "calls s1 = calls s @ map2 (\<lambda>k r. CExec (WmbusmetersExecutable cfg) (keyArgs cfg driver (emTelegram msg) k) r)
      (wmbusKeys dev) outs"
    "list_all goodOrWrong (keyAnswers cn driver outs)" "anyGood (keyAnswers cn driver outs)"
    "decoded = decodedBy None (keyAnswers cn driver outs)" by auto
  from outs(4) have "keyAnswers cn driver outs \<noteq> []" by (auto simp: anyGood_def)
  with outs(5) have "wmbusEvent decoded event ''data'' =
      Some (case last (keyAnswers cn driver outs) of Inl e \<Rightarrow> ''null'' | Inr m \<Rightarrow> marshal m)"
    by (auto simp: decodedBy_def wmbusEvent_def timestampField_def split: sum.splits)
  with outs(1-4) rest show ?thesis by (intro exI [of _ outs] exI [of _ rest]) (simp add: newCalls_def)
qed

section \<open>Local ids\<close>

lemma hexRex_hex: "hexRex s = Some h \<Longrightarrow> list_all isHex h"
  by (induction s) (auto split: if_splits simp: list_all_iff dest: set_takeWhileD)

lemma hex_no_underscore: "list_all isHex h \<Longrightarrow> CHR ''_'' \<notin> set h"
proof -
  have "\<not> isHex CHR ''_''" by code_simp
  then show "list_all isHex h \<Longrightarrow> CHR ''_'' \<notin> set h" by (auto simp: list_all_iff)
qed

lemma underscore_split:
  assumes "a @ CHR ''_'' # b = a' @ CHR ''_'' # b'" "CHR ''_'' \<notin> set a" "CHR ''_'' \<notin> set a'"
  shows "a = a' \<and> b = b'"
  using assms by (induction a arbitrary: a') (auto simp: Cons_eq_append_conv append_eq_Cons_conv)

definition evenHex :: "string \<Rightarrow> string" where
  "evenHex h = (if length h mod 2 \<noteq> 0 then CHR ''0'' # h else h)"

lemma localDeviceId_parts:
  assumes "localDeviceId msg = Inr l"
  obtains m v t where "hexRex (emManufacturer msg) = Some m" "hexRex (emVersion msg) = Some v"
    "hexRex (emType msg) = Some t"
    "l = ''wmbus_'' @ evenHex m @ ''_'' @ v @ ''_'' @ t @ ''_'' @ emMeterId msg"
  using assms by (auto simp: localDeviceId_def evenHex_def Let_def split: option.splits)

text \<open>
  Two telegrams get the same local device id only when they agree in the meter id and in the hex
  numbers of version, type and, up to a leading zero, manufacturer.
\<close>

lemma local_device_id_unique:
  assumes "localDeviceId msg1 = Inr l" and "localDeviceId msg2 = Inr l"
  shows "emMeterId msg1 = emMeterId msg2 \<and> hexRex (emVersion msg1) = hexRex (emVersion msg2) \<and>
    hexRex (emType msg1) = hexRex (emType msg2) \<and>
    map_option evenHex (hexRex (emManufacturer msg1)) = map_option evenHex (hexRex (emManufacturer msg2))"
proof -
  obtain m v t where a: "hexRex (emManufacturer msg1) = Some m" "hexRex (emVersion msg1) = Some v"
      "hexRex (emType msg1) = Some t"
      "l = ''wmbus_'' @ evenHex m @ ''_'' @ v @ ''_'' @ t @ ''_'' @ emMeterId msg1"
    using assms(1) by (rule localDeviceId_parts)
  obtain m' v' t' where b: "hexRex (emManufacturer msg2) = Some m'" "hexRex (emVersion msg2) = Some v'"
      "hexRex (emType msg2) = Some t'"
      "l = ''wmbus_'' @ evenHex m' @ ''_'' @ v' @ ''_'' @ t' @ ''_'' @ emMeterId msg2"
    using assms(2) by (rule localDeviceId_parts)
  have even: "CHR ''_'' \<notin> set (evenHex h)" if "list_all isHex h" for h
    using hex_no_underscore [OF that] by (simp add: evenHex_def)
  note no = hex_no_underscore [OF hexRex_hex] even [OF hexRex_hex]
  from a(4) b(4) have "evenHex m @ CHR ''_'' # (v @ ''_'' @ t @ ''_'' @ emMeterId msg1) =
      evenHex m' @ CHR ''_'' # (v' @ ''_'' @ t' @ ''_'' @ emMeterId msg2)" by simp
  from underscore_split [OF this no(2) [OF a(1)] no(2) [OF b(1)]]
  have m: "evenHex m = evenHex m'"
    and "v @ CHR ''_'' # (t @ ''_'' @ emMeterId msg1) = v' @ CHR ''_'' # (t' @ ''_'' @ emMeterId msg2)" by simp_all
  from underscore_split [OF this(2) no(1) [OF a(2)] no(1) [OF b(2)]]
  have v: "v = v'" and "t @ CHR ''_'' # emMeterId msg1 = t' @ CHR ''_'' # emMeterId msg2" by simp_all
  from underscore_split [OF this(2) no(1) [OF a(3)] no(1) [OF b(3)]] m v a b show ?thesis by simp
qed

section \<open>Updating attributes\<close>

text \<open>
  The documented effect of the request: all attributes of the named origins are replaced by those sent,
  attributes of other origins stay.
\<close>

definition sameOriginUpdate :: "string list \<Rightarrow> attribute list \<Rightarrow> attribute list \<Rightarrow> attribute list" where
  "sameOriginUpdate origins new old = filter (\<lambda>a. attrOrigin a \<notin> set origins) old @ new"

lemma set_legacyOrigins:
  "set (legacyOrigins o1 attrs) = insert o1 (attrOrigin ` {a \<in> set attrs. isLegacyKeyOk a})"
proof -
  have "set (foldl (\<lambda>os a. if isLegacyKeyOk a \<and> attrOrigin a \<notin> set os then os @ [attrOrigin a] else os) os as) =
      set os \<union> attrOrigin ` {a \<in> set as. isLegacyKeyOk a}" for os as
    by (induction as rule: rev_induct) auto
  from this [of "[o1]" attrs] show ?thesis by (simp add: legacyOrigins_def)
qed

definition staysAttribute :: "attribute \<Rightarrow> bool" where
  "staysAttribute a =
     (if attrKey a = wmbusKeyOkAttribute then attrOrigin a = defaultAttributeOrigin else True)"

text \<open>
  Replacing legacy key-ok attributes loses nothing else: of the device's attributes those with
  another key stay as they are, of those with the key-ok key only the ones of the origin default stay,
  and the new key-ok attribute of the connector is added.
\<close>

lemma legacy_replacement_exact:
  "let keyOk = \<lparr>attrKey = wmbusKeyOkAttribute, attrValue = v, attrOrigin = connectorOrigin\<rparr>;
     origins = legacyOrigins (attrOrigin keyOk) attrs
   in set (sameOriginUpdate origins (keptAttributes keyOk origins attrs) attrs) =
     insert keyOk {a \<in> set attrs. staysAttribute a}"
proof -
  have "connectorOrigin \<noteq> defaultAttributeOrigin" by (simp add: connectorOrigin_def defaultAttributeOrigin_def)
  then show ?thesis
    by (auto simp: sameOriginUpdate_def keptAttributes_def Let_def set_legacyOrigins isLegacyKeyOk_def staysAttribute_def)
qed

section \<open>Comparing device types\<close>

lemma sortCVs_idem: "sortCVs (sortCVs cvs) = sortCVs cvs"
  unfolding sortCVs_def by (rule sort_key_id_if_sorted) simp

lemma length_sortCVs [simp]: "length (sortCVs cvs) = length cvs"
  by (simp add: sortCVs_def)

lemma same_variables: "list_all2 (\<lambda>a b. cvName a = cvName b \<and> cvType a = cvType b) cvs cvs"
  by (simp add: list_all2_same)

text \<open>
  An update settles: whatever the stored device type was, once the new one, as the comparison
  leaves it, is stored, comparing it with the same new device type asks for no further update.
\<close>

lemma device_type_update_settles:
  "\<not> fst (wmbusDeviceTypeNeedsUpdate (snd (snd (wmbusDeviceTypeNeedsUpdate existing new))) new)"
proof (cases "dtServices new = [] \<or> svOutputs (hd (dtServices new)) = []")
  case True
  then have "snd (snd (wmbusDeviceTypeNeedsUpdate existing new)) = new"
    by (auto simp: wmbusDeviceTypeNeedsUpdate_def Let_def)
  with True show ?thesis by (auto simp: wmbusDeviceTypeNeedsUpdate_def Let_def)
next
  case False
  then obtain s ss cvs os where new: "dtServices new = s # ss" "svOutputs s = cvs # os"
    by (metis list.exhaust list.sel(1))
  let ?sorted = "new\<lparr>dtServices := s\<lparr>svOutputs := sortCVs cvs # os\<rparr> # ss\<rparr>"
  have "snd (snd (wmbusDeviceTypeNeedsUpdate existing new)) \<in> {new, ?sorted}"
    using new by (auto simp: wmbusDeviceTypeNeedsUpdate_def withFirstCVs_def firstCVs_def Let_def)
  then show ?thesis
  proof
    assume "snd (snd (wmbusDeviceTypeNeedsUpdate existing new)) = new"
    with new same_variables show ?thesis
      by (simp add: wmbusDeviceTypeNeedsUpdate_def firstCVs_def Let_def)
  next
    assume "snd (snd (wmbusDeviceTypeNeedsUpdate existing new)) \<in> {?sorted}"
    then show ?thesis using new same_variables
      by (simp add: wmbusDeviceTypeNeedsUpdate_def firstCVs_def sortCVs_idem Let_def)
  qed
qed

section \<open>Example telegrams\<close>

definition testMsg :: encryptedMsg where
  "testMsg = \<lparr>emManufacturer = ''ESY (0x1679)'', emType = ''Electricity meter (0x02)'', emVersion = ''0x30'',
     emMeterId = ''12345678'', emTelegram = ''2e44''\<rparr>"

definition testKey :: "string \<Rightarrow> attribute" where
  "testKey k = \<lparr>attrKey = ''wmbus/key'', attrValue = k, attrOrigin = []\<rparr>"

definition testMeter :: device where
  "testMeter = (testDevice ''m'')\<lparr>devAttributes := [testKey ''good'', testKey ''bad'']\<rparr>"

definition testOutput :: "string list \<Rightarrow> string \<times> goerror option" where
  "testOutput args = (if args = [''--analyze'', ''2e44''] then (''encrypted'', None)
     else if args = [''--analyze=good'', ''2e44''] then (CHR ''{'' # CHR 0x0A # ''}'', None)
     else (''failed decryption'', None))"

definition testNimbus :: "unit connector" where
  "testNimbus = testConn\<lparr>execCommand := \<lambda>p as w. (testOutput as, w),
     decodeEncrypted := \<lambda>x. Inr testMsg, getDeviceByLocalId := \<lambda>t l w. (Inr testMeter, w)\<rparr>"

lemma testOutput_decoded:
  "decodeOutput cn [] False (''encrypted'', None) = Inl errorEncrypted"
  "decodeOutput cn [] True (''failed decryption'', None) = Inl errorWrongKey"
  "decodeOutput cn [] True (CHR ''{'' # CHR 0x0A # ''}'', None) = Inr (JObj [])"
proof -
  show "decodeOutput cn [] False (''encrypted'', None) = Inl errorEncrypted"
    "decodeOutput cn [] True (''failed decryption'', None) = Inl errorWrongKey"
    by (simp_all add: decodeOutput_def)
  have "findBlocks (CHR ''{'' # CHR 0x0A # ''}'') = [CHR ''{'' # CHR 0x0A # ''}'']" by code_simp
  moreover have "parseJson (CHR ''{'' # CHR 0x0A # ''}'') = Some (JObj [])" by code_simp
  ultimately show "decodeOutput cn [] True (CHR ''{'' # CHR 0x0A # ''}'', None) = Inr (JObj [])"
    by (simp add: decodeOutput_def unmarshal_def decodeAnyMap_def sortMembers_def)
qed

lemma testArgs:
  "analyzeArg [] None = ''--analyze''" "analyzeArg [] (Some ''good'') = ''--analyze=good''"
  "analyzeArg [] (Some ''bad'') = ''--analyze=bad''" "sanitizeTelegram ''2e44'' = ''2e44''"
  by code_simp+

lemma testNimbus_fields:
  "execCommand testNimbus p as w = (testOutput as, w)"
  "floatText testNimbus = floatText testConn"
  "getDeviceByLocalId testNimbus t l w = (Inr testMeter, w)"
  "decodeEncrypted testNimbus x = Inr testMsg"
  by (simp_all add: testNimbus_def)

lemma testKeys_run:
  "run_state (tryKeys testConfig testNimbus [] ''2e44'' [''good'', ''bad''] None False) s0 =
     (Inr (None, True), s0\<lparr>calls := [CExec [] [''--analyze=good'', ''2e44''] (CHR ''{'' # CHR 0x0A # ''}'', None),
       CExec [] [''--analyze=bad'', ''2e44''] (''failed decryption'', None)]\<rparr>)"
  by (simp add: decryptAndDecodeTelegram_def io_simps testNimbus_fields testArgs testOutput_def testOutput_decoded
      Let_def errorWrongKey_def errorsIs_def test_simps)

lemma testDecrypt_run:
  obtains s' where "run_state (decryptWithKeys testConfig testNimbus ''token'' testMeter [] ''type'' testMsg) s0 =
    (Inr (Some None), s')"
proof -
  have keys: "wmbusKeys testMeter = [''good'', ''bad'']" "emTelegram testMsg = ''2e44''"
    by (simp_all add: wmbusKeys_def testMeter_def testKey_def testMsg_def)
  obtain s2 where status: "run_state (updateDeviceDecryptionStatus testConfig testNimbus ''token'' testMeter ''true'')
      (snd (run_state (tryKeys testConfig testNimbus [] ''2e44'' [''good'', ''bad''] None False) s0)) = (None, s2)"
    by (simp add: testKeys_run)
      (simp add: updateDeviceDecryptionStatus_def setSameOriginAttributes_def testMeter_def testKey_def testDevice_def
        isLegacyKeyOk_def wmbusKeyOkAttribute_def testNimbus_def io_simps Let_def test_simps)
  obtain t s3 where ensure: "run_state (ensureWmbusDeviceType testConfig testNimbus ''type'' testMsg None) s2 = (Inr t, s3)"
  proof (rule that)
    show "run_state (ensureWmbusDeviceType testConfig testNimbus ''type'' testMsg None) s2 =
      (Inr testDeviceType, snd (run_state (ensureWmbusDeviceType testConfig testNimbus ''type'' testMsg None) s2))"
      by (simp add: ensureWmbusDeviceType_def getWmbusDeviceType_def testNimbus_def testDeviceType_def
          wmbusDeviceTypeNeedsUpdate_def keepUnmanagedAttributes_def io_simps Let_def test_simps)
  qed
  show ?thesis
    by (rule that) (use keys status ensure in \<open>simp add: decryptWithKeys_def io_simps testKeys_run del: tryKeys.simps\<close>)
qed

theorem event_carries_last_key_witness:
  "\<exists>outs. length outs = 2 \<and> anyGood (keyAnswers testNimbus [] outs) \<and>
     Some ''null'' = Some (case last (keyAnswers testNimbus [] outs) of Inl e \<Rightarrow> ''null'' | Inr m \<Rightarrow> marshal m)"
proof -
  obtain s' where run: "run_state (decryptWithKeys testConfig testNimbus ''token'' testMeter [] ''type'' testMsg) s0 =
    (Inr (Some None), s')" by (rule testDecrypt_run)
  have "length (wmbusKeys testMeter) = 2" by (simp add: wmbusKeys_def testMeter_def testKey_def)
  moreover have "wmbusEvent None Map.empty ''data'' = Some ''null''" by (simp add: wmbusEvent_def timestampField_def)
  ultimately show ?thesis using event_carries_last_key [OF run, of Map.empty] by auto
qed

section \<open>Example calls\<close>

definition testTelegram :: eventMsg where
  "testTelegram = [''data'' \<mapsto> ''telegram'']"

lemma testMsg_local: "localDeviceId testMsg = Inr ''wmbus_1679_30_02_12345678''"
  by code_simp

text \<open>A program that fails ends the handling after the receiver is recorded.\<close>

definition testNoProgram :: "unit connector" where
  "testNoProgram = testNimbus\<lparr>execCommand := \<lambda>p as w. (([], Some (errorsNew ''no program'')), w)\<rparr>"

lemma testNoProgram_fields:
  "execCommand testNoProgram p1 as1 w1 = (([], Some (errorsNew ''no program'')), w1)"
  "getDeviceByLocalId testNoProgram t2 l2 w2 = (Inr testMeter, w2)"
  "decodeEncrypted testNoProgram x3 = Inr testMsg"
  "utilDeviceTypeId testNoProgram a4 b4 c4 d4 = Inr ''type''"
  "access testNoProgram w5 = (Inr ''admin'', w5)"
  "getDeviceType testNoProgram t6 i6 w6 = (Inr testDeviceType, w6)"
  "cacheGet testNoProgram k7 w7 = (Inl (GoError ''not found'' [CacheErrNotFound]), w7)"
  "cacheSet testNoProgram k8 v8 d8 w8 = (None, w8)"
  "timeNow testNoProgram w9 = (1000, w9)"
  "putAttributes testNoProgram u10 t10 as10 w10 = (None, w10)"
  by (simp_all add: testNoProgram_def testNimbus_def test_simps)

definition seenAttribute :: attribute where
  "seenAttribute = \<lparr>attrKey = ''wmbus/last_seen/id:n'', attrValue = formatRFC3339 1000, attrOrigin = ''id:n''\<rparr>"

lemma testNoProgram_run:
  obtains s' where "run_state (handleWmbusEvent testConfig testNoProgram ''ns'' TestWaitingRoom ''u'' ''token''
      testTelegram 1 (testDevice ''n'')) s0 = ((Some (errorsNew ''no program''), False), s')"
    and "CExec [] [''--analyze'', ''2e44''] ([], Some (errorsNew ''no program'')) \<in> set (newCalls s0 s')"
    and "CPutAttributes (attributesUrl testConfig ''id:m'' [''id:n'']) ''token'' [seenAttribute] None \<in> set (newCalls s0 s')"
proof -
  have names: "devId testMeter = ''id:m''" "devId (testDevice ''n'') = ''id:n''"
      "wmbusDriver testMeter testDeviceType = []" "emTelegram testMsg = ''2e44''"
    by (simp_all add: testMeter_def testDevice_def testDeviceType_def wmbusDriver_def forcedDriver_def testKey_def
        wmbusDriverAttribute_def testMsg_def)
  note run = handleWmbusEvent_def processTelegram_def testTelegram_def recordWmbusReceiver_def
    getWmbusDeviceType_def setSameOriginAttributes_def decryptAndDecodeTelegram_def testArgs decodeOutput_def
    errorsIs_def errorsNew_def testMsg_local testNoProgram_fields names io_simps Let_def
  show ?thesis
    by (rule that [of "snd (run_state (handleWmbusEvent testConfig testNoProgram ''ns'' TestWaitingRoom ''u'' ''token''
        testTelegram 1 (testDevice ''n'')) s0)"]) (simp_all add: run newCalls_def attributesUrl_def seenAttribute_def test_simps)
qed

theorem telegram_program_arguments_witness:
  "execSafe testConfig [] [''--analyze'', ''2e44'']"
proof -
  obtain s' where run: "run_state (handleWmbusEvent testConfig testNoProgram ''ns'' TestWaitingRoom ''u'' ''token''
      testTelegram 1 (testDevice ''n'')) s0 = ((Some (errorsNew ''no program''), False), s')"
    and call: "CExec [] [''--analyze'', ''2e44''] ([], Some (errorsNew ''no program'')) \<in> set (newCalls s0 s')"
    by (rule testNoProgram_run)
  from telegram_program_arguments [OF this] show ?thesis .
qed

end
