(* ===== verification/TelegramEvents.thy ===== *)
theory TelegramEvents
  imports WmbusProperties
begin

text \<open>
  Which events of metering devices the handling of a telegram sends: an event is justified by calls that
  were made before it in the same run, the one of wmbusmeters that decoded the telegram and the one that
  returned the metering device.
\<close>

section \<open>Calls that follow from earlier calls\<close>

text \<open>
  \<open>follows P D m Q\<close>: after the calls \<open>D\<close>, every call of \<open>m\<close> satisfies \<open>P\<close>, and the answer of \<open>m\<close> satisfies
  \<open>Q\<close>, each together with all calls made until \<open>m\<close> ends.
\<close>

definition follows :: "(call set \<Rightarrow> call \<Rightarrow> bool) \<Rightarrow> call set \<Rightarrow> ('w, 'a) io \<Rightarrow> (call set \<Rightarrow> 'a \<Rightarrow> bool) \<Rightarrow> bool" where
  "follows P D m Q \<longleftrightarrow> (\<forall>s a s'. run_state m s = (a, s') \<longrightarrow> extends s s' \<and>
     (\<forall>c \<in> set (newCalls s s'). P (D \<union> set (newCalls s s')) c) \<and> Q (D \<union> set (newCalls s s')) a)"

definition stable :: "(call set \<Rightarrow> call \<Rightarrow> bool) \<Rightarrow> bool" where
  "stable P \<longleftrightarrow> (\<forall>C D c. P C c \<longrightarrow> C \<subseteq> D \<longrightarrow> P D c)"

abbreviation anyAnswer :: "call set \<Rightarrow> 'a \<Rightarrow> bool" where
  "anyAnswer \<equiv> \<lambda>C a. True"

lemma followsD:
  assumes "follows P D m Q" "run_state m s = (a, s')"
  shows "extends s s'" "c \<in> set (newCalls s s') \<Longrightarrow> P (D \<union> set (newCalls s s')) c"
    "Q (D \<union> set (newCalls s s')) a"
  using assms unfolding follows_def by blast+

lemma follows_ret: "Q D x \<Longrightarrow> follows P D (ret x) Q"
  by (simp add: follows_def)

lemma follows_bind:
  assumes "stable P" "follows P D m Q" "\<And>a C. D \<subseteq> C \<Longrightarrow> Q C a \<Longrightarrow> follows P C (f a) R"
  shows "follows P D (State_Monad.bind m f) R"
  unfolding follows_def
proof (intro allI impI)
  fix s b s''
  assume "run_state (State_Monad.bind m f) s = (b, s'')"
  then obtain a s' where r: "run_state m s = (a, s')" "run_state (f a) s' = (b, s'')"
    by (auto simp: io_simps split: prod.splits)
  note m = followsD [OF assms(2) r(1)]
  have f: "follows P (D \<union> set (newCalls s s')) (f a) R" by (rule assms(3)) (use m(3) in auto)
  note f = followsD [OF f r(2)]
  have calls: "newCalls s s'' = newCalls s s' @ newCalls s' s''" by (rule newCalls_trans [OF m(1) f(1)])
  have "P (D \<union> set (newCalls s s'')) c" if c: "c \<in> set (newCalls s s'')" for c
  proof (cases "c \<in> set (newCalls s s')")
    case True
    from m(2) [OF this] have "P (D \<union> set (newCalls s s')) c" .
    moreover have "D \<union> set (newCalls s s') \<subseteq> D \<union> set (newCalls s s'')" by (auto simp: calls)
    ultimately show ?thesis using assms(1) unfolding stable_def by blast
  next
    case False
    with c have "c \<in> set (newCalls s' s'')" by (simp add: calls)
    from f(2) [OF this] show ?thesis by (simp add: calls Un_assoc)
  qed
  then show "extends s s'' \<and> (\<forall>c \<in> set (newCalls s s''). P (D \<union> set (newCalls s s'')) c) \<and>
      R (D \<union> set (newCalls s s'')) b"
    using extends_trans [OF m(1) f(1)] f(3) by (simp add: calls Un_assoc)
qed

lemma follows_emits: "emits E m \<Longrightarrow> (\<And>C c. E c \<Longrightarrow> P C c) \<Longrightarrow> follows P D m anyAnswer"
  unfolding follows_def emits_def by blast

lemma follows_cases:
  "(b \<Longrightarrow> follows P D m Q) \<Longrightarrow> (\<not> b \<Longrightarrow> follows P D n Q) \<Longrightarrow> follows P D (if b then m else n) Q"
  "(\<And>e. x = Inl e \<Longrightarrow> follows P D (f e) Q) \<Longrightarrow> (\<And>a. x = Inr a \<Longrightarrow> follows P D (g a) Q) \<Longrightarrow>
   follows P D (case x of Inl e \<Rightarrow> f e | Inr a \<Rightarrow> g a) Q"
  "(y = None \<Longrightarrow> follows P D m Q) \<Longrightarrow> (\<And>a. y = Some a \<Longrightarrow> follows P D (k a) Q) \<Longrightarrow>
   follows P D (case y of None \<Rightarrow> m | Some a \<Rightarrow> k a) Q"
  "(\<And>a b. z = (a, b) \<Longrightarrow> follows P D (h a b) Q) \<Longrightarrow> follows P D (case z of (a, b) \<Rightarrow> h a b) Q"
  by (simp_all split: sum.splits option.splits prod.splits)

lemma follows_any: "follows P D m Q \<Longrightarrow> follows P D m anyAnswer"
  unfolding follows_def by blast

lemma follows_mono:
  "follows P D m Q \<Longrightarrow> (\<And>C a. D \<subseteq> C \<Longrightarrow> Q C a \<Longrightarrow> R C a) \<Longrightarrow> follows P D m R"
  unfolding follows_def by blast

lemma follows_perform:
  "(\<And>a. P (insert (c a) D) (c a)) \<Longrightarrow> (\<And>a. Q (insert (c a) D) a) \<Longrightarrow> follows P D (perform f c) Q"
  by (auto simp: follows_def io_simps extends_def newCalls_def split: prod.splits)

section \<open>Decoded telegrams\<close>

text \<open>
  What a telegram was decoded to, by the output of one of the program's runs on it: an object, or nothing
  when the last key was a wrong one.
\<close>

definition decodedFrom :: "config \<Rightarrow> 'w connector \<Rightarrow> encryptedMsg \<Rightarrow> call set \<Rightarrow> json option \<Rightarrow> bool" where
  "decodedFrom cfg cn msg C dec \<longleftrightarrow> (\<exists>driver key args out.
     CExec (WmbusmetersExecutable cfg) (args @ [analyzeArg driver key, sanitizeTelegram (emTelegram msg)]) out \<in> C \<and>
     (case dec of
        Some m \<Rightarrow> decodeOutput cn driver (key \<noteq> None) out = Inr m
      | None \<Rightarrow> key \<noteq> None \<and> (\<exists>e. decodeOutput cn driver True out = Inl e \<and> errorsIs e ErrorWrongKey)))"

text \<open>An event of a metering device: the telegram comes with the event of the nimbus.\<close>

definition telegramEvent ::
  "config \<Rightarrow> 'w connector \<Rightarrow> string \<Rightarrow> eventMsg \<Rightarrow> int \<Rightarrow> call set \<Rightarrow> call \<Rightarrow> bool" where
  "telegramEvent cfg cn token event qos C c = (case c of
     CDeviceEvent t d sv ev q x \<Rightarrow> t = token \<and> sv = ''decrypted'' \<and> q = qos \<and>
       (\<exists>data msg dec dev. event ''data'' = Some data \<and> decodeEncrypted cn data = Inr msg \<and>
          localDeviceId msg = Inr d \<and> CDevice token d (Inr dev) \<in> C \<and>
          decodedFrom cfg cn msg C dec \<and> ev = wmbusEvent dec event)
   | _ \<Rightarrow> True)"

definition noEvent :: "call \<Rightarrow> bool" where
  "noEvent c \<longleftrightarrow> (\<forall>t d sv ev q x. c \<noteq> CDeviceEvent t d sv ev q x)"

lemma decodedFrom_mono: "decodedFrom cfg cn msg C dec \<Longrightarrow> C \<subseteq> D \<Longrightarrow> decodedFrom cfg cn msg D dec"
  unfolding decodedFrom_def by blast

lemma telegramEvent_stable: "stable (telegramEvent cfg cn token event qos)"
  unfolding stable_def
proof (intro allI impI)
  fix C D c assume "telegramEvent cfg cn token event qos C c" "C \<subseteq> D"
  then show "telegramEvent cfg cn token event qos D c"
    unfolding telegramEvent_def using decodedFrom_mono [of cfg cn _ C _ D] by (cases c) (simp_all, blast)
qed

lemma noEvent_telegramEvent: "noEvent c \<Longrightarrow> telegramEvent cfg cn token event qos C c"
  by (cases c) (auto simp: telegramEvent_def noEvent_def)

lemma telegramEventD:
  "telegramEvent cfg cn token event qos C (CDeviceEvent t d sv ev q x) \<Longrightarrow> t = token \<and> sv = ''decrypted'' \<and> q = qos"
  by (simp add: telegramEvent_def)

lemma emits_noEvent [emits_intros]:
  "emits noEvent (EnsureWaitingRoom cn wr token stub)"
  "emits noEvent (decryptAndDecodeTelegram cn ex dirs driver key tele)"
  "emits noEvent (getWmbusDeviceType cn i)"
  "emits noEvent (setSameOriginAttributes cfg cn token i ors attrs)"
  "emits noEvent (dedupTelegram cn user local tele)"
  unfolding EnsureWaitingRoom_def decryptAndDecodeTelegram_def getWmbusDeviceType_def
    setSameOriginAttributes_def dedupTelegram_def Let_def
  by (intro emits_intros; simp add: noEvent_def)+

lemma emits_noEvent_steps [emits_intros]:
  "emits noEvent (ensureWmbusDeviceType cfg cn i msg dec)"
  "emits noEvent (recordWmbusReceiver cfg cn token dev nimbus)"
  "emits noEvent (replaceLegacyKeyOk cfg cn token i keyOk)"
  "emits noEvent (useWaitingRoom cn wr token stub)"
  unfolding ensureWmbusDeviceType_def recordWmbusReceiver_def replaceLegacyKeyOk_def useWaitingRoom_def Let_def
  by (intro emits_intros; simp add: noEvent_def)+

lemma emits_noEvent_keys [emits_intros]:
  "emits noEvent (updateDeviceDecryptionStatus cfg cn token dev v)"
  "emits noEvent (tryKeys cfg cn driver tele ks dec ok)"
  unfolding updateDeviceDecryptionStatus_def
   by (intro emits_intros; simp add: noEvent_def)
     (induction ks arbitrary: dec ok, simp, intro emits_intros, simp, intro emits_intros)

section \<open>The stages of a telegram\<close>

lemma follows_quiet: "emits noEvent m \<Longrightarrow> follows (telegramEvent cfg cn token event qos) D m anyAnswer"
  by (erule follows_emits) (rule noEvent_telegramEvent)

lemma follows_decrypt:
  "follows (telegramEvent cfg cn token event qos) D
     (decryptAndDecodeTelegram cn (WmbusmetersExecutable cfg) (WmbusmetersDriversDir cfg) driver key (emTelegram msg))
     (\<lambda>C r. case r of Inl e \<Rightarrow> key \<noteq> None \<and> errorsIs e ErrorWrongKey \<longrightarrow> decodedFrom cfg cn msg C None
        | Inr m \<Rightarrow> decodedFrom cfg cn msg C (Some m))"
proof -
  let ?dir = "if 0 < length (WmbusmetersDriversDir cfg) then [''--driversdir='' @ WmbusmetersDriversDir cfg] else []"
  let ?call = "CExec (WmbusmetersExecutable cfg) (?dir @ [analyzeArg driver key, sanitizeTelegram (emTelegram msg)])"
  have "decodedFrom cfg cn msg C None" if "?call out \<in> C" "key \<noteq> None" "decodeOutput cn driver True out = Inl e"
      "errorsIs e ErrorWrongKey" for C out e
    using that unfolding decodedFrom_def
    by (intro exI [of _ driver] exI [of _ key] exI [of _ ?dir] exI [of _ out]) simp
  moreover have "decodedFrom cfg cn msg C (Some m)" if "?call out \<in> C" "decodeOutput cn driver (key \<noteq> None) out = Inr m" for C out m
    using that unfolding decodedFrom_def
    by (intro exI [of _ driver] exI [of _ key] exI [of _ ?dir] exI [of _ out]) simp
  ultimately show ?thesis
    unfolding decryptAndDecodeTelegram_def Let_def
    by (intro follows_cases follows_ret follows_bind [OF telegramEvent_stable, where Q = "\<lambda>C out. ?call out \<in> C"] follows_perform)
      (auto simp: errorsIs_def telegramEvent_def split: sum.splits)
qed

lemma follows_tryKeys:
  "follows (telegramEvent cfg cn token event qos) D (tryKeys cfg cn driver (emTelegram msg) ks dec ok)
     (\<lambda>C r. case r of Inl e \<Rightarrow> True
        | Inr (d, k) \<Rightarrow> ks = [] \<and> k = ok \<or> ks \<noteq> [] \<and> decodedFrom cfg cn msg C d)"
proof (induction ks arbitrary: dec ok D)
  case (Cons k ks)
  let ?Q = "\<lambda>C r. case r of Inl e \<Rightarrow> True | Inr (d, k) \<Rightarrow> decodedFrom cfg cn msg C d"
  have rest: "follows (telegramEvent cfg cn token event qos) C (tryKeys cfg cn driver (emTelegram msg) ks d' ok') ?Q"
    if "decodedFrom cfg cn msg C d'" for C d' ok'
  proof (cases "ks = []")
    case True
    with that show ?thesis by (simp add: follows_ret)
  next
    case False
    show ?thesis by (rule follows_mono [OF Cons.IH]) (use False in \<open>auto split: sum.splits prod.splits\<close>)
  qed
  have "follows (telegramEvent cfg cn token event qos) D (tryKeys cfg cn driver (emTelegram msg) (k # ks) dec ok) ?Q"
    unfolding tryKeys.simps
    by (intro follows_bind [OF telegramEvent_stable follows_decrypt] follows_cases rest follows_ret) simp_all
  then show ?case by (rule follows_mono) (auto split: sum.splits prod.splits)
qed (simp add: follows_ret)

lemma follows_keys:
  "follows (telegramEvent cfg cn token event qos) D (decryptWithKeys cfg cn token dev driver i msg)
     (\<lambda>C r. case r of Inr (Some dec) \<Rightarrow> decodedFrom cfg cn msg C dec | _ \<Rightarrow> True)"
  unfolding decryptWithKeys_def
proof (rule follows_bind [OF telegramEvent_stable follows_tryKeys], rule follows_cases(2))
  fix r C e assume "r = Inl e"
  then show "follows (telegramEvent cfg cn token event qos) C (ret (Inl e))
      (\<lambda>C r. case r of Inr (Some dec) \<Rightarrow> decodedFrom cfg cn msg C dec | _ \<Rightarrow> True)" by (simp add: follows_ret)
next
  fix r C p
  assume Q: "case r of Inl e \<Rightarrow> True | Inr (d, k) \<Rightarrow> wmbusKeys dev = [] \<and> k = False \<or>
      wmbusKeys dev \<noteq> [] \<and> decodedFrom cfg cn msg C d" and r: "r = Inr p"
  obtain decoded keyOk where p: "p = (decoded, keyOk)" by (cases p)
  from Q r p have C: "keyOk \<Longrightarrow> decodedFrom cfg cn msg C decoded" by auto
  show "follows (telegramEvent cfg cn token event qos) C (case p of (decoded, keyOk) \<Rightarrow> do {
       u \<leftarrow> updateDeviceDecryptionStatus cfg cn token dev (if keyOk then ''true'' else ''false'');
       case u of
         Some e \<Rightarrow> ret (Inl e)
       | None \<Rightarrow>
           (if \<not> keyOk then ret (Inr None)
            else do {
              t \<leftarrow> ensureWmbusDeviceType cfg cn i msg decoded;
              case t of Inl e \<Rightarrow> ret (Inl e) | Inr _ \<Rightarrow> ret (Inr (Some decoded))
            })
     }) (\<lambda>C r. case r of Inr (Some dec) \<Rightarrow> decodedFrom cfg cn msg C dec | _ \<Rightarrow> True)"
    unfolding p prod.case
    by (intro follows_bind [OF telegramEvent_stable follows_quiet] follows_cases follows_ret emits_noEvent_steps emits_noEvent_keys)
      (use C in \<open>auto intro: decodedFrom_mono\<close>)
qed

lemma follows_publishDecoded:
  assumes "event ''data'' = Some data" "decodeEncrypted cn data = Inr msg" "localDeviceId msg = Inr local"
    and "CDevice token local (Inr dev) \<in> D" "decodedFrom cfg cn msg D dec"
  shows "follows (telegramEvent cfg cn token event qos) D (publishDecoded cn token local dec event qos) anyAnswer"
proof -
  have "telegramEvent cfg cn token event qos (insert (CDeviceEvent token local ''decrypted'' (wmbusEvent dec event) qos x) D)
      (CDeviceEvent token local ''decrypted'' (wmbusEvent dec event) qos x)" for x
    using assms decodedFrom_mono [OF assms(5)] unfolding telegramEvent_def call.simps
    by (intro conjI refl exI [of _ data] exI [of _ msg] exI [of _ dec] exI [of _ dev]) auto
  then show ?thesis unfolding publishDecoded_def
    by (intro follows_bind [OF telegramEvent_stable, where Q = anyAnswer] follows_perform follows_cases follows_ret) simp_all
qed

lemma follows_processTelegram:
  assumes "event ''data'' = Some data" "decodeEncrypted cn data = Inr msg" "localDeviceId msg = Inr local"
    and "case found of None \<Rightarrow> True | Some dev \<Rightarrow> CDevice token local (Inr dev) \<in> D"
  shows "follows (telegramEvent cfg cn token event qos) D
    (processTelegram cfg cn wr user token event qos msg i local found driver) anyAnswer"
proof -
  have send: "follows (telegramEvent cfg cn token event qos) C (publishDecoded cn token local dec event qos) anyAnswer"
    if "found = Some dev" "D \<subseteq> C" "decodedFrom cfg cn msg C dec" for C dec dev
    by (rule follows_publishDecoded [where data = data and msg = msg and dev = dev]) (use assms that in auto)
  show ?thesis
    unfolding processTelegram_def
    by (intro follows_bind [OF telegramEvent_stable follows_decrypt]
        follows_bind [OF telegramEvent_stable follows_keys] follows_bind [OF telegramEvent_stable follows_quiet]
        follows_cases follows_ret emits_noEvent emits_noEvent_steps emits_noEvent_keys TrueI)
      (auto intro!: send follows_quiet [OF emits_noEvent_steps(4)] intro: decodedFrom_mono)
qed

text \<open>Every event of the handling of a telegram is one of the metering device, decoded from the telegram.\<close>

lemma follows_handleWmbusEvent:
  "follows (telegramEvent cfg cn token event qos) D
     (handleWmbusEvent cfg cn ns wr user token event qos nimbus) anyAnswer"
proof -
  let ?found = "\<lambda>d. case d of Inl e \<Rightarrow> if errorsIs e ErrorNotFound then Inr None else Inl e | Inr dev \<Rightarrow> Inr (Some dev)"
  have dev: "follows (telegramEvent cfg cn token event qos) C (callDevice cn token local)
      (\<lambda>C d. case ?found d of Inl e \<Rightarrow> True | Inr found \<Rightarrow>
         (case found of None \<Rightarrow> True | Some dev \<Rightarrow> CDevice token local (Inr dev) \<in> C))" for C local
    by (intro follows_perform) (auto simp: telegramEvent_def split: sum.splits if_splits)
  show ?thesis
    unfolding handleWmbusEvent_def
    by (intro follows_bind [OF telegramEvent_stable dev] follows_bind [OF telegramEvent_stable follows_any [OF follows_processTelegram]]
        follows_bind [OF telegramEvent_stable follows_quiet] follows_cases follows_ret emits_cases emits_ret
        emits_noEvent emits_noEvent_steps TrueI)
      (auto split: option.splits)
qed

lemma telegram_events:
  assumes "run_state (handleWmbusEvent cfg cn ns wr user token event qos nimbus) s = (x, s')"
    and "c \<in> set (newCalls s s')"
  shows "telegramEvent cfg cn token event qos (set (newCalls s s')) c"
  using followsD(2) [OF follows_handleWmbusEvent [where D = "{}"] assms] by simp

end
