(* ===== verification/HandlerProperties.thy ===== *)
theory HandlerProperties
  imports TestServices TelegramEvents
begin

text \<open>
  What the topic handlers promise about access: on the strength of which answers of the platform a
  subscription is accepted, a device is logged as connected, an event, a response, a process message
  or a fog message is let through, and who is notified of errors.
\<close>

text \<open>The check of the owner: it binds only topics that name one.\<close>

lemma ownerAllowed_iff: "ownerAllowed cn token ow \<longleftrightarrow>
    (ow \<noteq> [] \<longrightarrow> (\<exists>jwt. jwtParse cn token = Inr jwt \<and> (jwtIsAdmin jwt \<or> jwtUserId jwt = ow)))"
  by (auto simp: ownerAllowed_def)

section \<open>Commands\<close>

text \<open>
  C4. A command subscription is accepted only for a topic of the command prefix that names an owner if
  that is required and a single level wild card if that is required; when the topic names an owner, only
  for this owner or an administrator, by the token; with the device known to the token of the subscriber
  and, if the hub check is on, in the hub that is the client. The device is then logged as connected.
\<close>

theorem command_subscription_accepted:
  assumes "run_state (commandSubscribe cfg cn c u t) s = ((Accepted, e), s')"
  shows "\<exists>ow d sv token dev x. ParseTopic t = Inr (TopicParts ''command'' ow d sv) \<and>
    (ForceTopicsWithOwner cfg \<longrightarrow> ow \<noteq> []) \<and>
    (ForceCommandSubscriptionServiceSingleLevelWildcard cfg \<longrightarrow> sv = ''+'') \<and>
    CToken u (Inr token) \<in> set (newCalls s s') \<and>
    (ow \<noteq> [] \<longrightarrow> (\<exists>jwt. jwtParse cn token = Inr jwt \<and> (jwtIsAdmin jwt \<or> jwtUserId jwt = ow))) \<and>
    CDevice token d (Inr dev) \<in> set (newCalls s s') \<and>
    CDeviceConnect (devId dev) x \<in> set (newCalls s s') \<and>
    (CheckHub cfg \<longrightarrow> (\<exists>h. CGetHub c token (Inr h) \<in> set (newCalls s s') \<and> d \<in> set (hubDeviceLocalIds h)))"
  using assms unfolding ownerAllowed_iff [symmetric] by (rule commandSubscribe_accepted) blast

lemma command_example:
  "run_state (commandSubscribe testConfig testConn ''hub'' ''u'' ''command/d/srv'') s0 =
     ((Accepted, None), s0\<lparr>calls := [CToken ''u'' (Inr ''token''), CDevice ''token'' ''d'' (Inr (testDevice ''d'')),
       CDeviceConnect ''id:d'' None]\<rparr>)"
  by (simp add: commandSubscribe_def io_simps ParseTopic_def checkOwner_def test_simps)
    (simp add: testDevice_def s0_def)

theorem command_subscription_accepted_witness:
  "\<exists>d token dev x. CDevice token d (Inr dev) \<in> set (newCalls s0 (s0\<lparr>calls :=
       [CToken ''u'' (Inr ''token''), CDevice ''token'' ''d'' (Inr (testDevice ''d'')), CDeviceConnect ''id:d'' None]\<rparr>)) \<and>
     CDeviceConnect (devId dev) x \<in> set (newCalls s0 (s0\<lparr>calls :=
       [CToken ''u'' (Inr ''token''), CDevice ''token'' ''d'' (Inr (testDevice ''d'')), CDeviceConnect ''id:d'' None]\<rparr>))"
  using command_subscription_accepted [OF command_example] by blast

text \<open>
  A device is logged as connected by a subscription only when the subscription is accepted, and it is
  the device that the platform returned for the local id of the topic.
\<close>

lemma connect_only_when_accepted:
  assumes "run_state (commandSubscribe cfg cn c u t) s = ((r, e), s')"
    and "CDeviceConnect i x \<in> set (newCalls s s')"
  shows "r = Accepted \<and> e = None \<and> (\<exists>ow d sv token dev. ParseTopic t = Inr (TopicParts ''command'' ow d sv) \<and>
    CDevice token d (Inr dev) \<in> set (newCalls s s') \<and> i = devId dev)"
  using assms
  by (auto simp: commandSubscribe_def checkHub_def io_simps newCalls_def
      split: if_splits sum.splits topicParts.splits prod.splits option.splits)

section \<open>Events\<close>

definition ownEvent :: "string \<Rightarrow> string \<Rightarrow> string \<Rightarrow> eventMsg \<Rightarrow> int \<Rightarrow> call \<Rightarrow> bool" where
  "ownEvent token d sv ev qos c = (case c of
     CDeviceEvent t d' sv' ev' q x \<Rightarrow> t = token \<and> d' = d \<and> sv' = sv \<and> ev' = ev \<and> q = qos | _ \<Rightarrow> True)"

lemma emits_ownEvent [emits_intros]:
  "emits (ownEvent token d sv ev q) (callEvent cn token d sv ev q)"
  "emits (ownEvent token d sv ev q) (callStat cn st)"
  "emits (ownEvent token d sv ev q) (callDevice cn k l)"
  "emits (ownEvent token d sv ev q) (handleErr cfg cn e z u i)"
  unfolding handleErr_def by (intro emits_intros; simp add: ownEvent_def)+

lemma forwardEvent_events:
  assumes run: "run_state (forwardEvent cfg cn this u token d sv ev q z) s = (x, s')"
    and c: "c \<in> set (newCalls s s')"
  shows "ownEvent token d sv ev q c \<or> telegramEvent cfg cn token ev q (set (newCalls s s')) c \<and>
    (\<exists>dev. CDevice token d (Inr dev) \<in> set (newCalls s s') \<and> devTypeId dev = NimbusDeviceTypeId cfg)"
proof -
  obtain dv s1 where dv: "run_state (callDevice cn token d) s = (dv, s1)" by (metis surj_pair)
  then have s1: "calls s1 = calls s @ [CDevice token d dv]" by (auto simp: run_perform split: prod.splits)
  show ?thesis
  proof (cases dv)
    case (Inl e)
    have "run_state (handleErr cfg cn e z u emptyInfo) s1 = (x, s')"
      using run by (simp add: forwardEvent_def run_state_bind [of "callDevice cn token d"] dv Inl)
    from emitsD [OF emits_ownEvent(4) this] emits_extends [OF emits_ownEvent(4) this]
    show ?thesis using c s1 by (auto simp: extends_def newCalls_def ownEvent_def)
  next
    case (Inr dev)
    let ?w = "if devTypeId dev = NimbusDeviceTypeId cfg
      then handleWmbusEvent cfg cn (ehNamespace this) (ehWaitingRoom this) u token ev q dev else ret (None, False)"
    let ?tail = "do {
         (info, err) \<leftarrow> callEvent cn token d sv ev q;
         _ \<leftarrow> (if hiDeviceId info \<noteq> [] \<and> hiDeviceTypeId info \<noteq> []
              then callStat cn (DeviceMsgReceive z u (hiDeviceId info) (hiDeviceTypeId info) (hiServiceIds info))
              else ret ());
         case err of
           Some e \<Rightarrow> handleErr cfg cn e z u info
         | None \<Rightarrow> do {
             _ \<leftarrow> callStat cn (DeviceMsgHandled z u (hiDeviceId info) (hiDeviceTypeId info) (hiServiceIds info));
             ret (Accepted, None)
           }
       }"
    obtain y s2 where w: "run_state ?w s1 = (y, s2)" by (metis surj_pair)
    have tail: "run_state ?tail s2 = (x, s')"
      using run by (simp add: forwardEvent_def run_state_bind [of "callDevice cn token d"] run_state_bind [of ?w] dv Inr w)
    have fw: "follows (\<lambda>C c. telegramEvent cfg cn token ev q C c \<and> devTypeId dev = NimbusDeviceTypeId cfg) {} ?w anyAnswer"
      using follows_handleWmbusEvent [of cfg cn token ev q "{}"] unfolding follows_def by (auto simp: io_simps)
    have et: "emits (ownEvent token d sv ev q) ?tail" by (intro emits_intros)
    from followsD(1) [OF fw w] obtain cs where cs: "calls s2 = calls s1 @ cs" by (auto simp: extends_def)
    from emits_extends [OF et tail] obtain ds where ds: "calls s' = calls s2 @ ds" by (auto simp: extends_def)
    have new: "newCalls s s' = CDevice token d (Inr dev) # cs @ ds" "newCalls s1 s2 = cs" "newCalls s2 s' = ds"
      using s1 cs ds Inr by (simp_all add: newCalls_def)
    then consider "c = CDevice token d (Inr dev)" | "c \<in> set cs" | "c \<in> set ds" using c by auto
    then show ?thesis
    proof cases
      case 2
      from followsD(2) [OF fw w] this new(2)
      have "telegramEvent cfg cn token ev q (set cs) c" "devTypeId dev = NimbusDeviceTypeId cfg" by simp_all
      moreover have "set cs \<subseteq> set (newCalls s s')" by (auto simp: new(1))
      ultimately show ?thesis using telegramEvent_stable unfolding stable_def by (metis list.set_intros(1) new(1))
    qed (use emitsD [OF et tail, of c] new(3) in \<open>auto simp: ownEvent_def\<close>)
  qed
qed

lemma checkHub_None:
  "run_state (checkHub cn k h d) s = (None, s') \<Longrightarrow>
   \<exists>hb. calls s' = calls s @ [CGetHub h k (Inr hb)] \<and> d \<in> set (hubDeviceLocalIds hb)"
  by (auto simp: checkHub_def io_simps split: sum.splits prod.splits if_splits)

lemma checkEvent_None:
  "run_state (checkEvent cn k d sv) s = (None, s') \<Longrightarrow>
   \<exists>dev dt. calls s' = calls s @ [CDevice k d (Inr dev), CDeviceType k (devTypeId dev) (Inr dt)] \<and>
     (\<exists>v \<in> set (dtServices dt). svLocalId v = sv)"
  by (auto simp: checkEvent_def io_simps split: sum.splits prod.splits if_splits)

lemma noEvent_checks:
  "emits noEvent (checkHub cn k h d)" "emits noEvent (checkEvent cn k d sv)" "emits noEvent (callToken cn u)"
  unfolding checkHub_def checkEvent_def by (intro emits_intros; simp add: noEvent_def)+

lemma newCalls_via: "extends s s1 \<Longrightarrow> extends s1 s' \<Longrightarrow> set (newCalls s s') = set (newCalls s s1) \<union> set (newCalls s1 s')"
  using newCalls_trans [of s s1 s'] by simp

text \<open>The two checks between the token and the forwarding make no event call, and what it takes to pass them.\<close>

abbreviation hubPart :: "config \<Rightarrow> 'w connector \<Rightarrow> string \<Rightarrow> string \<Rightarrow> string \<Rightarrow> ('w, goerror option) io" where
  "hubPart cfg cn token c d \<equiv> (if CheckHub cfg then checkHub cn token c d else ret None)"

abbreviation servicePart :: "config \<Rightarrow> 'w connector \<Rightarrow> string \<Rightarrow> string \<Rightarrow> string \<Rightarrow> ('w, goerror option) io" where
  "servicePart cfg cn token d sv \<equiv> (if \<not> CheckHub cfg then checkEvent cn token d sv else ret None)"

lemma eventChecks_quiet:
  assumes "calls s1 = calls s @ [CToken u tok]"
    and hub: "run_state (hubPart cfg cn token c d) s1 = (hr, s2)"
    and service: "run_state (servicePart cfg cn token d sv) s2 = (er, s3)"
  shows "extends s s3" "\<forall>c \<in> set (newCalls s s2). noEvent c" "\<forall>c \<in> set (newCalls s s3). noEvent c"
    "set (newCalls s s3) = insert (CToken u tok) (set (newCalls s1 s2) \<union> set (newCalls s2 s3))"
proof -
  have em: "emits noEvent (hubPart cfg cn token c d)" "emits noEvent (servicePart cfg cn token d sv)"
    by (simp_all add: noEvent_checks emits_ret)
  have ex: "extends s s1" "extends s1 s2" "extends s2 s3"
    using assms(1) emits_extends [OF em(1) hub] emits_extends [OF em(2) service] by (auto simp: extends_def)
  have one: "set (newCalls s s1) = {CToken u tok}" "noEvent (CToken u tok)"
    using assms(1) by (simp_all add: newCalls_def noEvent_def)
  show "extends s s3" using ex by (blast intro: extends_trans)
  show via: "set (newCalls s s3) = insert (CToken u tok) (set (newCalls s1 s2) \<union> set (newCalls s2 s3))"
    using newCalls_via [OF extends_trans [OF ex(1,2)] ex(3)] newCalls_via [OF ex(1,2)] one(1) by auto
  show "\<forall>c \<in> set (newCalls s s2). noEvent c"
    using newCalls_via [OF ex(1,2)] one emitsD [OF em(1) hub] by auto
  show "\<forall>c \<in> set (newCalls s s3). noEvent c"
    using via one(2) emitsD [OF em(1) hub] emitsD [OF em(2) service] by auto
qed

lemma eventChecks_passed:
  assumes "run_state (hubPart cfg cn token c d) s1 = (None, s2)" "run_state (servicePart cfg cn token d sv) s2 = (None, s3)"
  shows "CheckHub cfg \<longrightarrow> (\<exists>h. CGetHub c token (Inr h) \<in> set (newCalls s1 s2) \<and> d \<in> set (hubDeviceLocalIds h))"
    and "\<not> CheckHub cfg \<longrightarrow> (\<exists>dev dt. CDevice token d (Inr dev) \<in> set (newCalls s2 s3) \<and>
      CDeviceType token (devTypeId dev) (Inr dt) \<in> set (newCalls s2 s3) \<and>
      (\<exists>v \<in> set (dtServices dt). svLocalId v = sv))"
proof -
  show "CheckHub cfg \<longrightarrow> (\<exists>h. CGetHub c token (Inr h) \<in> set (newCalls s1 s2) \<and> d \<in> set (hubDeviceLocalIds h))"
    using assms(1) checkHub_None [of cn token c d s1 s2] by (auto simp: newCalls_def)
  show "\<not> CheckHub cfg \<longrightarrow> (\<exists>dev dt. CDevice token d (Inr dev) \<in> set (newCalls s2 s3) \<and>
      CDeviceType token (devTypeId dev) (Inr dt) \<in> set (newCalls s2 s3) \<and>
      (\<exists>v \<in> set (dtServices dt). svLocalId v = sv))"
  proof
    assume "\<not> CheckHub cfg"
    with assms(2) have "run_state (checkEvent cn token d sv) s2 = (None, s3)" by simp
    from checkEvent_None [OF this] obtain dev dt where dt:
      "calls s3 = calls s2 @ [CDevice token d (Inr dev), CDeviceType token (devTypeId dev) (Inr dt)]"
      "\<exists>v \<in> set (dtServices dt). svLocalId v = sv" by blast
    from dt(1) have "newCalls s2 s3 = [CDevice token d (Inr dev), CDeviceType token (devTypeId dev) (Inr dt)]"
      by (simp add: newCalls_def)
    with dt(2) show "\<exists>dev dt. CDevice token d (Inr dev) \<in> set (newCalls s2 s3) \<and>
      CDeviceType token (devTypeId dev) (Inr dt) \<in> set (newCalls s2 s3) \<and>
      (\<exists>v \<in> set (dtServices dt). svLocalId v = sv)" by auto
  qed
qed

text \<open>A run that makes an event call has passed every check before it forwards.\<close>

lemma eventPublish_cases:
  assumes run: "run_state (eventPublish cfg cn this c u t p q z) s = (x, s')"
    and ev: "ce \<in> set (newCalls s s')" "\<not> noEvent ce"
  obtains token ow d sv event s3 where
    "ParseTopic t = Inr (TopicParts ''event'' ow d sv)" "ForceTopicsWithOwner cfg \<longrightarrow> ow \<noteq> []"
    "\<not> MqttPublishAuthOnly cfg" "ownerAllowed cn token ow" "unmarshal decodeStringMap p = Some event"
    "extends s s3" "CToken u (Inr token) \<in> set (newCalls s s3)" "\<forall>c \<in> set (newCalls s s3). noEvent c"
    "CheckHub cfg \<longrightarrow> (\<exists>h. CGetHub c token (Inr h) \<in> set (newCalls s s3) \<and> d \<in> set (hubDeviceLocalIds h))"
    "\<not> CheckHub cfg \<longrightarrow> (\<exists>dev dt. CDevice token d (Inr dev) \<in> set (newCalls s s3) \<and>
       CDeviceType token (devTypeId dev) (Inr dt) \<in> set (newCalls s s3) \<and>
       (\<exists>v \<in> set (dtServices dt). svLocalId v = sv))"
    "run_state (forwardEvent cfg cn this u token d sv event q z) s3 = (x, s')"
proof -
  from run ev obtain ow d sv where top: "hasPrefix t ''event''" "ParseTopic t = Inr (TopicParts ''event'' ow d sv)"
    "ForceTopicsWithOwner cfg \<longrightarrow> ow \<noteq> []"
    by (auto simp: eventPublish_def split: if_splits sum.splits topicParts.splits)
  obtain tok s1 where tok: "run_state (callToken cn u) s = (tok, s1)" by (metis surj_pair)
  then have s1: "calls s1 = calls s @ [CToken u tok]" by (auto simp: run_perform split: prod.splits)
  from run ev top tok s1 obtain token where token: "tok = Inr token" "checkOwner cn token ow = None"
    by (auto simp: eventPublish_def run_state_bind [of "callToken cn u"] newCalls_def noEvent_def
        split: sum.splits option.splits)
  have top3: "\<not> (ForceTopicsWithOwner cfg \<and> ow = [])" using top(3) by blast
  obtain hr s2 where hub: "run_state (hubPart cfg cn token c d) s1 = (hr, s2)" by (metis surj_pair)
  obtain er s3 where chk: "run_state (servicePart cfg cn token d sv) s2 = (er, s3)" by (metis surj_pair)
  note quiet = eventChecks_quiet [OF s1 hub chk]
  have rest: "run_state (case hr of Some e \<Rightarrow> ret (Rejected, Some e) | None \<Rightarrow>
      (case unmarshal decodeStringMap p of
         None \<Rightarrow> ret (Rejected, Some (errorsNew (jsonErrorText cn ''EventMsg'' p)))
       | Some event \<Rightarrow> do {
           evErr \<leftarrow> servicePart cfg cn token d sv;
           case evErr of
             Some e \<Rightarrow> ret (eventCheckResult e)
           | None \<Rightarrow>
               (if \<not> MqttPublishAuthOnly cfg then forwardEvent cfg cn this u token d sv event q z
                else ret (Accepted, None))
         })) s2 = (x, s')"
    using run top top3 tok token hub
    by (simp add: eventPublish_def run_state_bind [of "callToken cn u"]
        run_state_bind [of "hubPart cfg cn token c d"] split del: if_split)
  from rest ev quiet(2) obtain event where event: "hr = None" "unmarshal decodeStringMap p = Some event"
    by (auto split: option.splits)
  from rest ev quiet(3) chk event have "er = None" "\<not> MqttPublishAuthOnly cfg"
    and fwd: "run_state (forwardEvent cfg cn this u token d sv event q z) s3 = (x, s')"
    by (auto simp: run_state_bind [of "servicePart cfg cn token d sv"] split: option.splits if_splits)
  note passed = eventChecks_passed [OF hub [unfolded event(1)] chk [unfolded \<open>er = None\<close>]]
  have "ownerAllowed cn token ow" using token(2) by (simp add: checkOwner_None)
  then show ?thesis
    by (rule that [OF top(2,3) \<open>\<not> MqttPublishAuthOnly cfg\<close> _ event(2) quiet(1) _ quiet(3) _ _ fwd])
      (use passed in \<open>auto simp: quiet(4) token(1)\<close>)
qed

text \<open>
  Every event the event handler hands to the platform is sent with the token of the publishing user,
  who is, when the topic names an owner, this owner or an administrator; the device is in the hub that is
  the client, or the service is one of the device's type, whichever check is on; and it is either the
  published event itself, or one of a metering device, decoded from a telegram in an event of a nimbus.
\<close>

lemma eventPublish_authorised:
  assumes "run_state (eventPublish cfg cn this c u t p q z) s = (x, s')"
    and "CDeviceEvent k d' sv' ev' q' y \<in> set (newCalls s s')"
  shows "q' = q \<and> \<not> MqttPublishAuthOnly cfg \<and> CToken u (Inr k) \<in> set (newCalls s s') \<and>
    (\<exists>ow d sv event. ParseTopic t = Inr (TopicParts ''event'' ow d sv) \<and>
      (ForceTopicsWithOwner cfg \<longrightarrow> ow \<noteq> []) \<and> ownerAllowed cn k ow \<and>
      unmarshal decodeStringMap p = Some event \<and>
      (CheckHub cfg \<longrightarrow> (\<exists>h. CGetHub c k (Inr h) \<in> set (newCalls s s') \<and> d \<in> set (hubDeviceLocalIds h))) \<and>
      (\<not> CheckHub cfg \<longrightarrow> (\<exists>dev dt. CDevice k d (Inr dev) \<in> set (newCalls s s') \<and>
         CDeviceType k (devTypeId dev) (Inr dt) \<in> set (newCalls s s') \<and>
         (\<exists>v \<in> set (dtServices dt). svLocalId v = sv))) \<and>
      (d' = d \<and> sv' = sv \<and> ev' = event \<or>
         (\<exists>dev. CDevice k d (Inr dev) \<in> set (newCalls s s') \<and> devTypeId dev = NimbusDeviceTypeId cfg) \<and>
         telegramEvent cfg cn k event q (set (newCalls s s')) (CDeviceEvent k d' sv' ev' q' y)))"
proof -
  let ?ce = "CDeviceEvent k d' sv' ev' q' y"
  have ne: "\<not> noEvent ?ce" by (simp add: noEvent_def)
  from assms ne show ?thesis
  proof (cases rule: eventPublish_cases)
    case (1 token ow d sv event s3)
    have fq: "extends s3 s'" using quiet_forwardEvent 1(11) by (rule quietD)
    then have via: "set (newCalls s s') = set (newCalls s s3) \<union> set (newCalls s3 s')"
      by (rule newCalls_via [OF 1(6)])
    then have "?ce \<in> set (newCalls s3 s')"
      using assms(2) 1(8) ne by auto
    from forwardEvent_events [OF 1(11) this] have own:
      "k = token \<and> q' = q \<and> (d' = d \<and> sv' = sv \<and> ev' = event \<or>
         (\<exists>dev. CDevice token d (Inr dev) \<in> set (newCalls s3 s') \<and> devTypeId dev = NimbusDeviceTypeId cfg) \<and>
         telegramEvent cfg cn token event q (set (newCalls s3 s')) ?ce)"
      by (auto simp: ownEvent_def dest: telegramEventD)
    have more: "telegramEvent cfg cn token event q (set (newCalls s3 s')) ?ce \<Longrightarrow>
        telegramEvent cfg cn token event q (set (newCalls s s')) ?ce"
      using telegramEvent_stable via unfolding stable_def by blast
    show ?thesis
      using own more 1(1-5,7,9,10) unfolding via by blast
  qed
qed

section \<open>An example\<close>

definition testPayload :: string where
  "testPayload = ''{}''"

lemma testPayload_decoded: "unmarshal decodeStringMap testPayload = Some Map.empty"
proof -
  have "parseJson testPayload = Some (JObj [])" by code_simp
  then show ?thesis by (simp add: unmarshal_def decodeStringMap_def)
qed

end
