(* ===== verification/MessageProperties.thy ===== *)
theory MessageProperties
  imports TestServices Emits
begin

text \<open>
  Properties of the handlers of responses, process topics, fog messages and error messages.
\<close>

section \<open>Responses\<close>

text \<open>
  C11. A response reaches the platform only for the owner the topic names or an administrator, only for
  a command whose request is stored under the correlation id of the response, with the traces of the
  request and of the response one after the other, and exactly one such call is the last the handler
  makes.
\<close>

theorem response_forwarded:
  assumes "run_state (responsePublish cfg cn c u t p q z) s = (x, s')"
    and "CCommandResponse rq pl q' err \<in> set (newCalls s s')"
  shows "\<exists>ow d sv token msg request pre. ParseTopic t = Inr (TopicParts ''response'' ow d sv) \<and>
    (ForceTopicsWithOwner cfg \<longrightarrow> ow \<noteq> []) \<and> \<not> MqttPublishAuthOnly cfg \<and>
    ownerAllowed cn token ow \<and> decodeResponse cn p = Inr msg \<and>
    newCalls s s' = CToken u (Inr token) # pre @
      [CCorrelationGet (reCorrelationId msg) (Inr request), CCommandResponse rq pl q' err] \<and>
    (pre = [] \<or> CheckHub cfg \<and> (\<exists>h. pre = [CGetHub c token (Inr h)] \<and> d \<in> set (hubDeviceLocalIds h))) \<and>
    rq = request\<lparr>pmTrace := pmTrace request @ reTrace msg\<rparr> \<and> pl = rePayload msg \<and> q' = q \<and>
    x = (case err of None \<Rightarrow> (Accepted, None) | Some e \<Rightarrow> (Error, Some e))"
  using assms
  by (auto simp: responsePublish_def checkHub_def io_simps newCalls_def checkOwner_None Let_def
      split: if_splits sum.splits topicParts.splits prod.splits option.splits)

definition testResponse :: "(result \<times> goerror option) \<times> unit sys" where
  "testResponse = run_state (responsePublish testConfig testConn ''hub'' ''u'' ''response/d/srv'' ''{}'' 1 10) s0"

lemma testResponse_run:
  "testResponse = ((Accepted, None), s0\<lparr>calls := [CToken ''u'' (Inr ''token''), CCorrelationGet ''corr'' (Inr testRequest),
     CCommandResponse testRequest Map.empty 1 None]\<rparr>)"
  by (simp add: testResponse_def responsePublish_def io_simps ParseTopic_def checkOwner_def test_simps Let_def)

theorem response_forwarded_witness:
  "\<exists>token (msg :: responseEnvelope) request pre. newCalls s0 (snd testResponse) = CToken ''u'' (Inr token) # pre @
     [CCorrelationGet (reCorrelationId msg) (Inr request), CCommandResponse testRequest Map.empty 1 None]"
proof -
  have a: "run_state (responsePublish testConfig testConn ''hub'' ''u'' ''response/d/srv'' ''{}'' 1 10) s0
      = (fst testResponse, snd testResponse)" by (simp add: testResponse_def)
  have b: "CCommandResponse testRequest Map.empty 1 None \<in> set (newCalls s0 (snd testResponse))"
    by (simp add: testResponse_run newCalls_def test_simps)
  from response_forwarded [OF a b] show ?thesis by blast
qed

section \<open>Process topics\<close>

text \<open>
  C28. Publishing to or subscribing to a topic below processes/ is accepted only for a user whose
  token is that of an administrator, or, for a topic whose second level is no wild card, when that
  level is the client id or a hub the platform shows to that token.
\<close>

theorem process_access:
  assumes "run_state (hPublish (processHandler cn) c u t p q z) s = ((Accepted, e), s') \<or>
    run_state (hSubscribe (processHandler cn) c u t) s = ((Accepted, e), s')"
  shows "hasPrefix t ''processes/'' \<and> e = None \<and>
    (\<exists>token pl. CToken u (Inr token) \<in> set (newCalls s s') \<and> jwtGetPayload cn token = Inr pl \<and>
      (''admin'' \<in> set (plRoles pl) \<or>
       (\<exists>hubId. parseTopic t = Inr hubId \<and> hubId \<notin> {''+'', ''#''} \<and>
         (hubId = c \<or> CExistsHub hubId token (True, None) \<in> set (newCalls s s')))))"
proof -
  have run: "run_state (checkTopicAccess cn c u t) s = ((Accepted, e), s')"
    using assms by (simp add: processHandler_def processPublish_def processSubscribe_def)
  then have "hasPrefix t ''processes/'' \<and> e = None"
    by (auto simp: checkTopicAccess_def io_simps split: if_splits sum.splits prod.splits option.splits)
  moreover from run obtain token pl where "CToken u (Inr token) \<in> set (newCalls s s')" "jwtGetPayload cn token = Inr pl"
    "''admin'' \<in> set (plRoles pl) \<or> (\<exists>hubId. parseTopic t = Inr hubId \<and> hubId \<notin> {''+'', ''#''} \<and>
       (hubId = c \<or> CExistsHub hubId token (True, None) \<in> set (newCalls s s')))"
    by (rule checkTopicAccess_accepted)
  ultimately show ?thesis by blast
qed

theorem process_access_witness:
  "\<exists>hubId. parseTopic ''processes/hub/cmd'' = Inr hubId \<and> hubId \<notin> {''+'', ''#''}"
proof -
  obtain x s' where run: "run_state (hSubscribe (processHandler testConn) ''c'' ''u'' ''processes/hub/cmd'') s0 = (x, s')"
    by (metis surj_pair)
  then have x: "x = (Accepted, None)"
    by (auto simp: processHandler_def processSubscribe_def checkTopicAccess_def io_simps isAdmin_def parseTopic_def test_simps)
  from process_access [of testConn "''c''" "''u''" "''processes/hub/cmd''" "[]" 0 0 s0 None s'] run x
  show ?thesis by (auto simp: test_simps)
qed

section \<open>Fog\<close>

lemma replaceFirst_absent: "\<not> containsStr s old \<Longrightarrow> replaceFirst s old new = s"
  by (induction s) auto

text \<open>
  C32. Whatever the fog handler produces is the published payload, unchanged, keyed by the operator id in
  it, with the published quality of service, as its only message and last call, and only from a topic that
  begins with the fog prefix followed by "analytics/", and with the upstream topic. The Kafka topic is the
  published topic without the first occurrence of the upstream topic and a slash: below the upstream topic
  it is the rest, and where this does not occur, as for the upstream topic itself, it is the whole topic.
  The answer is acceptance, or the error of the producer.
\<close>

theorem fog_forwarding:
  assumes "run_state (fogPublish cn upstream (Some f) c u t p q z) s = (x, s')"
    and "CProduce q' target m k e \<in> set (newCalls s s')"
  shows "q' = q \<and> m = p \<and> getKey cn p = Inr k \<and> hasPrefix t (fogTopicPrefix f @ ''analytics/'') \<and>
    hasPrefix t upstream \<and> target = replaceFirst t (upstream @ ''/'') [] \<and>
    (\<forall>rest. t = upstream @ ''/'' @ rest \<longrightarrow> target = rest) \<and>
    (\<not> containsStr t (upstream @ ''/'') \<longrightarrow> target = t) \<and>
    x = (case e of None \<Rightarrow> (Accepted, None) | Some err \<Rightarrow> (Error, Some err)) \<and>
    newCalls s s' = [CGetProducer q None, CProduce q target p k e]"
proof -
  note p = fogPublish_produces [OF assms]
  have "\<forall>rest. t = upstream @ ''/'' @ rest \<longrightarrow> target = rest" using p fogTarget [of upstream] by simp
  moreover have "\<not> containsStr t (upstream @ ''/'') \<longrightarrow> target = t" using p replaceFirst_absent by blast
  moreover have "x = (case e of None \<Rightarrow> (Accepted, None) | Some err \<Rightarrow> (Error, Some err)) \<and>
      newCalls s s' = [CGetProducer q None, CProduce q target p k e]"
    using assms p
    by (auto simp: fogPublish_def io_simps newCalls_def Let_def split: if_splits sum.splits prod.splits option.splits)
  ultimately show ?thesis using p by blast
qed

definition testFog :: fogHandlerConf where
  "testFog = \<lparr>fogTopicPrefix = ''fog/''\<rparr>"

theorem fog_forwarding_witness:
  "newCalls s0 (snd (run_state (fogPublish testConn ''fog/analytics/up'' (Some testFog) ''c'' ''u''
     ''fog/analytics/up/topic'' ''{}'' 1 10) s0)) =
   [CGetProducer 1 None, CProduce 1 ''topic'' ''{}'' [] None]"
proof -
  obtain x s' where run: "run_state (fogPublish testConn ''fog/analytics/up'' (Some testFog) ''c'' ''u''
     ''fog/analytics/up/topic'' ''{}'' 1 10) s0 = (x, s')" by (metis surj_pair)
  have key: "getKey testConn ''{}'' = Inr []"
  proof -
    have "parseJson ''{}'' = Some (JObj [])" by code_simp
    then show ?thesis by (simp add: getKey_def unmarshal_def decodeStruct_def)
  qed
  have "CProduce 1 ''topic'' ''{}'' [] None \<in> set (newCalls s0 s')"
    using run by (auto simp: fogPublish_def io_simps key test_simps testFog_def newCalls_def Let_def)
  from fog_forwarding [OF run this] show ?thesis by (simp add: run)
qed

end
