(* ===== verification/ErrorProperties.thy ===== *)
theory ErrorProperties
  imports TestServices Emits
begin

text \<open>
  Properties of the error message handler: what is counted, who is notified, and the lookup of a user
  by its id.
\<close>

section \<open>Counting\<close>

definition noMetric :: "call \<Rightarrow> bool" where
  "noMetric c \<longleftrightarrow> c \<noteq> CErrorMetric"

lemma noMetric_actions [emits_intros]:
  "emits noMetric (handleGeneralError cn u c p)" "emits noMetric (handleDeviceErr cn tok u d p)"
  "emits noMetric (handleCommandError cn u i p)"
  unfolding handleGeneralError_def handleDeviceErr_def handleCommandError_def
  by (intro emits_intros; simp add: noMetric_def)+

lemma noMetric_dispatch [emits_intros]: "emits noMetric (errorDispatch cfg cn c token ps p)"
  unfolding errorDispatch_def by (intro emits_intros)

text \<open>A run on an error topic: the count, the token, and then the dispatch.\<close>

lemma errorPublish_cases:
  assumes "run_state (errorPublish cfg cn c u t p q z) s = (x, s')"
  obtains (foreign) "splitOn CHR ''/'' t ! 0 \<noteq> ''error''" "s' = s" "x = (Unhandled, None)"
  | (noToken) e where "splitOn CHR ''/'' t ! 0 = ''error''" "newCalls s s' = [CErrorMetric, CToken u (Inl e)]"
      "x = (Unhandled, Some e)"
  | (token) token s2 where "splitOn CHR ''/'' t ! 0 = ''error''"
      "calls s2 = calls s @ [CErrorMetric, CToken u (Inr token)]"
      "run_state (errorDispatch cfg cn c token (splitOn CHR ''/'' t) p) s2 = (x, s')"
proof (cases "splitOn CHR ''/'' t ! 0 = ''error''")
  case False
  with assms foreign show ?thesis by (auto simp: errorPublish_def run_state_ret Let_def split: if_splits)
next
  case True
  then have pre: "hasPrefix t ''error''"
    using hasPrefix_splitOn_hd [of "CHR ''/''" "''error''" t] splitOn_nonempty [of "CHR ''/''" t]
    by (auto simp: hd_conv_nth)
  let ?inc = "perform (errorMetricInc cn) (\<lambda>_. CErrorMetric)"
  obtain y s1 where inc: "run_state ?inc s = (y, s1)" by (metis surj_pair)
  obtain tok s2 where tok: "run_state (callToken cn u) s1 = (tok, s2)" by (metis surj_pair)
  have s2: "calls s2 = calls s @ [CErrorMetric, CToken u tok]"
    using inc tok by (auto simp: run_perform split: prod.splits)
  have step: "run_state (case tok of Inl e \<Rightarrow> ret (Unhandled, Some e)
      | Inr token \<Rightarrow> errorDispatch cfg cn c token (splitOn CHR ''/'' t) p) s2 = (x, s')"
    using assms pre True inc tok
    by (simp add: errorPublish_def Let_def run_state_bind [of ?inc] run_state_bind [of "callToken cn u"])
  show ?thesis
  proof (cases tok)
    case (Inl e)
    with step s2 True show ?thesis by (intro noToken) (auto simp: newCalls_def)
  next
    case (Inr tk)
    with step s2 True show ?thesis by (intro token) auto
  qed
qed

text \<open>
  Every message on an error topic is counted once, before anything else is done with it; on any
  other topic the handler makes no call at all.
\<close>

lemma error_counted_once:
  assumes "run_state (errorPublish cfg cn c u t p q z) s = (x, s')"
  shows "if splitOn CHR ''/'' t ! 0 = ''error''
    then (\<exists>cs. newCalls s s' = CErrorMetric # cs \<and> CErrorMetric \<notin> set cs)
    else s' = s \<and> x = (Unhandled, None)"
  using assms
proof (cases rule: errorPublish_cases)
  case (token tk s2)
  from emits_extends [OF noMetric_dispatch token(3)] obtain cs where cs: "calls s' = calls s2 @ cs"
    by (auto simp: extends_def)
  have "CErrorMetric \<notin> set (newCalls s2 s')"
    using emitsD [OF noMetric_dispatch token(3), of CErrorMetric] by (auto simp: noMetric_def)
  with token cs show ?thesis by (simp add: newCalls_def)
qed auto

section \<open>Who is notified\<close>

text \<open>
  C29. The platform is told of a device or command error only as one of the user whose token the
  publisher has, with the published text; on a topic with an owner only when that user is the owner,
  and, when topics must name the owner, on no other; the device is the one the platform returned to
  that token, the command the one stored under the correlation id of the topic.
\<close>

theorem error_notifies_owner:
  assumes "run_state (errorPublish cfg cn c u t p q z) s = (x, s')"
  shows "(\<forall>uid dev m. CDeviceError uid dev m \<in> set (newCalls s s') \<longrightarrow> x = (Accepted, None) \<and> m = p \<and>
      (\<exists>token pt l. CToken u (Inr token) \<in> set (newCalls s s') \<and> jwtParse cn token = Inr pt \<and> uid = jwtUserId pt \<and>
        (splitOn CHR ''/'' t = [''error'', ''device'', uid, l] \<or>
         splitOn CHR ''/'' t = [''error'', ''device'', l] \<and> \<not> ForceTopicsWithOwner cfg) \<and>
        CDevice token l (Inr dev) \<in> set (newCalls s s'))) \<and>
    (\<forall>uid pm m. CCommandError uid pm m \<in> set (newCalls s s') \<longrightarrow> x = (Accepted, None) \<and> m = p \<and>
      (\<exists>token pt l. CToken u (Inr token) \<in> set (newCalls s s') \<and> jwtParse cn token = Inr pt \<and> uid = jwtUserId pt \<and>
        (splitOn CHR ''/'' t = [''error'', ''command'', uid, l] \<or>
         splitOn CHR ''/'' t = [''error'', ''command'', l] \<and> \<not> ForceTopicsWithOwner cfg) \<and>
        CCorrelationGet l (Inr pm) \<in> set (newCalls s s')))"
  using assms
proof (cases rule: errorPublish_cases)
  case (token tk s2)
  let ?n = "length (splitOn CHR ''/'' t)"
  note run = token(3) [unfolded errorDispatch_def handleDeviceErr_def handleCommandError_def handleGeneralError_def Let_def]
  show ?thesis
  proof (cases "?n = 3 \<or> ?n = 4")
    case True
    with token(1) consider k l where "splitOn CHR ''/'' t = [''error'', k, l]"
      | k ow l where "splitOn CHR ''/'' t = [''error'', k, ow, l]"
      by (auto simp: eval_nat_numeral length_Suc_conv)
    then show ?thesis
      using token(2) run
      by cases (auto simp: io_simps newCalls_def split: sum.splits if_splits prod.splits)
  next
    case False
    then show ?thesis
      using token(2) run by (auto simp: io_simps newCalls_def split: sum.splits if_splits prod.splits)
  qed
qed auto

definition testErrorRun :: "(result \<times> goerror option) \<times> unit sys" where
  "testErrorRun = run_state (errorPublish testConfig testConn ''c'' ''u'' ''error/device/user/d'' ''broken'' 1 10) s0"

lemma testErrorRun_calls: "newCalls s0 (snd testErrorRun) = [CErrorMetric, CToken ''u'' (Inr ''token''),
    CDevice ''token'' ''d'' (Inr (testDevice ''d'')), CDeviceError ''user'' (testDevice ''d'') ''broken'']"
  by (simp add: testErrorRun_def errorPublish_def errorDispatch_def handleDeviceErr_def Let_def io_simps test_simps
      newCalls_def)

theorem error_notifies_owner_witness:
  "fst testErrorRun = (Accepted, None) \<and> (\<exists>l. splitOn CHR ''/'' ''error/device/user/d'' = [''error'', ''device'', ''user'', l] \<or>
     splitOn CHR ''/'' ''error/device/user/d'' = [''error'', ''device'', l])"
proof -
  have run: "run_state (errorPublish testConfig testConn ''c'' ''u'' ''error/device/user/d'' ''broken'' 1 10) s0
      = (fst testErrorRun, snd testErrorRun)" by (simp add: testErrorRun_def)
  have "CDeviceError ''user'' (testDevice ''d'') ''broken'' \<in> set (newCalls s0 (snd testErrorRun))"
    by (simp add: testErrorRun_calls)
  with error_notifies_owner [OF run] show ?thesis by blast
qed

text \<open>
  A message on the topic error itself makes the handler look up a user id with the user id from
  the token in place of the user name, and the platform is told of the client's error under the answer
  to that.
\<close>

lemma general_error_lookup:
  assumes "run_state (errorPublish cfg cn c u ''error'' p q z) s = (x, s')"
    and "CToken u (Inr token) \<in> set (newCalls s s')" "jwtParse cn token = Inr pt"
  shows "x = (Accepted, None) \<and> (\<exists>y. newCalls s s' =
    [CErrorMetric, CToken u (Inr token), CUserId (jwtUserId pt) y] @
      (case y of Inl e \<Rightarrow> [] | Inr i \<Rightarrow> [CClientError i c p]))"
  using assms(1)
proof (cases rule: errorPublish_cases)
  case (token tk s2)
  have parts: "splitOn CHR ''/'' ''error'' = [''error'']" by simp
  have "tk = token" using token(2,3) assms(2) parts
    by (auto simp: errorDispatch_def handleGeneralError_def Let_def io_simps newCalls_def
        split: sum.splits if_splits prod.splits)
  with token(2,3) assms(3) parts show ?thesis
    by (intro conjI exI [of _ "fst (getUserId cn (jwtUserId pt) (world s2))"]) (auto simp: errorDispatch_def handleGeneralError_def Let_def io_simps newCalls_def
        split: sum.splits if_splits prod.splits)
qed (use assms(2) in auto)

lemma general_error_example:
  "\<exists>y. newCalls s0 (snd (run_state (errorPublish testConfig testConn ''c'' ''u'' ''error'' ''broken'' 1 10) s0)) =
     [CErrorMetric, CToken ''u'' (Inr ''token''), CUserId ''user'' y] @
       (case y of Inl e \<Rightarrow> [] | Inr i \<Rightarrow> [CClientError i ''c'' ''broken''])"
proof -
  obtain x s' where run: "run_state (errorPublish testConfig testConn ''c'' ''u'' ''error'' ''broken'' 1 10) s0 = (x, s')"
    by (metis surj_pair)
  then have "CToken ''u'' (Inr ''token'') \<in> set (newCalls s0 s')"
    by (auto simp: errorPublish_def errorDispatch_def handleGeneralError_def Let_def io_simps test_simps newCalls_def)
  from general_error_lookup [OF run this] show ?thesis by (simp add: run test_simps)
qed

end
