(* ===== verification/JsonDepth.thy ===== *)
theory JsonDepth
  imports GoJsonFacts
begin

text \<open>
  The nesting limit of \<open>encoding/json\<close>: a text is read with a limit exactly when it is read with a larger
  one and the value is nested no deeper.
\<close>

fun nestedIn :: "nat \<Rightarrow> json \<Rightarrow> bool" where
  "nestedIn d (JArr vs) \<longleftrightarrow> 0 < d \<and> (\<forall>v \<in> set vs. nestedIn (d - 1) v)"
| "nestedIn d (JObj ms) \<longleftrightarrow> 0 < d \<and> (\<forall>m \<in> set ms. nestedIn (d - 1) (snd m))"
| "nestedIn d v \<longleftrightarrow> True"

definition keepIf :: "('a \<Rightarrow> bool) \<Rightarrow> ('a \<times> 'b) option \<Rightarrow> ('a \<times> 'b) option" where
  "keepIf P x = (case x of None \<Rightarrow> None | Some (v, r) \<Rightarrow> if P v then Some (v, r) else None)"

lemma keepIf_simps [simp]:
  "keepIf P None = None" "keepIf P (Some (v, r)) = (if P v then Some (v, r) else None)"
  by (simp_all add: keepIf_def)

lemma litTok_keepIf: "P v \<Longrightarrow> keepIf P (litTok w v s) = litTok w v s"
  by (simp add: litTok_def)

lemma keepIf_map: "keepIf P (map_option (\<lambda>(v, r). (f v, r)) x) = map_option (\<lambda>(v, r). (f v, r)) (keepIf (\<lambda>v. P (f v)) x)"
  by (cases x) auto

lemma keepIf_const [simp]: "keepIf (\<lambda>v. True) x = x" "keepIf (\<lambda>v. False) x = None"
  by (cases x; auto)+

lemma p_limit:
  "d \<le> D \<Longrightarrow> pValue n d s = keepIf (nestedIn d) (pValue n D s)"
  "d \<le> D \<Longrightarrow> pElems n d s = keepIf (\<lambda>vs. \<forall>v \<in> set vs. nestedIn d v) (pElems n D s)"
  "d \<le> D \<Longrightarrow> pMembers n d s = keepIf (\<lambda>ms. \<forall>m \<in> set ms. nestedIn d (snd m)) (pMembers n D s)"
proof (induction n d s and n d s and n d s arbitrary: D and D and D rule: pValue_pElems_pMembers.induct)
  case (2 n d s)
  show ?case
  proof (cases "skipWs s")
    case (Cons c t)
    consider "c = CHR ''{''" | "c = CHR ''[''" | "c \<noteq> CHR ''{''" "c \<noteq> CHR ''[''" by blast
    then show ?thesis
    proof cases
      case 1
      with 2(1) [OF Cons 1, of _ _ "D - 1"] 2(3) show ?thesis
        by (cases "d = 0") (auto simp: Cons keepIf_map split: list.splits)
    next
      case 2
      with "2.IH"(2) [OF Cons _ 2, of _ _ "D - 1"] "2.prems" show ?thesis
        by (cases "d = 0") (auto simp: Cons keepIf_map split: list.splits)
    next
      case 3
      then show ?thesis by (simp add: Cons keepIf_map litTok_keepIf)
    qed
  qed simp
next
  case (4 n d s)
  have v: "pValue n d s = keepIf (nestedIn d) (pValue n D s)" by (rule 4(1) [OF 4(3)])
  show ?case
  proof (cases "pValue n d s")
    case None
    with v show ?thesis
      by (cases "pValue n D s") (auto simp: keepIf_map split: list.splits if_splits)
  next
    case (Some w)
    obtain x r where w: "w = (x, r)" by (metis surj_pair)
    with v Some have D: "pValue n D s = Some (x, r)" "nestedIn d x"
      by (cases "pValue n D s"; auto split: if_splits)+
    have "pElems n d u = keepIf (\<lambda>vs. \<forall>v \<in> set vs. nestedIn d v) (pElems n D u)" if "skipWs r = CHR '','' # u" for u
      by (rule 4(2) [OF Some w [symmetric] that refl 4(3)])
    with Some D w show ?thesis by (auto simp: keepIf_map split: list.splits)
  qed
next
  case (6 n d s)
  show ?case
  proof (cases "skipWs s")
    case (Cons c t)
    show ?thesis
    proof (cases "c = CHR 0x22 \<and> (\<exists>k r u. strBody t = Some (k, r) \<and> skipWs r = CHR '':'' # u)")
      case False
      then show ?thesis by (auto simp: Cons split: option.splits list.splits)
    next
      case True
      then obtain k r u where k: "c = CHR 0x22" "strBody t = Some (k, r)" "skipWs r = CHR '':'' # u" by blast
      have v: "pValue n d u = keepIf (nestedIn d) (pValue n D u)"
        using 6(1) [OF Cons _ k(2) refl k(3) _ 6(3)] k(1) by simp
      show ?thesis
      proof (cases "pValue n d u")
        case None
        with v show ?thesis
          by (cases "pValue n D u") (auto simp: Cons k keepIf_map split: list.splits if_splits)
      next
        case (Some w)
        obtain x r' where w: "w = (x, r')" by (metis surj_pair)
        with v Some have D: "pValue n D u = Some (x, r')" "nestedIn d x"
          by (cases "pValue n D u"; auto split: if_splits)+
        have "pMembers n d u' = keepIf (\<lambda>ms. \<forall>m \<in> set ms. nestedIn d (snd m)) (pMembers n D u')"
          if "skipWs r' = CHR '','' # u'" for u'
          using 6(2) [OF Cons _ k(2) refl k(3) _ Some w [symmetric] that refl 6(3)] k(1) by simp
        with Some D w show ?thesis by (auto simp: Cons k keepIf_map split: list.splits)
      qed
    qed
  qed simp
qed simp_all

lemma parseDepth_limit:
  assumes "d \<le> D"
  shows "parseDepth d s =
    (case parseDepth D s of None \<Rightarrow> None | Some v \<Rightarrow> if nestedIn d v then Some v else None)"
  unfolding parseDepth_def p_limit(1) [OF assms, of "fuelFor s"]
  by (cases "pValue (fuelFor s) D s") auto

text \<open>Objects within objects, each under the empty name.\<close>

fun nestedText :: "nat \<Rightarrow> string" where
  "nestedText 0 = ''{}''"
| "nestedText (Suc n) = CHR ''{'' # quote [] @ CHR '':'' # nestedText n @ ''}''"

fun nestedValue :: "nat \<Rightarrow> json" where
  "nestedValue 0 = JObj []"
| "nestedValue (Suc n) = JObj [([], nestedValue n)]"

lemma nestedText_parses: "parses (Suc n) (nestedText n @ r) (nestedValue n) r"
proof (induction n arbitrary: r)
  case 0
  then show ?case using parses_obj0 [of 0 r] by simp
next
  case (Suc n)
  have "skipWs (CHR ''}'' # r) = CHR ''}'' # r" by (simp add: skipWs_def isWs_def)
  from parsesM_last [OF Suc this, of "[]"]
  have "parsesM (Suc n) (quote [] @ CHR '':'' # nestedText n @ CHR ''}'' # r) [(normUtf8 [], nestedValue n)] r" .
  then have "parses (Suc (Suc n)) (CHR ''{'' # quote [] @ CHR '':'' # nestedText n @ CHR ''}'' # r)
      (JObj [(normUtf8 [], nestedValue n)]) r"
    unfolding quote_def append_Cons by (rule parses_obj)
  then show ?case by simp
qed

lemma nestedValue_depth: "nestedIn d (nestedValue n) \<longleftrightarrow> n < d"
proof (induction n arbitrary: d)
  case (Suc n)
  then show ?case by (cases d) auto
qed simp

lemma nestedText_length: "length (nestedText n) = 5 * n + 2"
  by (induction n) (simp_all add: quote_def)

lemma nestedText_parseDepth: "parseDepth (Suc n) (nestedText n) = Some (nestedValue n)"
  unfolding parseDepth_iff using nestedText_parses [of n "[]"] by (auto simp: skipWs_def)

lemma nestedText_utf8: "utf8Valid (nestedText n)"
proof (rule utf8Valid_ascii)
  show "\<forall>c \<in> set (nestedText n). byte c < 0x80" by (induction n) (simp_all add: quote_def)
qed

lemma nestedText_head: "hd (nestedText n) = CHR ''{''" "nestedText n \<noteq> []"
  by (cases n; simp)+

end
