(* ===== verification/HealthProperties.thy ===== *)
theory HealthProperties
  imports TestServices Emits JsonDepth
begin

text \<open>
  What a gateway's health report passes before it is produced, the message it is produced as, and the
  cache of hub checks over whole runs of the handler.
\<close>

section \<open>Access\<close>

text \<open>Any number of published messages, one after the other.\<close>

record healthRequest =
  hrClient :: string
  hrUser :: string
  hrTopic :: string
  hrPayload :: string
  hrQos :: int
  hrSize :: nat

fun healthRun :: "'w connector \<Rightarrow> int \<Rightarrow> healthHandler \<Rightarrow> healthRequest list \<Rightarrow> ('w, unit) io" where
  "healthRun cn sq hh [] = ret ()"
| "healthRun cn sq hh (r # rs) = do {
     _ \<leftarrow> healthPublish cn sq hh (hrClient r) (hrUser r) (hrTopic r) (hrPayload r) (hrQos r) (hrSize r);
     healthRun cn sq hh rs
   }"

lemma healthRun_backed: "run_state (healthRun cn sq hh rs) s = (x, s') \<Longrightarrow> cacheBacked s \<Longrightarrow> cacheBacked s'"
proof (induction rs arbitrary: s)
  case (Cons r rs)
  obtain y s1 where "run_state (healthPublish cn sq hh (hrClient r) (hrUser r) (hrTopic r) (hrPayload r) (hrQos r)
      (hrSize r)) s = (y, s1)" by (metis surj_pair)
  with Cons healthPublish_backed [OF this] show ?case by (simp add: run_state_bind)
qed (simp add: run_state_ret)

lemma healthForward_produces:
  assumes "run_state (healthForward cn q k c token p b) s = (x, s')"
    and "CProduce q' kt m c' e \<in> set (newCalls s s')"
  obtains jp now where "b" "jwtGetPayload cn token = Inr jp" "plUserId jp \<noteq> []" "q' = q" "kt = k" "c' = c"
    "encodeMessage c (plUserId jp) now p = Inr m" "newCalls s s' = [CNow now, CGetProducer q None, CProduce q k m c e]"
    "x = (case e of None \<Rightarrow> (Accepted, None) | Some err \<Rightarrow> (Error, Some err))"
  using assms
  by (auto simp: healthForward_def io_simps newCalls_def split: sum.splits if_splits option.splits prod.splits)

text \<open>
  C8. Starting with the empty cache of a new handler and after any reports whatever, a report is produced
  only if it is a JSON object of allowed size on the health topic, its client id is no dot segment, and a
  token of that very user was once shown this hub by the hub service; it is produced once, to the health
  Kafka topic and keyed by the client id, with the user id of the publisher's token.
\<close>

theorem health_report_checked:
  assumes "hubCache s = newHubCheckCache d m" "run_state (healthRun cn sq hh rs) s = ((), s1)"
    and "run_state (healthPublish cn sq hh c u t p q z) s1 = (x, s2)"
    and "CProduce q' kt msg k e \<in> set (newCalls s1 s2)"
  shows "t = hcTopic (hhConfig hh) \<and> int (length p) \<le> hcMaxPayloadSize (hhConfig hh) \<and> isJsonObject p \<and>
    c \<notin> {[], ''.'', ''..''} \<and>
    (\<exists>tok. CToken u (Inr tok) \<in> set (calls s2) \<and> CExistsHub c tok (True, None) \<in> set (calls s2)) \<and>
    (\<exists>token jp now pre. newCalls s1 s2 = CToken u (Inr token) # pre @
       [CNow now, CGetProducer sq None, CProduce sq (hcKafkaTopic (hhConfig hh)) msg c e] \<and>
       (\<forall>q t m k r. CProduce q t m k r \<notin> set pre) \<and>
       jwtGetPayload cn token = Inr jp \<and> plUserId jp \<noteq> [] \<and>
       encodeMessage c (plUserId jp) now p = Inr msg) \<and>
    x = (case e of None \<Rightarrow> (Accepted, None) | Some err \<Rightarrow> (Error, Some err))"
proof -
  have bs1: "cacheBacked s1" by (rule healthRun_backed [OF assms(2) cacheBacked_new [OF assms(1)]])
  from assms(3) show ?thesis
  proof (cases rule: healthPublish_run)
    case (checked token s3 a s4)
    have s3: "calls s3 = calls s1 @ [CToken u (Inr token)]" "hubCache s3 = hubCache s1"
      using callToken_run [OF checked(4)] by auto
    have b3: "cacheBacked s3" by (rule cacheBacked_quiet [OF quiet_perform checked(4) bs1])
    obtain cs where cs: "calls s4 = calls s3 @ cs" "\<forall>q t m k r. CProduce q t m k r \<notin> set cs"
      using isAccessibleHub_calls [OF checked(5)] by blast
    from checked(6) assms(4) s3 cs obtain b where b: "a = Inr b"
      "run_state (healthForward cn sq (hcKafkaTopic (hhConfig hh)) c token p b) s4 = (x, s2)"
      by (auto simp: newCalls_def)
    have ext: "extends s4 s2" by (rule quietD [OF quiet_healthForward b(2)])
    then obtain ds where ds: "calls s2 = calls s4 @ ds" by (auto simp: extends_def)
    have "CProduce q' kt msg k e \<in> set (newCalls s4 s2)"
      using assms(4) s3 cs ds by (auto simp: newCalls_def)
    from b(2) this show ?thesis
    proof (cases rule: healthForward_produces)
      case (1 jp now)
      have dsf: "ds = [CNow now, CGetProducer sq None, CProduce sq (hcKafkaTopic (hhConfig hh)) msg c e]"
        using 1(8) ds by (simp add: newCalls_def)
      from isAccessibleHub_backed(2) [OF checked(5) b3] s3 b 1(1)
      obtain d' where hub: "\<not> badHubId c" "backed (calls s4) (duration (hubCache s4)) u c d'" by auto
      have "\<exists>tok. CToken u (Inr tok) \<in> set (calls s2) \<and> CExistsHub c tok (True, None) \<in> set (calls s2)"
        using hub(2) ds by (auto simp: backed_def)
      moreover have "newCalls s1 s2 = CToken u (Inr token) # cs @ ds"
        using s3 cs ds by (simp add: newCalls_def)
      ultimately show ?thesis
        using checked(1-3) hub(1) cs(2) 1 unfolding dsf badHubId_def by blast
    qed
  next
    case early
    with assms(4) show ?thesis by simp
  next
    case (noToken er)
    from callToken_run [OF noToken(1)] have "newCalls s1 s2 = [CToken u (Inl er)]" by (simp add: newCalls_def)
    with assms(4) show ?thesis by simp
  qed
qed

definition testHealth :: healthHandler where
  "testHealth = \<lparr>hhConfig = \<lparr>hcTopic = ''health'', hcKafkaTopic = ''gateway-health'', hcMaxPayloadSize = 1000,
     hcDuration = 1000\<rparr>\<rparr>"

definition testMessage :: string where
  "testMessage = butlast (marshal (healthMessageJson \<lparr>hmHubId = ''hub'', hmUserId = ''user'',
     hmTime = formatTimeFixed 1000\<rparr>)) @ reportField @ ''{}'' @ ''}''"

lemma isJsonObject_empty: "isJsonObject ''{}''"
proof -
  have "parseJson ''{}'' = Some (JObj [])" "utf8Valid ''{}''" by code_simp+
  then show ?thesis by (simp add: isJsonObject_def jsonValid_def)
qed

definition testHealthRun :: "(result \<times> goerror option) \<times> unit sys" where
  "testHealthRun = run_state (healthPublish testConn 1 testHealth ''hub'' ''u'' ''health'' ''{}'' 1 10) s0"

lemma testHealthRun_calls:
  "newCalls s0 (snd testHealthRun) = [CToken ''u'' (Inr ''token''), CNow 1000, CExistsHub ''hub'' ''token'' (True, None),
     CNow 1000, CNow 1000, CGetProducer 1 None, CProduce 1 ''gateway-health'' testMessage ''hub'' None]"
  by (simp add: testHealthRun_def healthPublish_def testHealth_def isJsonObject_empty isAccessibleHub_def
      healthForward_def io_simps test_simps Let_def cacheHas_def newHubCheckCache_def encodeMessage_def testMessage_def
      newCalls_def)

theorem health_report_checked_witness:
  "isJsonObject ''{}'' \<and> fst testHealthRun = (Accepted, None) \<and>
   (\<exists>tok. CToken ''u'' (Inr tok) \<in> set (calls (snd testHealthRun)) \<and>
      CExistsHub ''hub'' tok (True, None) \<in> set (calls (snd testHealthRun)))"
proof -
  have cache: "hubCache s0 = newHubCheckCache 1000 10" by (simp add: test_simps)
  have none: "run_state (healthRun testConn 1 testHealth []) s0 = ((), s0)" by simp
  have run: "run_state (healthPublish testConn 1 testHealth ''hub'' ''u'' ''health'' ''{}'' 1 10) s0
      = (fst testHealthRun, snd testHealthRun)" by (simp add: testHealthRun_def)
  have "CProduce 1 ''gateway-health'' testMessage ''hub'' None \<in> set (newCalls s0 (snd testHealthRun))"
    by (simp add: testHealthRun_calls)
  from health_report_checked [OF cache none run this] show ?thesis by simp
qed

section \<open>The message\<close>

definition reportMembers :: "string \<Rightarrow> string \<Rightarrow> int \<Rightarrow> json \<Rightarrow> json" where
  "reportMembers h u t report = JObj [(''hub_id'', JStr (normUtf8 h)), (''user_id'', JStr (normUtf8 u)),
     (''time'', JStr (formatTimeFixed t)), (''report'', report)]"

text \<open>
  C34. The message of an accepted report is UTF-8 and has the payload in it byte for byte. A reader reads it
  as the object with hub, user, time and, as its report, the object the payload reads as, exactly when
  the payload is nested at least one level less deep than Go's JSON reader allows.
\<close>

theorem health_message_embeds_report:
  assumes "isJsonObject p" "encodeMessage h u t p = Inr msg"
  shows "\<exists>ms pre. parseJson p = Some (JObj ms) \<and> utf8Valid msg \<and> msg = pre @ p @ ''}'' \<and>
    parseJson msg = (if nestedIn (maxNestingDepth - 1) (JObj ms) then Some (reportMembers h u t (JObj ms)) else None)"
proof -
  obtain ms where ms: "parseJson p = Some (JObj ms)" "utf8Valid p" using assms(1) by (rule isJsonObject_obj)
  from encodeMessage_parses [OF ms(1) [unfolded parseJson_def], of h u t] assms(2)
  have "parseDepth (Suc maxNestingDepth) msg = Some (reportMembers h u t (JObj ms))"
    by (auto simp: reportMembers_def)
  moreover have "nestedIn maxNestingDepth (reportMembers h u t (JObj ms)) \<longleftrightarrow>
      nestedIn (maxNestingDepth - 1) (JObj ms)"
    by (simp add: reportMembers_def maxNestingDepth_def)
  ultimately have "parseJson msg = (if nestedIn (maxNestingDepth - 1) (JObj ms)
      then Some (reportMembers h u t (JObj ms)) else None)"
    using parseDepth_limit [of maxNestingDepth "Suc maxNestingDepth" msg] by (simp add: parseJson_def)
  moreover have "\<exists>pre. msg = pre @ p @ ''}''" using assms(2) by (auto simp: encodeMessage_def Let_def)
  ultimately show ?thesis using ms encodeMessage_utf8 [OF ms(2) assms(2)] by blast
qed

theorem health_message_embeds_report_witness:
  "utf8Valid testMessage \<and> parseJson testMessage = Some (reportMembers ''hub'' ''user'' 1000 (JObj []))"
proof -
  have "encodeMessage ''hub'' ''user'' 1000 ''{}'' = Inr testMessage" by (simp add: encodeMessage_def testMessage_def Let_def)
  moreover have "parseJson ''{}'' = Some (JObj [])" by code_simp
  ultimately show ?thesis
    using health_message_embeds_report [OF isJsonObject_empty, of "''hub''" "''user''" 1000 testMessage]
    by (auto simp: maxNestingDepth_def)
qed

text \<open>
  A report of the full depth passes the check, also of the size usual for reports, and is sent as a
  message that cannot be read.
\<close>

definition deepReport :: string where
  "deepReport = nestedText (maxNestingDepth - 1)"

lemma deep_report:
  "length deepReport < 65536" "isJsonObject deepReport"
  "encodeMessage h u t deepReport = Inr msg \<Longrightarrow> parseJson msg = None"
proof -
  let ?v = "nestedValue (maxNestingDepth - 1)"
  show "length deepReport < 65536" by (simp add: deepReport_def nestedText_length maxNestingDepth_def)
  have p: "parseJson deepReport = Some ?v"
    using nestedText_parseDepth [of "maxNestingDepth - 1"]
    by (simp add: deepReport_def parseJson_def maxNestingDepth_def)
  moreover have "take 1 (dropWhile (\<lambda>c. c \<in> {CHR '' '', CHR 0x09, CHR 0x0D, CHR 0x0A}) deepReport) = ''{''"
    using nestedText_head [of "maxNestingDepth - 1"] by (cases deepReport) (auto simp: deepReport_def)
  ultimately show obj: "isJsonObject deepReport"
    using nestedText_utf8 [of "maxNestingDepth - 1"] by (simp add: isJsonObject_def jsonValid_def deepReport_def)
  assume "encodeMessage h u t deepReport = Inr msg"
  with encodeMessage_parses [OF p [unfolded parseJson_def], of h u t]
  have "parseDepth (Suc maxNestingDepth) msg = Some (reportMembers h u t ?v)" by (auto simp: reportMembers_def)
  then show "parseJson msg = None"
    using parseDepth_limit [of maxNestingDepth "Suc maxNestingDepth" msg]
      nestedValue_depth [of "maxNestingDepth - 1" "maxNestingDepth - 1"]
    by (simp add: parseJson_def reportMembers_def)
qed

section \<open>The cache\<close>

lemma withinMax_adds:
  "withinMax c \<Longrightarrow> 1 \<le> maxEntries c \<Longrightarrow>
   withinMax (hcc.adds c h) \<and> maxEntries (hcc.adds c h) = maxEntries c"
  by (induction c h rule: hcc.adds.induct) (simp_all add: withinMax_add)

lemma NewFromConfig_cache:
  assumes "NewFromConfig cfg = Inr (h, c)"
  shows "c = newHubCheckCache (hcDuration (hhConfig h)) 100000"
  using assms by (auto simp: NewFromConfig_def newHealth_def maxHubCheckCacheEntries_def split: sum.splits if_splits)

text \<open>
  C16. The cache of a handler made from a configuration never holds more than its hundred thousand
  entries, whatever is added and when.
\<close>

theorem hub_cache_bounded:
  assumes "NewFromConfig cfg = Inr (h, c)"
  shows "cacheSize (hcc.adds c additions) \<le> 100000"
proof -
  have "withinMax c" "maxEntries c = 100000"
    using NewFromConfig_cache [OF assms] withinMax_new [of 100000] by (auto simp: newHubCheckCache_def)
  with withinMax_adds [of c additions] show ?thesis by (simp add: withinMax_def)
qed

theorem hub_cache_bounded_witness:
  "cacheSize (hcc.adds (newHubCheckCache (10 * 10 ^ 9) 100000) [((''u'', ''hub''), 5)]) \<le> 100000"
  by (rule hub_cache_bounded [OF testConfig_health])

text \<open>
  C15. A hub check answered by the cache of a new handler is one that was added, less than the configured
  duration ago; and the last one added is answered until then.
\<close>

theorem hub_cache_sound:
  assumes "NewFromConfig cfg = Inr (h, c)"
  shows "(cacheHas (hcc.adds c additions) k t \<longrightarrow>
      (\<exists>u. (k, u) \<in> set additions \<and> t < u + hcDuration (hhConfig h))) \<and>
    (0 < hcDuration (hhConfig h) \<and> t < u + hcDuration (hhConfig h) \<longrightarrow>
      cacheHas (cacheAdd (hcc.adds c additions) k u) k t)"
proof -
  have d: "duration c = hcDuration (hhConfig h)" and e: "\<forall>k t. \<not> cacheHas c k t"
    using NewFromConfig_cache [OF assms] by (simp_all add: newHubCheckCache_def cacheHas_def)
  show ?thesis
    using hcc.has_fresh [OF e, of additions k t] hcc.has_new [of "hcc.adds c additions" t u k]
      hcc.ttl_adds [of c additions] d by auto
qed

theorem hub_cache_sound_witness:
  "cacheHas (cacheAdd (hcc.adds (newHubCheckCache (10 * 10 ^ 9) 100000) []) (''u'', ''hub'') 5) (''u'', ''hub'') 6 \<and>
   \<not> cacheHas (hcc.adds (newHubCheckCache (10 * 10 ^ 9) 100000) [((''u'', ''hub''), 5)]) (''u'', ''hub'') (11 * 10 ^ 9)"
  using hub_cache_sound [OF testConfig_health, of "[]" "(''u'', ''hub'')" 6 5]
    hub_cache_sound [OF testConfig_health, of "[((''u'', ''hub''), 5)]" "(''u'', ''hub'')" "11 * 10 ^ 9" 0]
  by simp

end
