(* ===== verification/ReplyProperties.thy ===== *)
theory ReplyProperties
  imports TestServices JsonNumbers
begin

text \<open>
  What the publish and subscribe webhooks answer. A handler list is only used through the contract
  \<open>topic_handler\<close>, which every handler of the connector keeps (\<open>handlerOf_contract\<close>).
\<close>

section \<open>Operations that answer with one JSON document\<close>

definition answers :: "(json \<Rightarrow> bool) \<Rightarrow> ('w, 'a) io \<Rightarrow> bool" where
  "answers P m \<longleftrightarrow> (\<forall>s a s'. run_state m s = (a, s') \<longrightarrow>
     (\<exists>doc v. written s' = written s @ doc \<and> parseJson doc = Some v \<and> P v))"

named_theorems answers_intros \<open>operations that answer with one JSON document\<close>

lemma answersD:
  assumes "answers P m" "run_state m s = (a, s')"
  obtains doc v where "written s' = written s @ doc" "parseJson doc = Some v" "P v"
  using assms unfolding answers_def by blast

lemma answers_sendJson: "jsonOk maxNestingDepth v \<Longrightarrow> P (normJson v) \<Longrightarrow> answers P (sendJson v)"
  using parse_encodeLine [of maxNestingDepth v]
  by (auto simp: answers_def sendJson_def io_simps parseJson_def)

definition okJson :: json where
  "okJson = JObj [(''result'', JStr ''ok'')]"

lemma parse_okText: "parseJson okText = Some okJson"
  unfolding okText_def okJson_def by code_simp

lemma answers_sendOk [answers_intros]: "P okJson \<Longrightarrow> answers P sendOk"
  by (auto simp: answers_def sendOk_def io_simps parse_okText)

lemma answers_bind:
  assumes "logs m" "\<And>a. answers P (f a)"
  shows "answers P (State_Monad.bind m f)"
  unfolding answers_def
proof (intro allI impI)
  fix s b s''
  assume "run_state (State_Monad.bind m f) s = (b, s'')"
  then obtain a s' where r: "run_state m s = (a, s')" "run_state (f a) s' = (b, s'')"
    by (auto simp: io_simps split: prod.splits)
  from assms(1) r(1) have "written s' = written s" by (rule logsD)
  with answersD [OF assms(2) r(2)] show "\<exists>doc v. written s'' = written s @ doc \<and> parseJson doc = Some v \<and> P v"
    by metis
qed

lemma answers_then:
  assumes "answers P m" "\<And>a. logs (f a)"
  shows "answers P (State_Monad.bind m f)"
  unfolding answers_def
proof (intro allI impI)
  fix s b s''
  assume "run_state (State_Monad.bind m f) s = (b, s'')"
  then obtain a s' where r: "run_state m s = (a, s')" "run_state (f a) s' = (b, s'')"
    by (auto simp: io_simps split: prod.splits)
  from assms(2) r(2) have "written s'' = written s'" by (rule logsD)
  with answersD [OF assms(1) r(1)] show "\<exists>doc v. written s'' = written s @ doc \<and> parseJson doc = Some v \<and> P v"
    by metis
qed

lemma answers_cases [answers_intros]:
  "(b \<Longrightarrow> answers P m) \<Longrightarrow> (\<not> b \<Longrightarrow> answers P n) \<Longrightarrow> answers P (if b then m else n)"
  "(\<And>e. answers P (f e)) \<Longrightarrow> (\<And>a. answers P (g a)) \<Longrightarrow> answers P (case x of Inl e \<Rightarrow> f e | Inr a \<Rightarrow> g a)"
  "answers P m \<Longrightarrow> (\<And>a. answers P (k a)) \<Longrightarrow> answers P (case y of None \<Rightarrow> m | Some a \<Rightarrow> k a)"
  "(\<And>a b. answers P (h a b)) \<Longrightarrow> answers P (case z of (a, b) \<Rightarrow> h a b)"
  "answers P (l v) \<Longrightarrow> answers P (Let v l)"
  by (simp_all split: sum.splits option.splits prod.splits)

section \<open>The three kinds of answer\<close>

definition isError :: "json \<Rightarrow> bool" where
  "isError v \<longleftrightarrow> (\<exists>m. v = JObj [(''result'', JObj [(''error'', JStr m)])])"

definition isRedirect :: "string \<Rightarrow> json \<Rightarrow> bool" where
  "isRedirect topic v \<longleftrightarrow> (\<exists>msg. v = JObj [(''result'', JStr ''ok''),
     (''modifiers'', JObj [(''topic'', JStr (normUtf8 (''ignored/'' @ topic))), (''payload'', JStr (b64Encode msg)),
       (''retain'', JBool False), (''qos'', JNum ''0'')])])"

lemma normUtf8_replies:
  "normUtf8 ''result'' = ''result''" "normUtf8 ''error'' = ''error''" "normUtf8 ''ok'' = ''ok''"
  "normUtf8 ''modifiers'' = ''modifiers''" "normUtf8 ''topic'' = ''topic''" "normUtf8 ''payload'' = ''payload''"
  "normUtf8 ''retain'' = ''retain''" "normUtf8 ''qos'' = ''qos''" "normUtf8 ''topics'' = ''topics''"
  by (rule normUtf8_valid, rule utf8Valid_ascii, simp)+

lemma answers_sendError: "(\<And>v. isError v \<Longrightarrow> P v) \<Longrightarrow> answers P (sendError m)"
  unfolding sendError_def
  by (rule answers_sendJson) (simp_all add: errorResponse_def maxNestingDepth_def normUtf8_replies isError_def)

lemma answers_errorTextOr: "(\<And>v. isError v \<Longrightarrow> P v) \<Longrightarrow> (\<And>t. answers P (f t)) \<Longrightarrow> answers P (errorTextOr e f)"
  unfolding errorTextOr_def by (intro answers_cases answers_sendError)

lemma normUtf8_b64: "normUtf8 (b64Encode m) = b64Encode m"
  using b64Encode_ascii by (intro normUtf8_valid utf8Valid_ascii) blast

lemma numOk_zero: "numOk ''0''"
  by code_simp

lemma isRedirect_response:
  "isRedirect topic (normJson (redirectResponse (''ignored/'' @ topic) (b64Encode m)))"
  unfolding isRedirect_def redirectResponse_def
  by (rule exI [of _ m]) (simp add: normUtf8_replies normUtf8_b64 del: append_Cons)

lemma answers_redirect: "(\<And>v. isRedirect topic v \<Longrightarrow> P v) \<Longrightarrow> answers P (sendIgnoreRedirect topic m)"
  unfolding sendIgnoreRedirect_def
  by (rule answers_sendJson)
    (simp add: redirectResponse_def maxNestingDepth_def numOk_zero, simp add: isRedirect_response del: append_Cons)

lemma answers_ignore:
  "(\<And>v. isRedirect topic v \<Longrightarrow> P v) \<Longrightarrow> answers P (sendIgnoreRedirectAndNotification cn lc user c topic m)"
  unfolding sendIgnoreRedirectAndNotification_def Let_def
  by (intro answers_bind answers_then answers_redirect logs_intros)

section \<open>publish\<close>

text \<open>
  The specification of the dispatch: the handlers are asked in their order until one decides, and the
  answer depends on that decision alone.
\<close>

fun firstDecision ::
  "publishMsg \<Rightarrow> string \<Rightarrow> nat \<Rightarrow> 'w handler list \<Rightarrow> ('w, (result \<times> goerror option) option) io" where
  "firstDecision msg payload sz [] = ret None"
| "firstDecision msg payload sz (h # hs) = do {
     d \<leftarrow> hPublish h (pbClientId msg) (pbUsername msg) (pbTopic msg) payload (pbQos msg) sz;
     if fst d \<in> {Accepted, Rejected, Error} then ret (Some d) else firstDecision msg payload sz hs
   }"

definition publishAnswer ::
  "'w connector \<Rightarrow> libConfig \<Rightarrow> publishMsg \<Rightarrow> nat \<Rightarrow> (result \<times> goerror option) option \<Rightarrow> ('w, unit) io" where
  "publishAnswer cn lc msg sz decision =
     (let ignore = sendIgnoreRedirectAndNotification cn lc (pbUsername msg) (pbClientId msg) (pbTopic msg) in
      case decision of
        None \<Rightarrow> ignore noTopicHandler
      | Some (r, err) \<Rightarrow>
          (if r = Accepted then do { _ \<leftarrow> sendOk; callStat cn (SourceReceiveHandled sz (pbUsername msg)) }
           else errorTextOr err (if r = Rejected then ignore else sendError)))"

text \<open>
  C5. The publish webhook answers as the first handler of its list that decides: a message is accepted,
  refused with a redirect and a notification, or answered with an error, as that handler says, handlers
  after it are not asked, and without a decision the message is refused.
\<close>

theorem publish_first_decision:
  "run_state (publishLoop cn lc msg payload sz handlers) s =
   run_state (do { d \<leftarrow> firstDecision msg payload sz handlers; publishAnswer cn lc msg sz d }) s"
proof (induction handlers arbitrary: s)
  case (Cons h hs)
  obtain r err s1 where h: "run_state (hPublish h (pbClientId msg) (pbUsername msg) (pbTopic msg) payload (pbQos msg) sz) s
      = ((r, err), s1)" by (metis surj_pair)
  then show ?case using Cons by (cases r) (simp_all add: run_state_bind publishAnswer_def Let_def)
qed (simp add: run_state_bind publishAnswer_def)

lemma logs_handler: "topic_handler h \<Longrightarrow> logs (hPublish h c u t p q z)" "topic_handler h \<Longrightarrow> logs (hSubscribe h c u t)"
  unfolding logs_def using topic_handler.publish_frame topic_handler.subscribe_frame by blast+

lemma logs_stat: "logs (callStat cn x)"
  by (rule quiet_logs [OF quiet_perform])

definition publishReply :: "string \<Rightarrow> json \<Rightarrow> bool" where
  "publishReply topic v \<longleftrightarrow> v = okJson \<or> isError v \<or> isRedirect topic v"

lemma publishReplyI: "publishReply t okJson" "isError v \<Longrightarrow> publishReply t v" "isRedirect t v \<Longrightarrow> publishReply t v"
  by (simp_all add: publishReply_def)

lemma answers_publishLoop:
  assumes "\<forall>h \<in> set handlers. topic_handler h"
  shows "answers (publishReply (pbTopic msg)) (publishLoop cn lc msg payload sz handlers)"
  using assms
proof (induction handlers)
  case Nil
  show ?case by (simp add: answers_ignore publishReplyI)
next
  case (Cons h hs)
  then have ih: "answers (publishReply (pbTopic msg)) (publishLoop cn lc msg payload sz hs)" by simp
  have "answers (publishReply (pbTopic msg)) (case r of
       Accepted \<Rightarrow> do { _ \<leftarrow> sendOk; callStat cn (SourceReceiveHandled sz (pbUsername msg)) }
     | Rejected \<Rightarrow>
         errorTextOr err (\<lambda>t. sendIgnoreRedirectAndNotification cn lc (pbUsername msg) (pbClientId msg) (pbTopic msg) t)
     | Error \<Rightarrow> errorTextOr err sendError
     | Unhandled \<Rightarrow> publishLoop cn lc msg payload sz hs
     | UnknownResult _ \<Rightarrow> publishLoop cn lc msg payload sz hs)" for r err
    by (cases r) (auto simp: publishReply_def intro!: ih answers_then answers_sendOk logs_stat answers_errorTextOr answers_ignore
        answers_sendError)
  then show ?case using Cons.prems by (auto intro!: answers_bind logs_handler answers_cases(4))
qed

text \<open>
  C7. Whatever the broker posts to the publish webhook, and whatever the services do, the answer is one
  JSON document: the acceptance, an error, or a redirect to the ignored topic.
\<close>

theorem publish_one_reply:
  assumes "\<forall>h \<in> set handlers. topic_handler h" "run_state (publish cfg cn lc handlers rq) s = (x, s')"
  shows "\<exists>doc v t. written s' = written s @ doc \<and> parseJson doc = Some v \<and>
    (v = okJson \<or> isError v \<or> isRedirect t v)"
proof -
  let ?P = "\<lambda>v. \<exists>t. publishReply t v"
  have "answers ?P (publish cfg cn lc handlers rq)"
  proof (cases "unmarshal decodePublish (rqBody rq)")
    case (Some msg)
    have "answers ?P (publishLoop cn lc msg payload sz handlers)" for payload sz
      using answers_publishLoop [OF assms(1), of msg cn lc payload sz] unfolding answers_def by metis
    then show ?thesis unfolding publish_def Some option.case
      by (intro answers_cases answers_bind logs_stat answers_sendOk answers_sendError)
        (auto simp: publishReply_def)
  next
    case None
    show ?thesis unfolding publish_def None option.case
      by (intro answers_cases answers_sendError) (auto simp: publishReply_def)
  qed
  from answersD [OF this assms(2)] show ?thesis unfolding publishReply_def by metis
qed

section \<open>subscribe\<close>

text \<open>The specification: the decisions for the topics, in order, up to the first error.\<close>

fun topicDecisions ::
  "'w handler list \<Rightarrow> subscribeMsg \<Rightarrow> webhookTopic list \<Rightarrow> ('w, goerror option + bool list) io" where
  "topicDecisions handlers msg [] = ret (Inr [])"
| "topicDecisions handlers msg (t # ts) = do {
     (r, err) \<leftarrow> HandleTopicSubscribe (sbClientId msg) (sbUsername msg) (prepareTopic (wtTopic t)) handlers;
     if r = Error then ret (Inl err)
     else do {
       ds \<leftarrow> topicDecisions handlers msg ts;
       ret (case ds of Inl e \<Rightarrow> Inl e | Inr bs \<Rightarrow> Inr ((r = Accepted) # bs))
     }
   }"

definition chosen :: "'a list \<Rightarrow> bool list \<Rightarrow> 'a list" where
  "chosen ts bs = map fst (filter snd (zip ts bs))"

lemma chosen_simps [simp]: "chosen [] bs = []" "chosen (t # ts) (b # bs) = (if b then [t] else []) @ chosen ts bs"
  by (simp_all add: chosen_def)

lemma subscribeLoop_decisions:
  "run_state (subscribeLoop handlers msg ok rej ts) s = run_state (do {
     ds \<leftarrow> topicDecisions handlers msg ts;
     case ds of
       Inl err \<Rightarrow> errorTextOr err sendError
     | Inr bs \<Rightarrow> sendSubscriptionResult (ok @ chosen ts bs) (rej @ chosen ts (map Not bs))
   }) s"
proof (induction ts arbitrary: ok rej s)
  case (Cons t ts)
  obtain r err s1 where h: "run_state (HandleTopicSubscribe (sbClientId msg) (sbUsername msg)
      (prepareTopic (wtTopic t)) handlers) s = ((r, err), s1)" by (metis surj_pair)
  obtain ds s2 where d: "run_state (topicDecisions handlers msg ts) s1 = (ds, s2)" by (metis surj_pair)
  from h d show ?case
    by (cases r; cases ds) (simp_all add: run_state_bind Cons)
qed (simp add: run_state_bind)

lemma topicDecisions_length: "run_state (topicDecisions handlers msg ts) s = (Inr bs, s') \<Longrightarrow> length bs = length ts"
  by (induction ts arbitrary: s bs) (auto simp: run_state_bind split: prod.splits if_splits sum.splits)

text \<open>
  C14. The subscribe webhook asks the handlers for each topic in turn, without the group of a shared
  subscription. Unless one fails, its reply lists the accepted topics as they were asked for, followed
  by the others with quality of service 128; no topic is missing.
\<close>

theorem subscribe_reply:
  assumes "decodeFirst decodeSubscribe (rqBody rq) = Some msg" "sbUsername msg \<noteq> AuthClientId cfg"
    and "run_state (topicDecisions handlers msg (sbTopics msg)) s = (Inr bs, s1)"
    and "\<forall>h \<in> set handlers. topic_handler h"
  shows "\<exists>doc. run_state (subscribe cfg cn handlers rq) s = ((), s1\<lparr>written := written s @ doc\<rparr>) \<and>
    parseJson doc = Some (normJson (subscriptionResponse (chosen (sbTopics msg) bs @
      map (\<lambda>t. \<lparr>wtTopic = wtTopic t, wtQos = 128\<rparr>) (chosen (sbTopics msg) (map Not bs))))) \<and>
    mset (chosen (sbTopics msg) bs) + mset (chosen (sbTopics msg) (map Not bs)) = mset (sbTopics msg)"
proof -
  have logs: "logs (HandleTopicSubscribe c u t handlers)" for c u t
    unfolding logs_def using HandleTopicSubscribe_frame [OF assms(4)] by blast
  have w: "logs (topicDecisions handlers msg ts)" for ts
    by (induction ts) (auto intro!: logs_intros logs)
  let ?v = "subscriptionResponse (chosen (sbTopics msg) bs @
      map (\<lambda>t. \<lparr>wtTopic = wtTopic t, wtQos = 128\<rparr>) (chosen (sbTopics msg) (map Not bs)))"
  have "jsonOk maxNestingDepth ?v"
    by (auto simp: subscriptionResponse_def topicJson_def maxNestingDepth_def numOk_showInt)
  then have doc: "parseJson (encodeLine ?v) = Some (normJson ?v)"
    unfolding parseJson_def by (rule parse_encodeLine)
  have "mset (chosen ts cs) + mset (chosen ts (map Not cs)) = mset ts" if "length cs = length ts"
    for ts :: "webhookTopic list" and cs
    using that by (induction cs ts rule: list_induct2) simp_all
  moreover have "run_state (subscribe cfg cn handlers rq) s = ((), s1\<lparr>written := written s @ encodeLine ?v\<rparr>)"
    using assms(1-3) logsD(2) [OF w assms(3)]
    by (simp add: subscribe_def subscribeLoop_decisions run_state_bind sendSubscriptionResult_def
        subscriptionTopics_def sendJson_def run_writeBody)
  ultimately show ?thesis using doc topicDecisions_length [OF assms(3)] by blast
qed

section \<open>Example requests\<close>

lemma normUtf8_ascii: "list_all (\<lambda>c. byte c < 0x80) s \<Longrightarrow> normUtf8 s = s"
  by (intro normUtf8_valid utf8Valid_ascii) (auto simp: list_all_iff)

lemma decodeFirst_marshal:
  "jsonOk maxNestingDepth v \<Longrightarrow> f (normJson v) = Some x \<Longrightarrow> decodeFirst f (marshal v) = Some x"
  using parse_marshal [of maxNestingDepth v]
  by (intro unmarshal_decodeFirst) (simp add: unmarshal_def parseJson_def)

definition testSubscribe :: json where
  "testSubscribe = JObj [(''username'', JStr ''u''), (''client_id'', JStr ''hub''), (''topics'', JArr
     [JObj [(''topic'', JStr ''foreign''), (''qos'', JNum ''1'')],
      JObj [(''topic'', JStr ''command/d/srv''), (''qos'', JNum ''1'')]])]"

definition testSubscribeMsg :: subscribeMsg where
  "testSubscribeMsg = \<lparr>sbUsername = ''u'', sbClientId = ''hub'', sbTopics =
     [\<lparr>wtTopic = ''foreign'', wtQos = 1\<rparr>, \<lparr>wtTopic = ''command/d/srv'', wtQos = 1\<rparr>]\<rparr>"

lemma testSubscribe_decoded: "decodeFirst decodeSubscribe (marshal testSubscribe) = Some testSubscribeMsg"
proof (rule decodeFirst_marshal)
  have "numOk ''1''" by code_simp
  then show "jsonOk maxNestingDepth testSubscribe" by (simp add: testSubscribe_def maxNestingDepth_def)
  have "normJson testSubscribe = testSubscribe" by (simp add: testSubscribe_def normUtf8_ascii)
  moreover have "decodeSubscribe testSubscribe = Some testSubscribeMsg"
    unfolding testSubscribe_def testSubscribeMsg_def by code_simp
  ultimately show "decodeSubscribe (normJson testSubscribe) = Some testSubscribeMsg" by simp
qed

definition testRequestOf :: "json \<Rightarrow> webhookRequest" where
  "testRequestOf v = \<lparr>rqBody = marshal v, rqReadErr = None\<rparr>"

definition testHandlers :: "unit handler list" where
  "testHandlers = map (handlerOf testConfig testConn ''upstream'' 1) [ResponseK, CommandK, ExportK]"

lemma testHandlers_ok: "\<forall>h \<in> set testHandlers. topic_handler h"
  by (simp add: testHandlers_def handlerOf_contract)

theorem subscribe_reply_witness:
  "\<exists>doc s1. written (snd (run_state (subscribe testConfig testConn testHandlers (testRequestOf testSubscribe)) s0)) = doc \<and>
     parseJson doc = Some (normJson (subscriptionResponse
       [\<lparr>wtTopic = ''command/d/srv'', wtQos = 1\<rparr>, \<lparr>wtTopic = ''foreign'', wtQos = 128\<rparr>]))"
proof -
  obtain ds s1 where run: "run_state (topicDecisions testHandlers testSubscribeMsg (sbTopics testSubscribeMsg)) s0 = (ds, s1)"
    by (metis surj_pair)
  have "ds = Inr [False, True]"
    using run
    by (auto simp: testSubscribeMsg_def testHandlers_def handlerOf_def prepareTopic_def io_simps
        commandH.subscribe_foreign responseHandler_def responseSubscribe_def exportH.subscribe_foreign
        commandHandler_def commandSubscribe_def exportHandler_def exportSubscribe_def ParseTopic_def checkOwner_def
        test_simps)
  with run subscribe_reply [of "testRequestOf testSubscribe" testSubscribeMsg testConfig testHandlers s0
      "[False, True]" s1 testConn] testHandlers_ok testSubscribe_decoded
  show ?thesis by (auto simp: testRequestOf_def testSubscribeMsg_def test_simps)
qed

theorem publish_one_reply_witness:
  "\<exists>v t. parseJson (written (snd (run_state (publish testConfig testConn (libConfigOf testConfig 1) testHandlers
       (testRequestOf testSubscribe)) s0))) = Some v \<and> (v = okJson \<or> isError v \<or> isRedirect t v)"
proof -
  obtain x s' where run: "run_state (publish testConfig testConn (libConfigOf testConfig 1) testHandlers
       (testRequestOf testSubscribe)) s0 = (x, s')" by (metis surj_pair)
  from publish_one_reply [OF testHandlers_ok run] show ?thesis by (simp add: run test_simps)
qed

end
