(* ===== verification/SecretProperties.thy ===== *)
theory SecretProperties
  imports TestServices
begin

text \<open>
  Removing secrets from the texts that the webhooks send out. The entries of the map are replaced one
  after the other, in an order the runtime chooses; a replaced secret could come back when a replacement
  text meets its surroundings, which \<open>overlaps\<close> rules out.
\<close>

section \<open>Replacing without overlap\<close>

definition overlaps :: "string \<Rightarrow> string \<Rightarrow> bool" where
  "overlaps s r \<longleftrightarrow> containsStr s r \<or> containsStr r s \<or>
     list_ex (\<lambda>k. hasPrefix r (drop k s)) [0..<length s] \<or>
     list_ex (\<lambda>k. hasSuffix r (take k s)) [1..<length s]"

lemma overlapsI:
  "s = a @ b \<Longrightarrow> b \<noteq> [] \<Longrightarrow> r = b @ c \<Longrightarrow> overlaps s r"
  "s = a @ b \<Longrightarrow> a \<noteq> [] \<Longrightarrow> b \<noteq> [] \<Longrightarrow> r = c @ a \<Longrightarrow> overlaps s r"
proof -
  show "s = a @ b \<Longrightarrow> b \<noteq> [] \<Longrightarrow> r = b @ c \<Longrightarrow> overlaps s r"
    unfolding overlaps_def list_ex_iff hasPrefix_iff by (intro disjI2 disjI1 bexI [of _ "length a"]) auto
  show "s = a @ b \<Longrightarrow> a \<noteq> [] \<Longrightarrow> b \<noteq> [] \<Longrightarrow> r = c @ a \<Longrightarrow> overlaps s r"
    unfolding overlaps_def list_ex_iff hasSuffix_iff
    by (intro disjI2 bexI [of _ "length a"]) (auto simp: Suc_le_eq)
qed

lemma append_split:
  assumes "a @ b = c @ d"
  obtains (left) w where "a = c @ w" "d = w @ b" | (right) w where "c = a @ w" "b = w @ d"
  using assms by (auto simp: append_eq_append_conv2)

lemma contains_part: "containsStr x s \<Longrightarrow> containsStr (u @ x @ v) s"
  unfolding containsStr_iff by (metis append_assoc)

text \<open>An occurrence in a text around \<open>r\<close> lies to one side of it.\<close>

lemma contains_left:
  assumes "s @ v = w @ r @ y" "\<not> containsStr w s" "\<not> containsStr y s" "\<not> overlaps s r"
  shows False
  using assms(1)
proof (cases rule: append_split)
  case (left w')
  from left(2) show False
  proof (cases rule: append_split)
    case (left z)
    show False
    proof (cases "w' = []")
      case True
      with \<open>s = w @ w'\<close> assms(2) show False by simp
    next
      case False
      with overlapsI(1) [OF \<open>s = w @ w'\<close> this \<open>r = w' @ z\<close>] assms(4) show False by simp
    qed
  next
    case (right z)
    with \<open>s = w @ w'\<close> have "containsStr s r" by (auto simp: containsStr_iff)
    with assms(4) show False by (simp add: overlaps_def)
  qed
next
  case (right w')
  then have "containsStr w s" by (auto simp: containsStr_iff intro: exI [of _ "[]"])
  with assms(2) show False by simp
qed

lemma contains_right:
  assumes "r @ y = w @ s @ v" "\<not> containsStr y s" "\<not> overlaps s r"
  shows False
  using assms(1)
proof (cases rule: append_split)
  case (left z)
  from left(2) show False
  proof (cases rule: append_split)
    case (left q)
    show False
    proof (cases "z = [] \<or> q = []")
      case True
      then show False
      proof
        assume "z = []"
        with left have "y = [] @ s @ v" by simp
        then have "containsStr y s" unfolding containsStr_iff by blast
        with assms(2) show False by simp
      next
        assume "q = []"
        with left \<open>r = w @ z\<close> have "r = w @ s @ []" by simp
        then have "containsStr r s" unfolding containsStr_iff by blast
        with assms(3) show False by (simp add: overlaps_def)
      qed
    next
      case False
      with overlapsI(2) [OF left(1) _ _ \<open>r = w @ z\<close>] assms(3) show False by simp
    qed
  next
    case (right q)
    with \<open>r = w @ z\<close> have "containsStr r s" by (auto simp: containsStr_iff)
    with assms(3) show False by (simp add: overlaps_def)
  qed
next
  case (right z)
  then have "containsStr y s" by (auto simp: containsStr_iff)
  with assms(2) show False by simp
qed

lemma contains_around:
  assumes "containsStr (x @ r @ y) s" "\<not> overlaps s r"
  shows "containsStr x s \<or> containsStr y s"
proof (rule ccontr)
  assume no: "\<not> ?thesis"
  obtain u v where "x @ (r @ y) = u @ (s @ v)" using assms(1) by (auto simp: containsStr_iff)
  then show False
  proof (cases rule: append_split)
    case (left w)
    with no have "\<not> containsStr w s" using contains_part [of w s u "[]"] by auto
    from contains_left [OF left(2) this _ assms(2)] no show False by simp
  next
    case (right w)
    from contains_right [OF right(2) _ assms(2)] no show False by simp
  qed
qed

text \<open>A text that is absent stays absent.\<close>

lemma replaceAll_keeps_absent:
  "\<not> overlaps s new \<Longrightarrow> \<not> containsStr (p @ t) s \<Longrightarrow> \<not> containsStr (p @ replaceAll t old new) s"
proof (induction t old new arbitrary: p rule: replaceAll.induct)
  case (2 c t old new)
  show ?case
  proof (cases "old \<noteq> [] \<and> hasPrefix (c # t) old")
    case True
    let ?rest = "drop (length old) (c # t)"
    have "\<not> containsStr ?rest s"
    proof
      assume "containsStr ?rest s"
      then have "containsStr ((p @ take (length old) (c # t)) @ ?rest @ []) s" by (rule contains_part)
      with 2(4) show False by simp
    qed
    then have "\<not> containsStr ([] @ ?rest) s" by simp
    then have "\<not> containsStr ([] @ replaceAll ?rest old new) s" using 2(1) [OF True 2(3)] by blast
    moreover have "\<not> containsStr p s" using 2(4) contains_part [of p s "[]" "c # t"] by auto
    ultimately have "\<not> containsStr (p @ new @ replaceAll ?rest old new) s"
      using contains_around [of p new "replaceAll ?rest old new" s] 2(3) by auto
    with True show ?thesis by simp
  next
    case False
    have "\<not> containsStr ((p @ [c]) @ t) s" using 2(4) by simp
    then have "\<not> containsStr ((p @ [c]) @ replaceAll t old new) s" by (rule 2(2) [OF False 2(3)])
    with False show ?thesis by auto
  qed
qed simp

text \<open>The replaced text is absent afterwards.\<close>

lemma replaceAll_removes:
  "\<not> overlaps old new \<Longrightarrow> old \<noteq> [] \<Longrightarrow> (\<forall>k < length p. \<not> hasPrefix (drop k (p @ t)) old) \<Longrightarrow>
   \<not> containsStr (p @ replaceAll t old new) old"
proof (induction t old new arbitrary: p rule: replaceAll.induct)
  case (1 old new)
  show ?case
  proof
    assume "containsStr (p @ replaceAll [] old new) old"
    then obtain u v where "p = u @ old @ v" by (auto simp: containsStr_iff)
    with 1(3) [THEN spec, of "length u"] 1(2) show False by simp
  qed
next
  case (2 c t old new)
  show ?case
  proof (cases "hasPrefix (c # t) old")
    case True
    let ?rest = "drop (length old) (c # t)"
    have "\<not> containsStr ([] @ replaceAll ?rest old new) old" using 2(1) [of "[]"] True 2(3,4) by auto
    moreover have "\<not> containsStr p old"
    proof
      assume "containsStr p old"
      then obtain u v where "p = u @ old @ v" by (auto simp: containsStr_iff)
      with 2(5) [THEN spec, of "length u"] 2(4) show False by simp
    qed
    ultimately have "\<not> containsStr (p @ new @ replaceAll ?rest old new) old"
      using contains_around [of p new "replaceAll ?rest old new" old] 2(3) by auto
    with True 2(4) show ?thesis by simp
  next
    case False
    have "\<forall>k < length (p @ [c]). \<not> hasPrefix (drop k ((p @ [c]) @ t)) old"
      using 2(5) False by (auto simp: less_Suc_eq)
    then have "\<not> containsStr ((p @ [c]) @ replaceAll t old new) old"
      using 2(2) [of "p @ [c]"] False 2(3,4) by blast
    with False show ?thesis by simp
  qed
qed

section \<open>All the entries\<close>

text \<open>An entry with an empty key, or a dash for one, is passed over.\<close>

definition active :: "string \<times> string \<Rightarrow> bool" where
  "active e \<longleftrightarrow> fst e \<noteq> [] \<and> fst e \<noteq> ''-''"

lemma replaceSecret_keeps_absent:
  assumes "active e \<longrightarrow> \<not> overlaps s (snd e)" "\<not> containsStr out s"
  shows "\<not> containsStr (replaceSecret e out) s"
  using replaceAll_keeps_absent [of s "snd e" "[]" out "fst e"] assms
  by (auto simp: replaceSecret_def active_def)

lemma fold_keeps_absent:
  "\<forall>e \<in> set es. active e \<longrightarrow> \<not> overlaps s (snd e) \<Longrightarrow> \<not> containsStr out s \<Longrightarrow>
   \<not> containsStr (fold replaceSecret es out) s"
  by (induction es arbitrary: out) (auto simp: replaceSecret_keeps_absent)

lemma fold_removes:
  assumes "(s, r0) \<in> set es" "active (s, r0)" "\<forall>e \<in> set es. active e \<longrightarrow> \<not> overlaps s (snd e)"
  shows "\<not> containsStr (fold replaceSecret es out) s"
proof -
  obtain before rest where es: "es = before @ (s, r0) # rest" using assms(1) by (meson split_list)
  let ?mid = "fold replaceSecret before out"
  have "\<not> containsStr ([] @ replaceAll ?mid s r0) s"
    by (rule replaceAll_removes) (use assms(2,3) es in \<open>auto simp: active_def\<close>)
  then have "\<not> containsStr (replaceSecret (s, r0) ?mid) s"
    using assms(2) by (simp add: replaceSecret_def active_def)
  then show ?thesis using fold_keeps_absent [of rest s] assms(3) es by simp
qed

text \<open>
  C30. Whatever order the runtime walks the map of secrets in, the text that removeSecretsFromString
  returns does not contain a configured secret, provided that no replacement text of the map overlaps
  with that secret (contains it, is contained in it, or begins or ends with a part of it).
\<close>
theorem secrets_removed:
  assumes "(secret, r) \<in> set (secretEntries c)" "active (secret, r)"
    and "\<forall>e \<in> set (secretEntries c). active e \<longrightarrow> \<not> overlaps secret (snd e)"
  shows "\<not> containsStr (removeSecretsFromString choice c input) secret"
proof -
  have same: "set (pickOrder choice (secretEntries c)) = set (secretEntries c)"
    by (metis mset_pickOrder set_mset_mset)
  show ?thesis unfolding removeSecretsFromString_def
    by (rule fold_removes [OF _ assms(2)]) (use assms(1,3) same in auto)
qed

definition testSecrets :: "string \<Rightarrow> string \<Rightarrow> libConfig" where
  "testSecrets client pw = (libConfigOf testConfig 0)\<lparr>lcDeviceRepoUrl := ''http://repo:80'', lcDeviceManagerUrl := [],
     lcPermissionsV2Url := ''-'', lcKafkaUrl := [], lcAuthEndpoint := [], lcDeveloperNotificationUrl := [],
     lcJwtPrivateKey := [], lcAuthClientSecret := client, lcPostgresPw := pw\<rparr>"

theorem secrets_removed_witness:
  "\<not> containsStr (removeSecretsFromString [3, 1] (testSecrets ''s3cr3t'' ''pass'')
     ''login with s3cr3t at http://repo:80 failed'') ''s3cr3t''"
  by (rule secrets_removed [where r = "''***''"])
    (simp_all add: testSecrets_def secretEntries_def active_def overlaps_def upt_rec hasSuffix_def)

text \<open>
  The order matters: when one secret begins another one, the walk that replaces the shorter one
  first leaves the rest of the longer one in the text, and the other walk leaves nothing of it.
\<close>
lemma secrets_order_matters:
  "removeSecretsFromString [] (testSecrets ''pass'' ''password'') ''password'' = ''***'' \<and>
   removeSecretsFromString [2] (testSecrets ''pass'' ''password'') ''password'' = ''***word''"
  by (simp_all add: testSecrets_def secretEntries_def removeSecretsFromString_def replaceSecret_def)

end
