(* ===== verification/SessionProperties.thy ===== *)
theory SessionProperties
  imports ReplyProperties DisconnectCommand
begin

text \<open>
  What the webhooks of the session life cycle do: who is let in at login, when a hub counts as
  connected, what a disconnected hub does to its devices, and which sessions a disconnect command ends.
\<close>

section \<open>Documents\<close>

lemma parse_sendError: "parseJson (encodeLine (errorResponse m)) = Some (normJson (errorResponse m))"
  unfolding parseJson_def by (rule parse_encodeLine) (simp add: errorResponse_def maxNestingDepth_def)

lemma error_not_ok [simp]: "encodeLine (errorResponse m) \<noteq> okText"
proof
  assume "encodeLine (errorResponse m) = okText"
  with parse_sendError [of m] parse_okText show False by (simp add: okJson_def errorResponse_def)
qed

lemma documents_not_empty [simp]: "encodeLine v \<noteq> []" "okText \<noteq> []"
  by (simp_all add: encodeLine_def okText_def)

lemma parses_unique: "parses d s v r \<Longrightarrow> parses d s w q \<Longrightarrow> v = w \<and> r = q"
  unfolding parses_def by (metis nle_le pValue_more option.inject prod.inject)

text \<open>A second document after the first one makes the whole unreadable.\<close>

lemma two_documents: "jsonOk maxNestingDepth v \<Longrightarrow> parseJson (encodeLine v @ emptyDoc) = None"
proof (rule ccontr)
  assume ok: "jsonOk maxNestingDepth v" and "parseJson (encodeLine v @ emptyDoc) \<noteq> None"
  then obtain w r where w: "parses maxNestingDepth (encodeLine v @ emptyDoc) w r" "skipWs r = []"
    by (auto simp: parseJson_def parseDepth_iff)
  have "parses maxNestingDepth (encodeLine v @ emptyDoc) (normJson v) (CHR 0x0A # emptyDoc)"
    using parses_marshal [OF ok, of "CHR 0x0A # emptyDoc"]
    by (simp add: encodeLine_def stops_def skipWs_def isWs_def)
  with w(1) have "r = CHR 0x0A # emptyDoc" using parses_unique by blast
  with w(2) show False by (simp add: emptyDoc_def skipWs_def isWs_def)
qed

section \<open>Login\<close>

definition tokenCall :: "config \<Rightarrow> loginMsg \<Rightarrow> string \<Rightarrow> call \<Rightarrow> bool" where
  "tokenCall cfg msg token c \<longleftrightarrow>
     (MqttAuthMethod cfg = ''password'' \<and>
        c = CUserToken (lgUsername msg) (lgPassword msg) (loginRemote cfg msg) (Inr token)) \<or>
     (MqttAuthMethod cfg = ''certificate'' \<and>
        c = CExchangeToken (lgUsername msg) (loginRemote cfg msg) (Inr token))"

lemma loginToken_Inr:
  assumes "run_state (loginToken cfg cn msg) s = (Inr token, s')" "token \<noteq> []"
  obtains c where "tokenCall cfg msg token c" "calls s' = calls s @ [c]" "written s' = written s"
  using assms
  by (auto simp: loginToken_def tokenCall_def Let_def io_simps split: if_splits prod.splits)

lemma loginToken_written: "run_state (loginToken cfg cn msg) s = (r, s') \<Longrightarrow> written s' = written s"
  by (auto simp: loginToken_def Let_def io_simps split: if_splits prod.splits)

definition needsCleanSession :: "config \<Rightarrow> loginMsg \<Rightarrow> bool" where
  "needsCleanSession cfg msg \<longleftrightarrow> ForceCleanSession cfg \<and> lgUsername msg \<notin> set (CleanSessionAllowUserList cfg)"

text \<open>
  C12. The login webhook lets a client in, that is, answers with the ok document, only in two cases. Either
  the user is the connector itself with its own secret (which is not compared under another
  authentication method than password), and no service is asked. Or the session is clean where that is
  required, the hub check is off, the services gave a token that is not empty for these credentials (or this name, for
  certificates) and the connection limit of the client is not reached, asked in this order.
\<close>

theorem login_admits:
  assumes "decodeFirst decodeLogin (rqBody rq) = Some msg"
    and "run_state (login cfg cn rq) s = (x, s')" and "written s' = written s @ okText"
  shows "(lgUsername msg = AuthClientId cfg \<and> newCalls s s' = [] \<and>
      (MqttAuthMethod cfg = ''password'' \<longrightarrow> lgPassword msg = AuthClientSecret cfg)) \<or>
    (lgUsername msg \<noteq> AuthClientId cfg \<and> \<not> CheckHub cfg \<and>
      (needsCleanSession cfg msg \<longrightarrow> lgCleanSession msg \<or> lgCleanStart msg) \<and>
      (\<exists>token c. token \<noteq> [] \<and> tokenCall cfg msg token c \<and> newCalls s s' = [c, CLimit (lgClientId msg) None]))"
proof (cases "lgUsername msg = AuthClientId cfg")
  case True
  with assms show ?thesis by (auto simp: login_def io_simps sendError_def sendJson_def sendOk_def newCalls_def split: if_splits)
next
  case False
  obtain r s1 where t: "run_state (loginToken cfg cn msg) s = (r, s1)" by (metis surj_pair)
  note w = loginToken_written [OF t]
  from assms(2,3) False assms(1) w have clean: "needsCleanSession cfg msg \<longrightarrow> lgCleanSession msg \<or> lgCleanStart msg"
    by (auto simp: login_def io_simps sendError_def sendJson_def needsCleanSession_def contains_def list_ex_iff split: if_splits)
  from assms(2,3) False assms(1) w t obtain token where token: "r = Inr token" "token \<noteq> []"
    by (auto simp: login_def io_simps sendError_def sendJson_def split: if_splits sum.splits)
  from t token obtain c where c: "tokenCall cfg msg token c" "calls s1 = calls s @ [c]"
    by (auto elim: loginToken_Inr)
  from assms False w t token c(2) have "\<not> CheckHub cfg \<and> newCalls s s' = [c, CLimit (lgClientId msg) None]"
    by (auto simp: login_def io_simps sendError_def sendJson_def sendOk_def newCalls_def
        split: if_splits prod.splits option.splits)
  with False clean token c(1) show ?thesis by blast
qed

text \<open>
  C39. With the hub check on, a login whose hub is found writes no reply at all.
\<close>

theorem login_known_hub_no_reply:
  assumes "run_state (login cfg cn rq) s = (x, s')"
    and "CExistsHub h token (True, None) \<in> set (newCalls s s')"
  shows "written s' = written s"
proof -
  from assms obtain msg where msg: "decodeFirst decodeLogin (rqBody rq) = Some msg"
    by (cases "decodeFirst decodeLogin (rqBody rq)") (auto simp: login_def io_simps sendError_def sendJson_def newCalls_def)
  obtain r s1 where t: "run_state (loginToken cfg cn msg) s = (r, s1)" by (metis surj_pair)
  then have "\<exists>cs. calls s1 = calls s @ cs \<and> CExistsHub h token (True, None) \<notin> set cs"
    by (auto simp: loginToken_def Let_def io_simps split: if_splits prod.splits)
  with assms msg t loginToken_written [OF t] show ?thesis
    by (auto simp: login_def io_simps sendError_def sendJson_def sendOk_def newCalls_def
        split: if_splits prod.splits option.splits sum.splits)
qed

definition testLogin :: json where
  "testLogin = JObj [(''username'', JStr ''u''), (''password'', JStr ''pw''), (''client_id'', JStr ''hub'')]"

definition testLoginMsg :: loginMsg where
  "testLoginMsg = emptyLoginMsg\<lparr>lgUsername := ''u'', lgPassword := ''pw'', lgClientId := ''hub''\<rparr>"

lemma testLogin_decoded: "decodeFirst decodeLogin (marshal testLogin) = Some testLoginMsg"
proof (rule decodeFirst_marshal)
  show "jsonOk maxNestingDepth testLogin" by (simp add: testLogin_def maxNestingDepth_def)
  have "normJson testLogin = testLogin" by (simp add: testLogin_def normUtf8_ascii)
  moreover have "decodeLogin testLogin = Some testLoginMsg"
    unfolding testLogin_def testLoginMsg_def by code_simp
  ultimately show "decodeLogin (normJson testLogin) = Some testLoginMsg" by simp
qed

lemma testLogin_run:
  "run_state (login testConfig testConn (testRequestOf testLogin)) s0 = ((), s0\<lparr>calls :=
     [CUserToken ''u'' ''pw'' (loginRemote testConfig testLoginMsg) (Inr ''token''), CLimit ''hub'' None],
     written := okText\<rparr>)"
  unfolding login_def testRequestOf_def webhookRequest.simps testLogin_decoded
  by (simp add: testLoginMsg_def emptyLoginMsg_def loginToken_def Let_def io_simps sendOk_def test_simps)

theorem login_admits_witness:
  "\<exists>token c s'. token \<noteq> [] \<and> tokenCall testConfig testLoginMsg token c \<and>
     s' = snd (run_state (login testConfig testConn (testRequestOf testLogin)) s0) \<and>
     newCalls s0 s' = [c, CLimit ''hub'' None]"
proof -
  have user: "lgUsername testLoginMsg \<noteq> AuthClientId testConfig" "lgClientId testLoginMsg = ''hub''"
    by (simp_all add: testLoginMsg_def emptyLoginMsg_def test_simps)
  have "decodeFirst decodeLogin (rqBody (testRequestOf testLogin)) = Some testLoginMsg"
    using testLogin_decoded by (simp add: testRequestOf_def)
  from login_admits [OF this testLogin_run] user show ?thesis
    by (simp add: testLogin_run test_simps)
qed

theorem login_known_hub_no_reply_witness:
  "written (snd (run_state (login (testConfig\<lparr>CheckHub := True\<rparr>) testConn (testRequestOf testLogin)) s0)) = []"
proof -
  obtain x s' where run: "run_state (login (testConfig\<lparr>CheckHub := True\<rparr>) testConn (testRequestOf testLogin)) s0 = (x, s')"
    by (metis surj_pair)
  then have "CExistsHub ''hub'' ''token'' (True, None) \<in> set (newCalls s0 s')"
    unfolding login_def testRequestOf_def webhookRequest.simps testLogin_decoded
    by (auto simp: testLoginMsg_def emptyLoginMsg_def loginToken_def Let_def io_simps newCalls_def test_simps)
  from login_known_hub_no_reply [OF run this] show ?thesis by (simp add: run test_simps)
qed

section \<open>Online\<close>

text \<open>
  A hub is logged as connected only when the request names it as the client and the platform, asked
  with the connector's own token, knows it; the request is then answered with the empty document.
\<close>

lemma online_connects_known_hub:
  assumes "run_state (online cn rq) s = (x, s')" and "CHubConnect h e \<in> set (newCalls s s')"
  shows "decodeFirst decodeClientId (rqBody rq) = Some h \<and> written s' = written s @ emptyDoc \<and>
    (\<exists>token. newCalls s s' = [CAccess (Inr token), CExistsHub h token (True, None), CHubConnect h e])"
  using assms
  by (auto simp: online_def io_simps newCalls_def sendError_def sendJson_def
      split: option.splits sum.splits if_splits prod.splits)

text \<open>
  C40. A request that cannot be decoded makes no call, and what the online webhook answers to it is not
  a JSON document: the error is followed by the empty document.
\<close>

theorem online_undecodable_reply:
  assumes "decodeFirst decodeClientId (rqBody rq) = None"
    and "run_state (online cn rq) s = (x, s')" and "written s' = written s @ doc"
  shows "newCalls s s' = [] \<and> parseJson doc = None"
proof -
  from assms have "doc = encodeLine (errorResponse (jsonErrorText cn ''OnlineWebhookMsg'' (rqBody rq))) @ emptyDoc"
    by (auto simp: online_def io_simps sendError_def sendJson_def)
  then have "parseJson doc = None"
    using two_documents [of "errorResponse (jsonErrorText cn ''OnlineWebhookMsg'' (rqBody rq))"]
    by (simp add: errorResponse_def maxNestingDepth_def)
  with assms show ?thesis by (auto simp: online_def io_simps newCalls_def sendError_def sendJson_def)
qed

lemma testClient_decoded: "decodeFirst decodeClientId (marshal testLogin) = Some ''hub''"
proof (rule decodeFirst_marshal)
  show "jsonOk maxNestingDepth testLogin" by (simp add: testLogin_def maxNestingDepth_def)
  have "normJson testLogin = testLogin" by (simp add: testLogin_def normUtf8_ascii)
  moreover have "decodeClientId testLogin = Some ''hub''" unfolding testLogin_def by code_simp
  ultimately show "decodeClientId (normJson testLogin) = Some ''hub''" by simp
qed

lemma testOnline_run:
  "run_state (online testConn (testRequestOf testLogin)) s0 = ((), s0\<lparr>calls :=
     [CAccess (Inr ''admin''), CExistsHub ''hub'' ''admin'' (True, None), CHubConnect ''hub'' None], written := emptyDoc\<rparr>)"
  unfolding online_def testRequestOf_def webhookRequest.simps testClient_decoded
  by (simp add: io_simps test_simps)

theorem online_undecodable_reply_witness:
  "parseJson (written (snd (run_state (online testConn \<lparr>rqBody = ''}'', rqReadErr = None\<rparr>) s0))) = None"
proof -
  let ?rq = "\<lparr>rqBody = ''}'', rqReadErr = None\<rparr> :: webhookRequest"
  have none: "decodeFirst decodeClientId (rqBody ?rq) = None" by code_simp
  obtain x s' where run: "run_state (online testConn ?rq) s0 = (x, s')" by (metis surj_pair)
  from online_undecodable_reply [OF none run, of "written s'"] show ?thesis by (simp add: run test_simps)
qed

section \<open>Disconnect\<close>

text \<open>What is done for one device of the hub: it is looked up, and logged as disconnected if it is known.\<close>

definition deviceStep :: "string \<Rightarrow> string \<Rightarrow> call list \<Rightarrow> bool" where
  "deviceStep token l cs \<longleftrightarrow> (\<exists>e. cs = [CDevice token l (Inl e)]) \<or>
     (\<exists>d e. cs = [CDevice token l (Inr d), CDeviceDisconnect (devId d) e])"

lemma deviceStepI:
  "deviceStep token l [CDevice token l (Inl err)]"
  "deviceStep token l [CDevice token l (Inr d), CDeviceDisconnect (devId d) e]"
  by (simp_all add: deviceStep_def)

lemma deviceSteps_no_hub: "list_all2 (deviceStep token) ls css \<Longrightarrow> CHubDisconnect h e \<notin> set (concat css)"
  by (induction rule: list_all2_induct) (auto simp: deviceStep_def)

lemma disconnectDevices_calls:
  "run_state (disconnectDevices cn token ls) s = (x, s') \<Longrightarrow>
   \<exists>css. calls s' = calls s @ concat css \<and> list_all2 (deviceStep token) ls css \<and> written s' = written s"
proof (induction ls arbitrary: s)
  case (Cons l ls)
  obtain r w where d: "getDeviceByLocalId cn token l (world s) = (r, w)" by (metis surj_pair)
  let ?s1 = "s\<lparr>world := w, calls := calls s @ [CDevice token l r]\<rparr>"
  show ?case
  proof (cases r)
    case (Inl e)
    with Cons.prems d have "run_state (disconnectDevices cn token ls) ?s1 = (x, s')" by (simp add: io_simps)
    from Cons.IH [OF this] obtain css where "calls s' = calls ?s1 @ concat css"
        "list_all2 (deviceStep token) ls css" "written s' = written s" by auto
    with Inl show ?thesis by (intro exI [of _ "[CDevice token l r] # css"]) (simp add: deviceStepI)
  next
    case (Inr dev)
    obtain e w' where e: "logDeviceDisconnect cn (devId dev) w = (e, w')" by (metis surj_pair)
    let ?s2 = "?s1\<lparr>world := w', calls := calls ?s1 @ [CDeviceDisconnect (devId dev) e]\<rparr>"
    from Cons.prems d e Inr have "run_state (disconnectDevices cn token ls) ?s2 = (x, s')" by (simp add: io_simps)
    from Cons.IH [OF this] obtain css where "calls s' = calls ?s2 @ concat css"
        "list_all2 (deviceStep token) ls css" "written s' = written s" by auto
    with Inr show ?thesis
      by (intro exI [of _ "[CDevice token l r, CDeviceDisconnect (devId dev) e] # css"]) (simp add: deviceStepI)
  qed
qed (simp add: io_simps)

text \<open>
  C26. When a client disconnects and its hub is logged as disconnected, then, in the order of the hub's
  list, each of its devices is looked up with the token of the hub's owner and logged as disconnected
  unless it is unknown; a device that fails does not stop the ones after it. The reply is the empty
  document.
\<close>

theorem disconnect_marks_devices:
  assumes "run_state (disconnect cn rq) s = (x, s')" and "CHubDisconnect h None \<in> set (newCalls s s')"
  shows "\<exists>admin g token css. decodeFirst decodeClientId (rqBody rq) = Some h \<and>
    newCalls s s' = [CAccess (Inr admin), CGetHub h admin (Inr g), CToken (hubOwnerId g) (Inr token),
      CHubDisconnect h None] @ concat css \<and>
    list_all2 (deviceStep token) (hubDeviceLocalIds g) css \<and> written s' = written s @ emptyDoc"
proof -
  from assms obtain c where c: "decodeFirst decodeClientId (rqBody rq) = Some c"
    by (cases "decodeFirst decodeClientId (rqBody rq)") (auto simp: disconnect_def io_simps newCalls_def)
  with assms obtain admin g token s1 s2 where
    run: "run_state (disconnectDevices cn token (hubDeviceLocalIds g)) s1 = ((), s2)"
    and before: "calls s1 = calls s @ [CAccess (Inr admin), CGetHub c admin (Inr g), CToken (hubOwnerId g) (Inr token),
      CHubDisconnect c None]" "written s1 = written s" "s' = s2\<lparr>written := written s2 @ emptyDoc\<rparr>"
    by (auto simp: disconnect_def io_simps newCalls_def split: option.splits sum.splits prod.splits)
  from disconnectDevices_calls [OF run] obtain css where css: "calls s2 = calls s1 @ concat css"
      "list_all2 (deviceStep token) (hubDeviceLocalIds g) css" "written s2 = written s1" by blast
  from assms(2) before css(1) deviceSteps_no_hub [OF css(2), of h None] have "h = c"
    by (auto simp: newCalls_def)
  with c css before show ?thesis by (auto simp: newCalls_def)
qed

section \<open>Unsubscribe\<close>

text \<open>
  The devices of the topics of a request: of the command topics, those before the first one that cannot be
  parsed. A topic below a shared subscription does not begin with the prefix.
\<close>

definition unsubscribed :: "string list \<Rightarrow> topicParts list" where
  "unsubscribed ts = filter (\<lambda>p. tpPrefix p = ''command'')
     (map (\<lambda>t. projr (ParseTopic t)) (takeWhile (\<lambda>t. \<not> isl (ParseTopic t)) (filter (\<lambda>t. hasPrefix t ''command'') ts)))"

lemma unsubscribed_Cons:
  "unsubscribed (t # ts) = (if \<not> hasPrefix t ''command'' then unsubscribed ts else case ParseTopic t of
     Inl e \<Rightarrow> [] | Inr p \<Rightarrow> if tpPrefix p = ''command'' then p # unsubscribed ts else unsubscribed ts)"
  by (simp add: unsubscribed_def split: sum.split)

lemma unsubscribeLoop_calls:
  "run_state (unsubscribeLoop cn token ts) s = (x, s') \<Longrightarrow>
   \<exists>css. calls s' = calls s @ concat css \<and> list_all2 (deviceStep token) (map tpDevice (unsubscribed ts)) css \<and>
     written s' = written s"
proof (induction ts arbitrary: s)
  case (Cons t ts)
  show ?case
  proof (cases "hasPrefix t ''command'' \<and> (\<exists>ow d sv. ParseTopic t = Inr (TopicParts ''command'' ow d sv))")
    case False
    with Cons show ?thesis
      by (auto simp: unsubscribed_Cons split: sum.splits topicParts.splits if_splits)
  next
    case True
    then obtain ow d sv where t: "hasPrefix t ''command''" "ParseTopic t = Inr (TopicParts ''command'' ow d sv)" by blast
    obtain r w where r: "getDeviceByLocalId cn token d (world s) = (r, w)" by (metis surj_pair)
    let ?s1 = "s\<lparr>world := w, calls := calls s @ [CDevice token d r]\<rparr>"
    obtain cs s2 where step: "run_state (unsubscribeLoop cn token ts) s2 = (x, s')" "calls s2 = calls s @ cs"
        "deviceStep token d cs" "written s2 = written s"
    proof (cases r)
      case (Inl e)
      with Cons.prems t r have "run_state (unsubscribeLoop cn token ts) ?s1 = (x, s')" by (simp add: io_simps)
      then show ?thesis by (rule that [of _ "[CDevice token d r]"]) (simp_all add: Inl deviceStepI)
    next
      case (Inr dev)
      obtain e w' where e: "logDeviceDisconnect cn (devId dev) w = (e, w')" by (metis surj_pair)
      let ?s2 = "?s1\<lparr>world := w', calls := calls ?s1 @ [CDeviceDisconnect (devId dev) e]\<rparr>"
      from Cons.prems t r e Inr have "run_state (unsubscribeLoop cn token ts) ?s2 = (x, s')" by (simp add: io_simps)
      then show ?thesis by (rule that [of _ "[CDevice token d r, CDeviceDisconnect (devId dev) e]"]) (simp_all add: Inr deviceStepI)
    qed
    from Cons.IH [OF step(1)] obtain css where "calls s' = calls s2 @ concat css"
      "list_all2 (deviceStep token) (map tpDevice (unsubscribed ts)) css" "written s' = written s2" by blast
    with t step show ?thesis by (intro exI [of _ "cs # css"]) (simp add: unsubscribed_Cons)
  qed
qed (simp add: io_simps unsubscribed_def)

text \<open>
  C27. An unsubscription of a user with a token logs as disconnected, in order, the device of each of its
  command topics up to the first that cannot be parsed, unless the platform does not know it for this
  user; a device that fails does not stop the ones after it. Topics of shared subscriptions are left
  out. The reply repeats the topics.
\<close>

theorem unsubscribe_marks_devices:
  assumes "decodeFirst decodeUnsubscribe (rqBody rq) = Some msg" and "usUsername msg \<noteq> AuthClientId cfg"
    and "run_state (unsubscribe cfg cn rq) s = (x, s')" and "CToken u (Inr token) \<in> set (newCalls s s')"
  shows "\<exists>css. newCalls s s' = CToken (usUsername msg) (Inr token) # concat css \<and>
    list_all2 (deviceStep token)
      (map tpDevice (unsubscribed (case usTopics msg of None \<Rightarrow> [] | Some ts \<Rightarrow> ts))) css \<and>
    written s' = written s @ encodeLine (unsubResponse (usTopics msg))"
proof -
  let ?ts = "case usTopics msg of None \<Rightarrow> [] | Some ts \<Rightarrow> ts"
  obtain r w where r: "getCachedUserToken cn (usUsername msg) (world s) = (r, w)" by (metis surj_pair)
  let ?s1 = "s\<lparr>world := w, calls := calls s @ [CToken (usUsername msg) r]\<rparr>"
  from assms r obtain tok where tok: "r = Inr tok"
    by (cases r) (auto simp: unsubscribe_def io_simps sendJson_def newCalls_def)
  obtain y s2 where loop: "run_state (unsubscribeLoop cn tok ?ts) ?s1 = (y, s2)" by (metis surj_pair)
  from unsubscribeLoop_calls [OF loop] obtain css where css: "calls s2 = calls ?s1 @ concat css"
    "list_all2 (deviceStep tok) (map tpDevice (unsubscribed ?ts)) css" "written s2 = written ?s1" by blast
  have s': "s' = s2\<lparr>written := written s2 @ encodeLine (unsubResponse (usTopics msg))\<rparr>"
    using assms(1-3) r tok loop by (simp add: unsubscribe_def io_simps sendJson_def)
  have "CToken u' (Inr k) \<notin> set (concat css)" for u' k
    using css(2) by (induction rule: list_all2_induct) (auto simp: deviceStep_def)
  with assms(4) s' css tok have "tok = token" by (auto simp: newCalls_def)
  with css s' tok show ?thesis by (auto simp: newCalls_def)
qed

section \<open>The disconnect command\<close>

text \<open>The answers that count as success.\<close>

definition ended :: "goerror + (int \<times> string) \<Rightarrow> bool" where
  "ended r = (case r of Inl e \<Rightarrow> False | Inr (status, body) \<Rightarrow> status < 300)"

lemma disconnectClients_calls:
  "run_state (disconnectClients cn api cs) s = (r, s') \<Longrightarrow>
   \<exists>rs. calls s' = calls s @ map2 (\<lambda>c a. CHttpGet (disconnectUrl api c) a) cs rs \<and>
     length rs \<le> length cs \<and> list_all ended (butlast rs) \<and>
     (r = None \<longleftrightarrow> length rs = length cs \<and> list_all ended rs)"
proof (induction cs arbitrary: s)
  case (Cons c cs)
  let ?url = "disconnectUrl api c"
  show ?case
  proof (cases "newRequestErr cn ?url")
    case (Some e)
    with Cons.prems show ?thesis
      by (intro exI [of _ "[]"]) (auto simp: disconnectClient_def Let_def io_simps)
  next
    case None
    obtain a w where a: "httpGet cn ?url (world s) = (a, w)" by (metis surj_pair)
    let ?s1 = "s\<lparr>world := w, calls := calls s @ [CHttpGet ?url a]\<rparr>"
    show ?thesis
    proof (cases "ended a")
      case True
      with Cons.prems None a have "run_state (disconnectClients cn api cs) ?s1 = (r, s')"
        by (auto simp: disconnectClient_def Let_def io_simps ended_def split: sum.splits)
      from Cons.IH [OF this] obtain rs where
        "calls s' = calls ?s1 @ map2 (\<lambda>c a. CHttpGet (disconnectUrl api c) a) cs rs"
        "length rs \<le> length cs" "list_all ended (butlast rs)"
        "r = None \<longleftrightarrow> length rs = length cs \<and> list_all ended rs" by blast
      with True show ?thesis by (intro exI [of _ "a # rs"]) auto
    next
      case False
      with Cons.prems None a show ?thesis
        by (intro exI [of _ "[a]"])
          (auto simp: disconnectClient_def Let_def io_simps ended_def split: sum.splits prod.splits if_splits)
    qed
  qed
qed (simp add: io_simps)

text \<open>
  C31. Once the broker has listed the sessions of the user, the disconnect command asks it to end them in
  the order of the list. It stops at the first request that fails, and reports success exactly when
  every session of the list was ended.
\<close>

theorem disconnect_command_sessions:
  assumes "run_state (execDisconnectCommand cfg cn user) s = (r, s')"
    and "newCalls s s' = CHttpGet (sessionsUrl (VmqAdminApiUrl cfg) user) (Inr (status, body)) # rest"
    and "status < 300" and "decodeFirst decodeTable body = Some table"
  shows "\<exists>rs. rest = map2 (\<lambda>c a. CHttpGet (disconnectUrl (VmqAdminApiUrl cfg) c) a) (map suClientId table) rs \<and>
    length rs \<le> length table \<and> list_all ended (butlast rs) \<and>
    (r = None \<longleftrightarrow> length rs = length table \<and> list_all ended rs)"
proof -
  let ?api = "VmqAdminApiUrl cfg"
  let ?url = "sessionsUrl ?api user"
  have none: "newRequestErr cn ?url = None"
    using assms(1,2)
    by (auto simp: execDisconnectCommand_def listSessionsClientIdsOfUser_def Let_def io_simps newCalls_def
        split: option.splits)
  obtain a w where a: "httpGet cn ?url (world s) = (a, w)" by (metis surj_pair)
  let ?s1 = "s\<lparr>world := w, calls := calls s @ [CHttpGet ?url a]\<rparr>"
  have "\<exists>st b t. a = Inr (st, b) \<and> st < 300 \<and> decodeFirst decodeTable b = Some t"
    using assms none a
    by (auto simp: execDisconnectCommand_def listSessionsClientIdsOfUser_def Let_def io_simps newCalls_def
        split: sum.splits prod.splits option.splits if_splits)
  then obtain st b t where ok: "a = Inr (st, b)" "st < 300" "decodeFirst decodeTable b = Some t" by blast
  with assms(1) none a have "run_state (disconnectClients cn ?api (map suClientId t)) ?s1 = (r, s')"
    by (simp add: execDisconnectCommand_def listSessionsClientIdsOfUser_def Let_def io_simps)
  from disconnectClients_calls [OF this] obtain rs where
    calls: "calls s' = calls ?s1 @ map2 (\<lambda>c a. CHttpGet (disconnectUrl ?api c) a) (map suClientId t) rs" and
    rs: "length rs \<le> length (map suClientId t)" "list_all ended (butlast rs)"
      "r = None \<longleftrightarrow> length rs = length (map suClientId t) \<and> list_all ended rs" by blast
  from calls have new: "newCalls s s' = CHttpGet ?url a # map2 (\<lambda>c a. CHttpGet (disconnectUrl ?api c) a) (map suClientId t) rs"
    by (simp add: newCalls_def)
  from new assms(2,4) ok have "t = table" by simp
  with new rs assms(2) show ?thesis by auto
qed

section \<open>The requests to the broker\<close>

text \<open>The value of the first parameter of a URL's query, as the broker reads it.\<close>

definition firstParameter :: "string \<Rightarrow> string option" where
  "firstParameter url = queryUnescape (takeWhile (\<lambda>c. c \<noteq> CHR ''&'' \<and> c \<noteq> CHR ''#'')
     (drop 1 (dropWhile (\<lambda>c. c \<noteq> CHR ''='') (dropWhile (\<lambda>c. c \<noteq> CHR ''?'') url))))"

lemma takeWhile_querySafe:
  "takeWhile (\<lambda>c. c \<noteq> CHR ''&'' \<and> c \<noteq> CHR ''#'') (queryEscape x @ CHR ''&'' # r) = queryEscape x"
  "takeWhile (\<lambda>c. c \<noteq> CHR ''&'' \<and> c \<noteq> CHR ''#'') (queryEscape x) = queryEscape x"
proof -
  have "\<not> querySafe CHR ''&''" "\<not> querySafe CHR ''#''" by code_simp+
  then have "\<forall>c \<in> set (queryEscape x). c \<noteq> CHR ''&'' \<and> c \<noteq> CHR ''#''" using queryEscape_safe by blast
  then show "takeWhile (\<lambda>c. c \<noteq> CHR ''&'' \<and> c \<noteq> CHR ''#'') (queryEscape x @ CHR ''&'' # r) = queryEscape x"
    "takeWhile (\<lambda>c. c \<noteq> CHR ''&'' \<and> c \<noteq> CHR ''#'') (queryEscape x) = queryEscape x"
    by (simp_all add: takeWhile_append2)
qed

text \<open>
  Whatever bytes a client id or a user name holds, the request names exactly this client or user: the
  broker reads the same bytes back, and no name can add a parameter of its own.
\<close>

lemma broker_requests_name_client:
  assumes "CHR ''?'' \<notin> set api"
  shows "firstParameter (disconnectUrl api name) = Some name \<and>
    firstParameter (sessionsUrl api name) = Some name"
proof -
  have "dropWhile (\<lambda>c. c \<noteq> CHR ''?'') (api @ x) = dropWhile (\<lambda>c. c \<noteq> CHR ''?'') x" for x
    using assms by (intro dropWhile_append2) auto
  then show ?thesis
    by (simp_all add: firstParameter_def disconnectUrl_def sessionsUrl_def
        takeWhile_querySafe queryUnescape_queryEscape)
qed

section \<open>Example requests\<close>

lemma testDisconnect_run:
  "run_state (disconnect testConn (testRequestOf testLogin)) s0 = ((), s0\<lparr>calls :=
     [CAccess (Inr ''admin''), CGetHub ''hub'' ''admin'' (Inr \<lparr>hubOwnerId = ''user'', hubDeviceLocalIds = [''d'']\<rparr>),
      CToken ''user'' (Inr ''token''), CHubDisconnect ''hub'' None,
      CDevice ''token'' ''d'' (Inr (testDevice ''d'')), CDeviceDisconnect ''id:d'' None], written := emptyDoc\<rparr>)"
  unfolding disconnect_def testRequestOf_def webhookRequest.simps testClient_decoded
  by (simp add: io_simps test_simps) (simp add: testDevice_def)

theorem disconnect_marks_devices_witness:
  "\<exists>g token css. g = \<lparr>hubOwnerId = ''user'', hubDeviceLocalIds = [''d'']\<rparr> \<and>
     list_all2 (deviceStep token) (hubDeviceLocalIds g) css"
  using disconnect_marks_devices [OF testDisconnect_run, of "''hub''"]
  by (simp add: newCalls_def test_simps) (metis hub.select_convs(2))

definition testTable :: json where
  "testTable = JObj [(''table'', JArr [JObj [(''client_id'', JStr ''c1'')], JObj [(''client_id'', JStr ''c2'')]])]"

definition testSubscription :: "string \<Rightarrow> subscription" where
  "testSubscription c = \<lparr>suClientId = c, suUser = [], suTopic = [], suIsOnline = False\<rparr>"

lemma testTable_decoded:
  "decodeFirst decodeTable (marshal testTable) = Some [testSubscription ''c1'', testSubscription ''c2'']"
proof (rule decodeFirst_marshal)
  show "jsonOk maxNestingDepth testTable" by (simp add: testTable_def maxNestingDepth_def)
  have "normJson testTable = testTable" by (simp add: testTable_def normUtf8_ascii)
  moreover have "decodeTable testTable = Some [testSubscription ''c1'', testSubscription ''c2'']"
    unfolding testTable_def testSubscription_def by code_simp
  ultimately show "decodeTable (normJson testTable) = Some [testSubscription ''c1'', testSubscription ''c2'']" by simp
qed

definition testBroker :: "unit connector" where
  "testBroker = testConn\<lparr>httpGet := \<lambda>u w. (Inr (200, marshal testTable), w)\<rparr>"

lemma testBroker_run:
  "run_state (execDisconnectCommand testConfig testBroker ''u'') s0 = (None, s0\<lparr>calls :=
     [CHttpGet (sessionsUrl [] ''u'') (Inr (200, marshal testTable)),
      CHttpGet (disconnectUrl [] ''c1'') (Inr (200, marshal testTable)),
      CHttpGet (disconnectUrl [] ''c2'') (Inr (200, marshal testTable))]\<rparr>)"
  by (simp add: execDisconnectCommand_def listSessionsClientIdsOfUser_def disconnectClient_def Let_def io_simps
      testBroker_def testTable_decoded testSubscription_def test_simps)

theorem disconnect_command_sessions_witness:
  "\<exists>rs. length rs = length [testSubscription ''c1'', testSubscription ''c2''] \<and> list_all ended rs \<and>
     [CHttpGet (disconnectUrl [] ''c1'') (Inr (200, marshal testTable)),
      CHttpGet (disconnectUrl [] ''c2'') (Inr (200, marshal testTable))] =
     map2 (\<lambda>c a. CHttpGet (disconnectUrl [] c) a) [''c1'', ''c2''] rs"
  using disconnect_command_sessions [OF testBroker_run _ _ testTable_decoded, of 200]
  by (auto simp: newCalls_def testSubscription_def test_simps)

definition testUnsubscribe :: json where
  "testUnsubscribe = JObj [(''username'', JStr ''u''), (''topics'', JArr
     [JStr ''command/d/srv'', JStr ''$share/g/command/d2/srv'', JStr ''command'', JStr ''command/d3/srv''])]"

definition testUnsubscribeMsg :: unsubscribeMsg where
  "testUnsubscribeMsg = \<lparr>usUsername = ''u'',
     usTopics = Some [''command/d/srv'', ''$share/g/command/d2/srv'', ''command'', ''command/d3/srv'']\<rparr>"

lemma testUnsubscribe_decoded: "decodeFirst decodeUnsubscribe (marshal testUnsubscribe) = Some testUnsubscribeMsg"
proof (rule decodeFirst_marshal)
  show "jsonOk maxNestingDepth testUnsubscribe" by (simp add: testUnsubscribe_def maxNestingDepth_def)
  have "normJson testUnsubscribe = testUnsubscribe" by (simp add: testUnsubscribe_def normUtf8_ascii)
  moreover have "decodeUnsubscribe testUnsubscribe = Some testUnsubscribeMsg"
    unfolding testUnsubscribe_def testUnsubscribeMsg_def by code_simp
  ultimately show "decodeUnsubscribe (normJson testUnsubscribe) = Some testUnsubscribeMsg" by simp
qed

lemma testUnsubscribe_topics:
  "map tpDevice (unsubscribed [''command/d/srv'', ''$share/g/command/d2/srv'', ''command'', ''command/d3/srv'']) = [''d'']"
  by code_simp

theorem unsubscribe_marks_devices_witness:
  "\<exists>cs. newCalls s0 (snd (run_state (unsubscribe testConfig testConn (testRequestOf testUnsubscribe)) s0)) =
     CToken ''u'' (Inr ''token'') # cs \<and> deviceStep ''token'' ''d'' cs"
proof -
  let ?run = "run_state (unsubscribe testConfig testConn (testRequestOf testUnsubscribe)) s0"
  have dec: "decodeFirst decodeUnsubscribe (rqBody (testRequestOf testUnsubscribe)) = Some testUnsubscribeMsg"
    by (simp add: testRequestOf_def testUnsubscribe_decoded)
  have run: "run_state (unsubscribe testConfig testConn (testRequestOf testUnsubscribe)) s0 = (fst ?run, snd ?run)"
    by (simp only: prod.collapse)
  obtain y s2 where loop: "run_state (unsubscribeLoop testConn ''token'' (the (usTopics testUnsubscribeMsg)))
      (s0\<lparr>world := (), calls := [CToken ''u'' (Inr ''token'')]\<rparr>) = (y, s2)" by (metis surj_pair)
  have "calls (snd ?run) = calls s2"
    using dec loop by (simp add: unsubscribe_def io_simps sendJson_def test_simps testUnsubscribeMsg_def
        del: unsubscribeLoop.simps)
  with unsubscribeLoop_calls [OF loop] have "CToken ''u'' (Inr ''token'') \<in> set (newCalls s0 (snd ?run))"
    by (auto simp: newCalls_def test_simps)
  from unsubscribe_marks_devices [OF dec _ run this] obtain css where
    "newCalls s0 (snd ?run) = CToken ''u'' (Inr ''token'') # concat css" "list_all2 (deviceStep ''token'') [''d''] css"
    by (auto simp: testUnsubscribeMsg_def testUnsubscribe_topics test_simps)
  then show ?thesis by (auto simp: list_all2_Cons1)
qed

end
