(* ===== verification/EnvTable.thy ===== *)
theory EnvTable
  imports ConfigEnv
begin

text \<open>
  What every environment variable changes in the configuration, \<open>HandleEnvironmentVars\<close> of
  \<open>lib/configuration/config.go\<close>: a table, variable by variable, of the field it sets and the value it
  sets it to; and what of the environment is printed.
\<close>

section \<open>One variable, one field\<close>

definition envName :: "configField \<Rightarrow> string" where
  "envName f = fieldNameToEnvName (cfName f)"

lemma envNames_inj: "f \<in> set configFields \<Longrightarrow> g \<in> set configFields \<Longrightarrow> envName f = envName g \<Longrightarrow> f = g"
  using envNames_distinct unfolding envName_def distinct_map inj_on_def by blast

lemma configFields_distinct: "distinct configFields"
  using envNames_distinct unfolding distinct_map by blast

lemma environment_sets_field:
  assumes "f \<in> set configFields" and "v \<noteq> []"
  shows "HandleEnvironmentVars lib (\<lambda>n. if n = envName f then v else []) cfg = setField lib (cfKind f) v cfg"
proof -
  let ?env = "\<lambda>n. if n = envName f then v else []"
  obtain fs gs where split: "configFields = fs @ f # gs" using assms(1) by (meson split_list)
  have other: "?env (fieldNameToEnvName (cfName g)) = []" if "g \<in> set fs \<union> set gs" for g
  proof -
    have "g \<noteq> f" "g \<in> set configFields" using that configFields_distinct unfolding split by auto
    then show ?thesis using envNames_inj [OF assms(1), of g] by (auto simp: envName_def)
  qed
  have "envFields lib ?env fs cfg = Some cfg" using other by (intro envFields_unset) blast
  moreover have "envFields lib ?env gs c = Some c" for c using other by (intro envFields_unset) blast
  ultimately show ?thesis using assms(2)
    by (auto simp: HandleEnvironmentVars_def split envName_def [symmetric] envFields_append Let_def split: option.splits)
qed

section \<open>The table\<close>

text \<open>
  The fields of \<open>ConfigStruct\<close> by the names that the code reads off the type, each with the configuration
  that a value \<open>v\<close> in its variable leads to, \<open>None\<close> where the process ends. The name of the field and the
  field of the record that is updated stand side by side.
\<close>

definition fieldTable :: "envLib \<Rightarrow> string \<Rightarrow> config \<Rightarrow> (string \<times> config option) list" where
  "fieldTable lib v cfg = [
     (''KafkaUrl'', Some (cfg\<lparr>KafkaUrl := v\<rparr>)),
     (''KafkaResponseTopic'', Some (cfg\<lparr>KafkaResponseTopic := v\<rparr>)),
     (''KafkaGroupName'', Some (cfg\<lparr>KafkaGroupName := v\<rparr>)),
     (''FatalKafkaError'', Some (cfg\<lparr>FatalKafkaError := parseBool v\<rparr>)),
     (''Protocol'', Some (cfg\<lparr>Protocol := v\<rparr>)),
     (''DeviceManagerUrl'', Some (cfg\<lparr>DeviceManagerUrl := v\<rparr>)),
     (''DeviceRepoUrl'', Some (cfg\<lparr>DeviceRepoUrl := v\<rparr>)),
     (''AuthClientId'', Some (cfg\<lparr>AuthClientId := v\<rparr>)),
     (''AuthClientSecret'', Some (cfg\<lparr>AuthClientSecret := v\<rparr>)),
     (''AuthExpirationTimeBuffer'', Some (cfg\<lparr>AuthExpirationTimeBuffer := elParseFloat lib v\<rparr>)),
     (''AuthEndpoint'', Some (cfg\<lparr>AuthEndpoint := v\<rparr>)),
     (''JwtPrivateKey'', Some (cfg\<lparr>JwtPrivateKey := v\<rparr>)),
     (''JwtExpiration'', Some (cfg\<lparr>JwtExpiration := parseInt64 v\<rparr>)),
     (''JwtIssuer'', Some (cfg\<lparr>JwtIssuer := v\<rparr>)),
     (''WebhookPort'', Some (cfg\<lparr>WebhookPort := v\<rparr>)),
     (''GatewayLogTopic'', Some (cfg\<lparr>GatewayLogTopic := v\<rparr>)),
     (''DeviceLogTopic'', Some (cfg\<lparr>DeviceLogTopic := v\<rparr>)),
     (''ConnectionLogQos'', Some (cfg\<lparr>ConnectionLogQos := parseInt64 v\<rparr>)),
     (''MemcachedUrl'', Some (cfg\<lparr>MemcachedUrl := v\<rparr>)),
     (''MqttBroker'', Some (cfg\<lparr>MqttBroker := v\<rparr>)),
     (''MqttVersion'', Some (cfg\<lparr>MqttVersion := v\<rparr>)),
     (''CheckHub'', Some (cfg\<lparr>CheckHub := parseBool v\<rparr>)),
     (''Debug'', Some (cfg\<lparr>Debug := parseBool v\<rparr>)),
     (''MqttDebug'', Some (cfg\<lparr>MqttDebug := parseBool v\<rparr>)),
     (''CorrelationExpiration'', Some (cfg\<lparr>CorrelationExpiration := parseInt64 v\<rparr>)),
     (''IotCacheUrls'', Some (cfg\<lparr>IotCacheUrls := v\<rparr>)),
     (''DeviceExpiration'', Some (cfg\<lparr>DeviceExpiration := parseInt64 v\<rparr>)),
     (''DeviceTypeExpiration'', Some (cfg\<lparr>DeviceTypeExpiration := parseInt64 v\<rparr>)),
     (''CharacteristicExpiration'', Some (cfg\<lparr>CharacteristicExpiration := parseInt64 v\<rparr>)),
     (''TokenCacheUrls'', Some (cfg\<lparr>TokenCacheUrls := v\<rparr>)),
     (''TokenCacheExpiration'', Some (cfg\<lparr>TokenCacheExpiration := parseInt64 v\<rparr>)),
     (''MqttPublishAuthOnly'', Some (cfg\<lparr>MqttPublishAuthOnly := parseBool v\<rparr>)),
     (''StartupDelay'', Some (cfg\<lparr>StartupDelay := parseInt64 v\<rparr>)),
     (''Log'', Some (cfg\<lparr>Log := v\<rparr>)),
     (''WebhookTimeout'', Some (cfg\<lparr>WebhookTimeout := parseInt64 v\<rparr>)),
     (''Validate'', Some (cfg\<lparr>Validate := parseBool v\<rparr>)),
     (''ValidateAllowUnknownField'', Some (cfg\<lparr>ValidateAllowUnknownField := parseBool v\<rparr>)),
     (''ValidateAllowMissingField'', Some (cfg\<lparr>ValidateAllowMissingField := parseBool v\<rparr>)),
     (''FogHandlerTopicPrefix'', Some (cfg\<lparr>FogHandlerTopicPrefix := v\<rparr>)),
     (''HealthTopic'', Some (cfg\<lparr>HealthTopic := v\<rparr>)),
     (''GatewayHealthTopic'', Some (cfg\<lparr>GatewayHealthTopic := v\<rparr>)),
     (''HealthHubCheckCacheDuration'', Some (cfg\<lparr>HealthHubCheckCacheDuration := v\<rparr>)),
     (''HealthMaxPayloadSize'', Some (cfg\<lparr>HealthMaxPayloadSize := parseInt64 v\<rparr>)),
     (''KafkaPartitionNum'', Some (cfg\<lparr>KafkaPartitionNum := parseInt64 v\<rparr>)),
     (''KafkaReplicationFactor'', Some (cfg\<lparr>KafkaReplicationFactor := parseInt64 v\<rparr>)),
     (''ForceCleanSession'', Some (cfg\<lparr>ForceCleanSession := parseBool v\<rparr>)),
     (''CleanSessionAllowUserList'', Some (cfg\<lparr>CleanSessionAllowUserList := splitTrim v\<rparr>)),
     (''PublishToPostgres'', Some (cfg\<lparr>PublishToPostgres := parseBool v\<rparr>)),
     (''PostgresHost'', Some (cfg\<lparr>PostgresHost := v\<rparr>)),
     (''PostgresPort'', Some (cfg\<lparr>PostgresPort := parseInt64 v\<rparr>)),
     (''PostgresUser'', Some (cfg\<lparr>PostgresUser := v\<rparr>)),
     (''PostgresPw'', Some (cfg\<lparr>PostgresPw := v\<rparr>)),
     (''PostgresDb'', Some (cfg\<lparr>PostgresDb := v\<rparr>)),
     (''HttpCommandConsumerPort'', Some (cfg\<lparr>HttpCommandConsumerPort := v\<rparr>)),
     (''AsyncPgThreadMax'', Some (cfg\<lparr>AsyncPgThreadMax := parseInt64 v\<rparr>)),
     (''AsyncFlushMessages'', Some (cfg\<lparr>AsyncFlushMessages := parseInt64 v\<rparr>)),
     (''AsyncFlushFrequency'', Some (cfg\<lparr>AsyncFlushFrequency := v\<rparr>)),
     (''AsyncCompression'', Some (cfg\<lparr>AsyncCompression := v\<rparr>)),
     (''SyncCompression'', Some (cfg\<lparr>SyncCompression := v\<rparr>)),
     (''KafkaConsumerMaxWait'', Some (cfg\<lparr>KafkaConsumerMaxWait := v\<rparr>)),
     (''KafkaConsumerMinBytes'', Some (cfg\<lparr>KafkaConsumerMinBytes := parseInt64 v\<rparr>)),
     (''KafkaConsumerMaxBytes'', Some (cfg\<lparr>KafkaConsumerMaxBytes := parseInt64 v\<rparr>)),
     (''IotCacheMaxIdleConns'', Some (cfg\<lparr>IotCacheMaxIdleConns := parseInt64 v\<rparr>)),
     (''CorrelationMaxIdleConns'', Some (cfg\<lparr>CorrelationMaxIdleConns := parseInt64 v\<rparr>)),
     (''IotCacheTimeout'', Some (cfg\<lparr>IotCacheTimeout := v\<rparr>)),
     (''CorrelationTimeout'', Some (cfg\<lparr>CorrelationTimeout := v\<rparr>)),
     (''CommandWorkerCount'', Some (cfg\<lparr>CommandWorkerCount := parseInt64 v\<rparr>)),
     (''DeviceTypeTopic'', Some (cfg\<lparr>DeviceTypeTopic := v\<rparr>)),
     (''NotificationUrl'', Some (cfg\<lparr>NotificationUrl := v\<rparr>)),
     (''PermissionsV2Url'', Some (cfg\<lparr>PermissionsV2Url := v\<rparr>)),
     (''NotificationsIgnoreDuplicatesWithinS'', Some (cfg\<lparr>NotificationsIgnoreDuplicatesWithinS := parseInt64 v\<rparr>)),
     (''NotificationUserOverwrite'', Some (cfg\<lparr>NotificationUserOverwrite := v\<rparr>)),
     (''DeveloperNotificationUrl'', Some (cfg\<lparr>DeveloperNotificationUrl := v\<rparr>)),
     (''MqttErrorOnEventValidationError'', Some (cfg\<lparr>MqttErrorOnEventValidationError := parseBool v\<rparr>)),
     (''KafkaTopicConfigs'', map_option (\<lambda>m. cfg\<lparr>KafkaTopicConfigs := m\<rparr>) (unmarshal (elDecodeTopics lib) v)),
     (''MqttAuthMethod'', Some (cfg\<lparr>MqttAuthMethod := v\<rparr>)),
     (''ConnectionLimitCount'', Some (cfg\<lparr>ConnectionLimitCount := parseInt64 v\<rparr>)),
     (''ConnectionLimitDurationInSeconds'', Some (cfg\<lparr>ConnectionLimitDurationInSeconds := parseInt64 v\<rparr>)),
     (''ForceCommandSubscriptionServiceSingleLevelWildcard'', Some (cfg\<lparr>ForceCommandSubscriptionServiceSingleLevelWildcard := parseBool v\<rparr>)),
     (''SecRemoteProtocol'', Some (cfg\<lparr>SecRemoteProtocol := v\<rparr>)),
     (''ForceTopicsWithOwner'', Some (cfg\<lparr>ForceTopicsWithOwner := parseBool v\<rparr>)),
     (''MutedUserNotificationTitles'', Some (cfg\<lparr>MutedUserNotificationTitles := splitTrim v\<rparr>)),
     (''ConnectionCheckUrl'', Some (cfg\<lparr>ConnectionCheckUrl := v\<rparr>)),
     (''ConnectionCheckHttpTimeout'', Some (cfg\<lparr>ConnectionCheckHttpTimeout := v\<rparr>)),
     (''ApiDocsProviderBaseUrl'', Some (cfg\<lparr>ApiDocsProviderBaseUrl := v\<rparr>)),
     (''VmqAdminApiUrl'', Some (cfg\<lparr>VmqAdminApiUrl := v\<rparr>)),
     (''DisconnectCommandDelay'', Some (cfg\<lparr>DisconnectCommandDelay := v\<rparr>)),
     (''InitTopics'', Some (cfg\<lparr>InitTopics := parseBool v\<rparr>)),
     (''NimbusDeviceTypeId'', Some (cfg\<lparr>NimbusDeviceTypeId := v\<rparr>)),
     (''WmbusDeviceTypeNamespace'', Some (cfg\<lparr>WmbusDeviceTypeNamespace := v\<rparr>)),
     (''WmbusDeviceClassId'', Some (cfg\<lparr>WmbusDeviceClassId := v\<rparr>)),
     (''SenergyProtocolId'', Some (cfg\<lparr>SenergyProtocolId := v\<rparr>)),
     (''SenergyProtoclSegment'', Some (cfg\<lparr>SenergyProtoclSegment := v\<rparr>)),
     (''WaitingRoomUrl'', Some (cfg\<lparr>WaitingRoomUrl := v\<rparr>)),
     (''WmbusmetersExecutable'', Some (cfg\<lparr>WmbusmetersExecutable := v\<rparr>)),
     (''WmbusmetersDriversDir'', Some (cfg\<lparr>WmbusmetersDriversDir := v\<rparr>)),
     (''LogLevel'', Some (cfg\<lparr>LogLevel := v\<rparr>))]"

lemma fieldTable_fields: "fieldTable lib v cfg = map (\<lambda>f. (cfName f, setField lib (cfKind f) v cfg)) configFields"
  by (simp add: fieldTable_def configFields_def plainField_def secretField_def setField_def)

text \<open>
  C33. When one environment variable is set, the one named after a field of the configuration, loading
  sets the field of this name, and no other, to its value: the text itself, the number, the truth value,
  the list between commas or the JSON map it reads as, by the type of the field.
\<close>

theorem environment_sets_own_field:
  assumes "(name, r) \<in> set (fieldTable lib v cfg)" and "v \<noteq> []"
  shows "HandleEnvironmentVars lib (\<lambda>n. if n = fieldNameToEnvName name then v else []) cfg = r"
proof -
  from assms(1) obtain f where "f \<in> set configFields" "name = cfName f" "r = setField lib (cfKind f) v cfg"
    by (auto simp: fieldTable_fields)
  with environment_sets_field [OF _ assms(2), of f lib cfg] show ?thesis by (simp add: envName_def)
qed

section \<open>What is printed\<close>

text \<open>
  No environment variable of a field tagged as a secret is printed: every line that is printed names
  a field without the tag, with the value of its own variable.
\<close>

lemma secret_names:
  "\<forall>n \<in> set (map cfName (filter cfSecret configFields)). fieldNameToEnvName n \<noteq> fieldNameToEnvName ''logger''"
  by (simp add: configFields_def plainField_def secretField_def) code_simp

lemma secrets_not_printed:
  assumes "(n, v) \<in> set (envLog env)" and "f \<in> set configFields" and "cfSecret f"
  shows "n \<noteq> fieldNameToEnvName (cfName f) \<and> v = env n"
proof -
  have logger: "fieldNameToEnvName (cfName f) \<noteq> fieldNameToEnvName ''logger''" using secret_names assms(2,3) by simp
  have v: "v = env n" using assms(1) by (auto simp: envLog_def)
  from assms(1) consider "n = fieldNameToEnvName ''logger''"
    | g where "n = fieldNameToEnvName (cfName g)" "g \<in> set configFields" "\<not> cfSecret g"
    by (auto simp: envLog_def split: if_splits)
  then show ?thesis
  proof cases
    case 1
    with logger v show ?thesis by simp
  next
    case (2 g)
    with assms(3) have "envName g \<noteq> envName f" using envNames_inj [OF 2(2) assms(2)] by blast
    with 2(1) v show ?thesis by (simp add: envName_def)
  qed
qed

section \<open>Examples\<close>

definition testEnvLib :: envLib where
  "testEnvLib = \<lparr>elParseFloat = \<lambda>s. s, elDecodeTopics = \<lambda>v. Some []\<rparr>"

theorem environment_sets_own_field_witness:
  "HandleEnvironmentVars testEnvLib (\<lambda>n. if n = ''MQTT_VERSION'' then ''5'' else []) emptyConfig =
     Some (emptyConfig\<lparr>MqttVersion := ''5''\<rparr>)"
proof -
  have "fieldNameToEnvName ''MqttVersion'' = ''MQTT_VERSION''" by code_simp
  then show ?thesis
    using environment_sets_own_field [of "''MqttVersion''" "Some (emptyConfig\<lparr>MqttVersion := ''5''\<rparr>)" testEnvLib "''5''" emptyConfig]
    by (simp add: fieldTable_def)
qed

end
