(* ===== verification/StartProperties.thy ===== *)
theory StartProperties
  imports ReplyProperties EnvTable
begin

text \<open>
  The start of the connector: the order in which the parts are built and started, the attempts to connect
  to the broker, and the topics nobody handles.
\<close>

section \<open>The order of the start\<close>

definition startCalls :: "'w startSys \<Rightarrow> 'w startSys \<Rightarrow> startCall list" where
  "startCalls s s' = drop (length (ssCalls s)) (ssCalls s')"

text \<open>The calls of one attempt, and how it came out: \<open>outcomes\<close> has one entry for every attempt that got to the broker.\<close>

definition mqttCall :: "startCall \<Rightarrow> bool" where
  "mqttCall c = (case c of SMqtt4 opts e \<Rightarrow> True | SMqtt5 opts e \<Rightarrow> True | SMqtt5Await t e \<Rightarrow> True
     | SOnDone j \<Rightarrow> True | SSleep d \<Rightarrow> True | _ \<Rightarrow> False)"

lemma mqttCall_sleep [simp]: "mqttCall (SSleep d)"
  by (simp add: mqttCall_def)

fun outcomes :: "startCall list \<Rightarrow> goerror option list" where
  "outcomes [] = []"
| "outcomes (c # cs) = (case c of
     SMqtt4 opts e \<Rightarrow> e # outcomes cs
   | SMqtt5 opts (Some e) \<Rightarrow> Some e # outcomes cs
   | SMqtt5Await t e \<Rightarrow> e # outcomes cs
   | _ \<Rightarrow> outcomes cs)"

lemma outcomes_append [simp]: "outcomes (xs @ ys) = outcomes xs @ outcomes ys"
  by (induction xs) (auto split: startCall.splits option.splits)

lemma MqttStart_calls:
  assumes "run_state (MqttStart lib cfg) s = (r, s')"
  shows "\<exists>cs. ssCalls s' = ssCalls s @ cs \<and> list_all mqttCall cs \<and>
    (outcomes cs = [r] \<or> outcomes cs = [] \<and> r \<noteq> None)"
  using assms
  by (auto simp: MqttStart_def Mqtt4Start_def Mqtt5Start_def io_simps mqttCall_def Let_def
      split: if_splits sum.splits prod.splits option.splits)

text \<open>The attempts: at most as many as are left, each after a failure, and success is the success of the last one.\<close>

lemma mqttAttempts_calls:
  "run_state (mqttAttempts lib cfg n err) s = (r, s') \<Longrightarrow> err \<noteq> None \<or> 0 < n \<Longrightarrow>
   \<exists>cs. ssCalls s' = ssCalls s @ cs \<and> list_all mqttCall cs \<and> length (outcomes cs) \<le> n \<and>
     None \<notin> set (butlast (outcomes cs)) \<and> (r = None \<longleftrightarrow> outcomes cs \<noteq> [] \<and> last (outcomes cs) = None)"
proof (induction n arbitrary: err s)
  case (Suc n)
  obtain r1 s1 where start: "run_state (MqttStart lib cfg) s = (r1, s1)" by (metis surj_pair)
  obtain ds where ds: "ssCalls s1 = ssCalls s @ ds" "list_all mqttCall ds"
      "outcomes ds = [r1] \<or> outcomes ds = [] \<and> r1 \<noteq> None"
    using MqttStart_calls [OF start] by blast
  show ?case
  proof (cases r1)
    case None
    with Suc.prems start ds show ?thesis by (auto simp: io_simps)
  next
    case (Some e)
    let ?sleep = "SSleep (5 * 10 ^ 9)"
    let ?s2 = "s1\<lparr>ssCalls := ssCalls s1 @ [?sleep]\<rparr>"
    from Suc.prems start Some have "run_state (mqttAttempts lib cfg n (Some e)) ?s2 = (r, s')"
      by (simp add: io_simps)
    from Suc.IH [OF this] obtain cs where cs: "ssCalls s' = ssCalls ?s2 @ cs" "list_all mqttCall cs"
      "length (outcomes cs) \<le> n" "None \<notin> set (butlast (outcomes cs))"
      "r = None \<longleftrightarrow> outcomes cs \<noteq> [] \<and> last (outcomes cs) = None" by auto
    with ds Some show ?thesis
      by (intro exI [of _ "ds @ ?sleep # cs"]) (auto simp: butlast_append)
  qed
qed (auto simp: io_simps)

text \<open>The calls that no attempt to build the parts makes.\<close>

definition serves :: "startCall \<Rightarrow> bool" where
  "serves c = (case c of SStartConsumer e \<Rightarrow> True | SWebhooks hs l \<Rightarrow> True | SSetCommands m \<Rightarrow> True
     | SMqtt4 opts e \<Rightarrow> True | SMqtt5 opts e \<Rightarrow> True | SMqtt5Await t e \<Rightarrow> True | _ \<Rightarrow> False)"

text \<open>The calls of a start that has built all parts, up to the webhooks, and those that depend on settings.\<close>

definition loggerCall :: "config \<Rightarrow> startCall" where
  "loggerCall cfg =
     (if ConnectionCheckUrl cfg \<noteq> []
      then SLoggerConnCheck (connCheckTimeout cfg) (ConnectionCheckUrl cfg) (DeviceLogTopic cfg) (GatewayLogTopic cfg) None
      else SLogger (DeviceLogTopic cfg) (GatewayLogTopic cfg) None)"

definition coreParts :: "config \<Rightarrow> int \<Rightarrow> startCall list" where
  "coreParts cfg flush =
     [SCorrelation (toInt32 (CorrelationExpiration cfg)) (CorrelationMaxIdleConns cfg) (correlationTimeout cfg)
        (StringToList (MemcachedUrl cfg)), SNew (libConfigOf cfg flush) None] @
     (if Debug cfg then [SCacheDebug] else []) @
     [SInitProducer None, SGetProducer (ConnectionLogQos cfg) None, loggerCall cfg, SMetrics None]"

definition limitPart :: "config \<Rightarrow> startCall list" where
  "limitPart cfg = (if 0 < ConnectionLimitCount cfg then [SConnectionLimit (ConnectionLimitCount cfg)
     (toInt32 (ConnectionLimitDurationInSeconds cfg)) (StringToList (MemcachedUrl cfg))] else [])"

definition startDelay :: "config \<Rightarrow> startCall list" where
  "startDelay cfg = (if StartupDelay cfg \<noteq> 0 then [SSleep (StartupDelay cfg * 10 ^ 9)] else [])"

definition commandMode :: "config \<Rightarrow> commandMode" where
  "commandMode cfg = (if 1 < CommandWorkerCount cfg then QueuedCommands (CommandWorkerCount cfg) else DirectCommands)"

text \<open>
  The attempts to connect, and what follows on them when the start comes out as \<open>e\<close>: the consumer after
  an attempt that succeeded, the last one, and otherwise nothing.
\<close>

definition attempted :: "config \<Rightarrow> goerror option \<Rightarrow> startCall list \<Rightarrow> bool" where
  "attempted cfg e cs \<longleftrightarrow> (\<exists>ms post. cs = ms @ post \<and> list_all mqttCall ms \<and>
     length (outcomes ms) \<le> 10 \<and> None \<notin> set (butlast (outcomes ms)) \<and>
     (if outcomes ms \<noteq> [] \<and> last (outcomes ms) = None then post = [SSetCommands (commandMode cfg), SStartConsumer e]
      else e \<noteq> None \<and> post = []))"

lemma startServing_calls:
  assumes "run_state (startServing lib cfg hs) s = (r, s')"
  shows "\<exists>cs. ssCalls s' = ssCalls s @ limitPart cfg @
    SWebhooks hs (0 < ConnectionLimitCount cfg) # startDelay cfg @ cs \<and> attempted cfg r cs"
proof -
  let ?web = "SWebhooks hs (0 < ConnectionLimitCount cfg)"
  let ?s1 = "s\<lparr>ssCalls := ssCalls s @ limitPart cfg @ ?web # startDelay cfg\<rparr>"
  obtain m s2 where att: "run_state (mqttAttempts lib cfg 10 None) ?s1 = (m, s2)" by (metis surj_pair)
  from mqttAttempts_calls [OF this] obtain cs where cs: "ssCalls s2 = ssCalls ?s1 @ cs" "list_all mqttCall cs"
    "length (outcomes cs) \<le> 10" "None \<notin> set (butlast (outcomes cs))"
    "m = None \<longleftrightarrow> outcomes cs \<noteq> [] \<and> last (outcomes cs) = None" by auto
  have rest: "run_state (case m of Some e \<Rightarrow> ret (Some e) | None \<Rightarrow> do {
       _ \<leftarrow> sNote (SSetCommands (commandMode cfg));
       sCall (slStartConsumer lib) (\<lambda>e. [SStartConsumer e]) }) s2 = (r, s')"
    using assms att unfolding commandMode_def
    by (simp add: startServing_def io_simps Let_def startDelay_def limitPart_def split: if_splits)
  obtain post where post: "ssCalls s' = ssCalls s2 @ post"
    "if m = None then post = [SSetCommands (commandMode cfg), SStartConsumer r] else r \<noteq> None \<and> post = []"
    using rest by (cases m) (auto simp: io_simps split: prod.splits)
  have "attempted cfg r (cs @ post)"
    unfolding attempted_def using cs post(2)
    by (intro exI [of _ cs] exI [of _ post]) (auto split: if_splits)
  then show ?thesis using cs(1) post(1) by (intro exI [of _ "cs @ post"]) simp
qed

text \<open>
  A start either ends while it builds the parts, without having opened the webhooks, or has built all of
  them, without an error, and goes on to the webhooks.
\<close>

definition stopped :: "'w startSys \<Rightarrow> 'w startSys \<Rightarrow> startResult \<Rightarrow> bool" where
  "stopped s s' r \<longleftrightarrow> r \<noteq> Started \<and> (\<exists>pre. ssCalls s' = ssCalls s @ pre \<and> list_all (\<lambda>c. \<not> serves c) pre)"

definition goesOn ::
  "'w startLib \<Rightarrow> 'v connector \<Rightarrow> config \<Rightarrow> waitingRoom \<Rightarrow> 'w startSys \<Rightarrow> 'w startSys \<Rightarrow> startResult \<Rightarrow> bool" where
  "goesOn lib cn cfg wr s s' r \<longleftrightarrow> (\<exists>flush ev hs e s1. parseDuration (AsyncFlushFrequency cfg) = Inr flush \<and>
     newEventHandler cfg cn wr = Some ev \<and> startHandlers cfg ev = Inr hs \<and>
     ssCalls s1 = ssCalls s @ coreParts cfg flush \<and>
     run_state (startServing lib cfg hs) s1 = (e, s') \<and> r = finishStart e)"

lemma goesOnI:
  assumes "run_state (startServing lib cfg hs) s1 = (e, s')" "parseDuration (AsyncFlushFrequency cfg) = Inr flush"
    "newEventHandler cfg cn wr = Some ev" "startHandlers cfg ev = Inr hs" "ssCalls s1 = ssCalls s @ coreParts cfg flush"
  shows "goesOn lib cn cfg wr s s' (finishStart e)"
  unfolding goesOn_def using assms by blast

lemma Start_cases:
  assumes "run_state (Start lib cn cfg0 wr) s = (r, s')"
  shows "stopped s s' r \<or> goesOn lib cn (loggerLevel cfg0) wr s s' r"
proof -
  let ?cfg = "loggerLevel cfg0"
  show ?thesis
  proof (cases "parseDuration (AsyncFlushFrequency ?cfg)")
    case (Inl e)
    with assms show ?thesis by (auto simp: Start_def io_simps Let_def stopped_def)
  next
    case (Inr flush)
    have "goesOn lib cn ?cfg wr s s' r" if "\<not> stopped s s' r"
      using assms that Inr
      by (auto simp: Start_def startLogger_def NewMetrics_def io_simps Let_def serves_def stopped_def coreParts_def
          loggerCall_def split: sum.splits option.splits if_splits prod.splits intro!: goesOnI)
    then show ?thesis by blast
  qed
qed

lemma no_consumer:
  "SStartConsumer e \<notin> set (coreParts cfg flush)" "SStartConsumer e \<notin> set (limitPart cfg)"
  "SStartConsumer e \<notin> set (startDelay cfg)"
  "outcomes (coreParts cfg flush) = []" "outcomes (limitPart cfg) = []" "outcomes (startDelay cfg) = []"
  by (simp_all add: coreParts_def limitPart_def startDelay_def loggerCall_def)

lemma not_serves: "list_all (\<lambda>c. \<not> serves c) pre \<Longrightarrow> outcomes pre = [] \<and> SStartConsumer e \<notin> set pre \<and> \<not> list_ex serves pre"
  by (induction pre) (auto simp: serves_def split: startCall.splits option.splits)

lemma not_mqttCall: "list_all mqttCall ms \<Longrightarrow> SStartConsumer e \<notin> set ms"
  by (induction ms) (auto simp: mqttCall_def)

lemma attempted_consumer:
  assumes "attempted cfg e cs"
  shows "length (outcomes cs) \<le> 10" "SStartConsumer None \<in> set cs \<longleftrightarrow> e = None"
    "SStartConsumer x \<in> set cs \<Longrightarrow> \<exists>ms. cs = ms @ [SSetCommands (commandMode cfg), SStartConsumer x] \<and>
       list_all mqttCall ms \<and> outcomes ms \<noteq> [] \<and> last (outcomes ms) = None \<and> None \<notin> set (butlast (outcomes ms))"
proof -
  from assms obtain ms post where ms: "cs = ms @ post" "list_all mqttCall ms" "length (outcomes ms) \<le> 10"
    "None \<notin> set (butlast (outcomes ms))"
    and post: "if outcomes ms \<noteq> [] \<and> last (outcomes ms) = None then post = [SSetCommands (commandMode cfg), SStartConsumer e]
      else e \<noteq> None \<and> post = []" unfolding attempted_def by blast
  show "length (outcomes cs) \<le> 10" "SStartConsumer None \<in> set cs \<longleftrightarrow> e = None"
    using ms(1,3) post not_mqttCall [OF ms(2)] by (auto split: if_splits)
  assume "SStartConsumer x \<in> set cs"
  with ms(1) post not_mqttCall [OF ms(2)] have "outcomes ms \<noteq> [] \<and> last (outcomes ms) = None"
    "post = [SSetCommands (commandMode cfg), SStartConsumer x]" by (auto split: if_splits)
  with ms(1,2,4) show "\<exists>ms. cs = ms @ [SSetCommands (commandMode cfg), SStartConsumer x] \<and>
     list_all mqttCall ms \<and> outcomes ms \<noteq> [] \<and> last (outcomes ms) = None \<and> None \<notin> set (butlast (outcomes ms))"
    by blast
qed

text \<open>
  C13. The connector opens its webhooks, and whatever comes after them, only when it has built all of its parts
  without an error and in this order: the correlation store, the library's connector, the producers, the
  connection log, the metrics, the handlers, and the connection limit if there is one. It starts to
  consume commands as its last step, after the start delay and the last of at most ten attempts to connect
  to the broker, the first that succeeded, and once the way commands are handled is set. The start
  succeeds exactly when the consumer does.
\<close>

theorem start_order:
  assumes "run_state (Start lib cn cfg0 wr) s = (r, s')" and "cfg = loggerLevel cfg0"
  shows "(r = Started \<longleftrightarrow> SStartConsumer None \<in> set (startCalls s s')) \<and>
    length (outcomes (startCalls s s')) \<le> 10 \<and>
    (list_ex serves (startCalls s s') \<longrightarrow>
      (\<exists>flush ev hs cs. parseDuration (AsyncFlushFrequency cfg) = Inr flush \<and>
        newEventHandler cfg cn wr = Some ev \<and> startHandlers cfg ev = Inr hs \<and>
        startCalls s s' = coreParts cfg flush @ limitPart cfg @
          SWebhooks hs (0 < ConnectionLimitCount cfg) # startDelay cfg @ cs \<and>
        (\<forall>e. SStartConsumer e \<in> set (startCalls s s') \<longrightarrow>
          (\<exists>ms. cs = ms @ [SSetCommands (commandMode cfg), SStartConsumer e] \<and> list_all mqttCall ms \<and>
            outcomes ms \<noteq> [] \<and> last (outcomes ms) = None \<and> None \<notin> set (butlast (outcomes ms))))))"
  using Start_cases [OF assms(1)] unfolding assms(2) [symmetric]
proof
  assume "stopped s s' r"
  then obtain pre where "r \<noteq> Started" "startCalls s s' = pre" "list_all (\<lambda>c. \<not> serves c) pre"
    by (auto simp: stopped_def startCalls_def)
  with not_serves [of pre] show ?thesis by simp
next
  assume "goesOn lib cn cfg wr s s' r"
  then obtain flush ev hs e s1 where parts: "parseDuration (AsyncFlushFrequency cfg) = Inr flush"
    "newEventHandler cfg cn wr = Some ev" "startHandlers cfg ev = Inr hs" "ssCalls s1 = ssCalls s @ coreParts cfg flush"
    and run: "run_state (startServing lib cfg hs) s1 = (e, s')" and r: "r = finishStart e"
    unfolding goesOn_def by blast
  from startServing_calls [OF run] parts(4) obtain cs where
    calls: "startCalls s s' = coreParts cfg flush @ limitPart cfg @
      SWebhooks hs (0 < ConnectionLimitCount cfg) # startDelay cfg @ cs" and cs: "attempted cfg e cs"
    by (auto simp: startCalls_def)
  note att = attempted_consumer [OF cs]
  have in_cs: "SStartConsumer x \<in> set (startCalls s s') \<longleftrightarrow> SStartConsumer x \<in> set cs" for x
    using no_consumer by (simp add: calls)
  have "r = Started \<longleftrightarrow> SStartConsumer None \<in> set (startCalls s s')"
    using att(2) r by (simp add: in_cs finishStart_def split: option.splits)
  moreover have "length (outcomes (startCalls s s')) \<le> 10" using att(1) by (simp add: calls no_consumer)
  ultimately show ?thesis using parts(1-3) calls att(3) unfolding in_cs by blast
qed

section \<open>Connection managers of version 5\<close>

text \<open>
  The attempts of version 5: the address of the broker cannot be read, no connection manager is opened,
  or one is opened and waited for.
\<close>

datatype attempt5 = NoBroker goerror | NotOpened mqtt5Options goerror | Waited mqtt5Options "goerror option"

fun attemptResult :: "attempt5 \<Rightarrow> goerror option" where
  "attemptResult (NoBroker e) = Some e"
| "attemptResult (NotOpened opts e) = Some e"
| "attemptResult (Waited opts r) = r"

fun attemptCalls :: "attempt5 \<Rightarrow> startCall list" where
  "attemptCalls (NoBroker e) = []"
| "attemptCalls (NotOpened opts e) = [SMqtt5 opts (Some e)]"
| "attemptCalls (Waited opts r) =
     [SMqtt5 opts None, SOnDone (Disconnect5 (10 * 10 ^ 9)), SMqtt5Await (60 * 10 ^ 9) r]"


definition loopCalls :: "attempt5 list \<Rightarrow> startCall list" where
  "loopCalls as = concat (map (\<lambda>a. attemptCalls a @
     (if attemptResult a = None then [] else [SSleep (5 * 10 ^ 9)])) as)"

lemma loopCalls_simps [simp]: "loopCalls [] = []" "loopCalls (a # as) = attemptCalls a @
    (if attemptResult a = None then [] else [SSleep (5 * 10 ^ 9)]) @ loopCalls as"
  by (simp_all add: loopCalls_def)

lemma shutdownJobs_append [simp]: "shutdownJobs (xs @ ys) = shutdownJobs xs @ shutdownJobs ys"
  by (induction xs) (auto split: startCall.splits)





section \<open>Topics nobody handles\<close>

definition kindPrefix :: "handlerKind \<Rightarrow> string" where
  "kindPrefix k = (case k of EventK ev \<Rightarrow> ''event'' | ResponseK \<Rightarrow> ''response'' | CommandK \<Rightarrow> ''command''
     | ProcessK \<Rightarrow> ''processes/'' | ExportK \<Rightarrow> ''export'' | NotificationsK \<Rightarrow> ''notifications'' | ErrorK \<Rightarrow> ''error''
     | FogK f \<Rightarrow> fogTopicPrefix f | HealthK h \<Rightarrow> hcTopic (hhConfig h))"

lemma handlerOf_foreign:
  "\<not> hasPrefix t (kindPrefix k) \<Longrightarrow>
     run_state (hPublish (handlerOf cfg cn upstream syncQos k) c u t p q z) s = ((Unhandled, None), s)"
  "\<not> hasPrefix t (kindPrefix k) \<Longrightarrow>
     run_state (hSubscribe (handlerOf cfg cn upstream syncQos k) c u t) s = ((Unhandled, None), s)"
  by (cases k; simp add: handlerOf_def kindPrefix_def eventH.publish_foreign responseH.publish_foreign
      commandH.publish_foreign processH.publish_foreign exportH.publish_foreign notificationsH.publish_foreign
      errorH.publish_foreign fogH.publish_foreign healthH.publish_foreign)
    (cases k; simp add: handlerOf_def kindPrefix_def eventH.subscribe_foreign responseH.subscribe_foreign
      commandH.subscribe_foreign processH.subscribe_foreign exportH.subscribe_foreign notificationsH.subscribe_foreign
      errorH.subscribe_foreign fogH.subscribe_foreign healthH.subscribe_foreign)

definition topicPrefixes :: "config \<Rightarrow> string list" where
  "topicPrefixes cfg = [''event'', ''response'', ''command'', ''processes/'', ''export'', ''notifications'', ''error''] @
     (if FogHandlerTopicPrefix cfg \<noteq> [] \<and> FogHandlerTopicPrefix cfg \<noteq> ''-'' then [FogHandlerTopicPrefix cfg] else []) @
     (if Enabled (HealthTopic cfg) then [HealthTopic cfg] else [])"

lemma startHandlers_prefixes: "startHandlers cfg ev = Inr ks \<Longrightarrow> map kindPrefix ks = topicPrefixes cfg"
  by (auto simp: startHandlers_def Let_def topicPrefixes_def kindPrefix_def NewFromConfig_def newHealth_def
      split: if_splits sum.splits)

text \<open>
  C36. The handlers that the connector starts are for the prefixes of events, responses, commands, processes,
  exports, notifications and errors, and for the fog prefix and the health topic when these are switched
  on. A topic that begins with none of them is refused: no handler makes a call for it; a subscription
  is rejected with the error that no handler was found, and a message is answered with the redirect to
  the ignored topic and the notification of its client, for the same reason.
\<close>

theorem foreign_topic_refused:
  assumes "startHandlers cfg ev = Inr ks" and "\<forall>p \<in> set (topicPrefixes cfg). \<not> hasPrefix (pbTopic msg) p"
  shows "map kindPrefix ks = topicPrefixes cfg \<and>
    run_state (HandleTopicSubscribe c u (pbTopic msg) (map (handlerOf cfg cn upstream syncQos) ks)) s =
      ((Rejected, Some noHandlerError), s) \<and>
    run_state (publishLoop cn lc msg payload sz (map (handlerOf cfg cn upstream syncQos) ks)) s =
      run_state (sendIgnoreRedirectAndNotification cn lc (pbUsername msg) (pbClientId msg) (pbTopic msg) noTopicHandler) s"
proof -
  note prefixes = startHandlers_prefixes [OF assms(1)]
  with assms(2) have "\<forall>k \<in> set ks. \<not> hasPrefix (pbTopic msg) (kindPrefix k)"
    by (metis image_eqI list.set_map)
  then have "run_state (HandleTopicSubscribe c u (pbTopic msg) (map (handlerOf cfg cn upstream syncQos) ks)) s =
      ((Rejected, Some noHandlerError), s) \<and>
    run_state (publishLoop cn lc msg payload sz (map (handlerOf cfg cn upstream syncQos) ks)) s =
      run_state (sendIgnoreRedirectAndNotification cn lc (pbUsername msg) (pbClientId msg) (pbTopic msg) noTopicHandler) s"
    by (induction ks) (simp_all add: run_state_bind handlerOf_foreign)
  with prefixes show ?thesis by blast
qed

section \<open>Examples\<close>

definition testStart :: "unit startLib" where
  "testStart = \<lparr>slNew = \<lambda>c w. (None, w), slInitProducer = \<lambda>w. (None, w), slGetProducer = \<lambda>q w. (None, w),
     slLoggerConnCheck = \<lambda>t u d g w. (None, w), slLogger = \<lambda>d g w. (None, w), slRegister = \<lambda>w. (RegOk, w),
     slUuid = \<lambda>w. (''uuid'', w), slParseUrl = \<lambda>u. Inr u, slMqtt4Connect = \<lambda>opts w. (None, w),
     slMqtt5Open = \<lambda>opts w. (None, w),
     slMqtt5Await = \<lambda>t w. (None, w), slStartConsumer = \<lambda>w. (None, w),
     slPutDoc = \<lambda>u n d w. (None, w), slAsyncDoc = []\<rparr>"

definition startConfig :: config where
  "startConfig = testConfig\<lparr>LogLevel := ''info''\<rparr>"

lemma startConfig_fields:
  "loggerLevel startConfig = startConfig" "AsyncFlushFrequency startConfig = ''1s''" "MqttVersion startConfig = []"
  "CommandWorkerCount startConfig = 0" "ConnectionLimitCount startConfig = 0" "StartupDelay startConfig = 0"
  by (simp_all add: startConfig_def loggerLevel_def testConfig_def emptyConfig_def)

lemma startConfig_handlers: "\<exists>hs. startHandlers startConfig ev = Inr hs"
  by (simp add: startHandlers_def startConfig_def NewFromConfig_def newHealth_def Enabled_def Let_def test_simps
      parseDuration_examples)

lemma testStart_connects:
  "run_state (mqttAttempts testStart startConfig 10 None) s =
     (None, s\<lparr>ssCalls := ssCalls s @ [SMqtt4 (mqtt4OptionsOf startConfig ''uuid'') None, SOnDone (Disconnect4 0)]\<rparr>)"
proof -
  have ten: "10 = Suc 9" by simp
  show ?thesis unfolding ten mqttAttempts.simps(2)
    by (simp add: MqttStart_def Mqtt4Start_def io_simps Let_def testStart_def startConfig_fields)
qed

lemma testStart_run:
  obtains s' where "run_state (Start testStart testConn startConfig TestWaitingRoom) \<lparr>ssWorld = (), ssCalls = []\<rparr> = (Started, s')"
    "SStartConsumer None \<in> set (startCalls \<lparr>ssWorld = (), ssCalls = []\<rparr> s')"
proof -
  obtain ev where ev: "newEventHandler startConfig testConn TestWaitingRoom = Some ev"
    by (simp add: newEventHandler_def test_simps)
  obtain hs where hs: "startHandlers startConfig ev = Inr hs" using startConfig_handlers by blast
  have fields: "slNew testStart c u = (None, u)" "slInitProducer testStart u = (None, u)" "slGetProducer testStart q u = (None, u)"
    "slLoggerConnCheck testStart t a d g u = (None, u)" "slLogger testStart d g u = (None, u)"
    "slRegister testStart u = (RegOk, u)" "slStartConsumer testStart u = (None, u)" for c q t a d g u
    by (simp_all add: testStart_def)
  show ?thesis
    by (rule that [of "snd (run_state (Start testStart testConn startConfig TestWaitingRoom) \<lparr>ssWorld = (), ssCalls = []\<rparr>)"])
      (simp_all add: Start_def startServing_def startLogger_def NewMetrics_def metricsErr_def finishStart_def io_simps Let_def
        fields startConfig_fields parseDuration_examples ev hs testStart_connects startCalls_def)
qed

theorem start_order_witness:
  "\<exists>s'. run_state (Start testStart testConn startConfig TestWaitingRoom) \<lparr>ssWorld = (), ssCalls = []\<rparr> = (Started, s') \<and>
     (\<exists>flush hs ms. startCalls \<lparr>ssWorld = (), ssCalls = []\<rparr> s' =
       coreParts startConfig flush @ [SWebhooks hs False] @ ms @ [SSetCommands DirectCommands, SStartConsumer None] \<and>
       outcomes ms \<noteq> [] \<and> last (outcomes ms) = None)"
proof -
  let ?s = "\<lparr>ssWorld = (), ssCalls = []\<rparr>"
  obtain s' where run: "run_state (Start testStart testConn startConfig TestWaitingRoom) ?s = (Started, s')"
    and consumer: "SStartConsumer None \<in> set (startCalls ?s s')" by (rule testStart_run)
  then have "list_ex serves (startCalls ?s s')" by (auto simp: list_ex_iff serves_def intro!: bexI)
  with start_order [OF run startConfig_fields(1) [symmetric]] consumer obtain flush hs ms where
    "startCalls ?s s' = coreParts startConfig flush @ limitPart startConfig @ SWebhooks hs False # startDelay startConfig @
      ms @ [SSetCommands (commandMode startConfig), SStartConsumer None]" "outcomes ms \<noteq> []" "last (outcomes ms) = None"
    by (auto simp: startConfig_fields)
  with run show ?thesis
    by (intro exI [of _ s'] conjI exI [of _ flush] exI [of _ hs] exI [of _ ms])
      (simp_all add: limitPart_def startDelay_def commandMode_def startConfig_fields)
qed



theorem foreign_topic_refused_witness:
  "\<exists>ks. startHandlers testConfig testEvent = Inr ks \<and>
     run_state (HandleTopicSubscribe ''c'' ''u'' ''other/topic'' (map (handlerOf testConfig testConn ''up'' 1) ks)) s0 =
       ((Rejected, Some noHandlerError), s0)"
proof -
  obtain ks where ks: "startHandlers testConfig testEvent = Inr ks"
    by (auto simp: startHandlers_def testConfig_health Enabled_def Let_def test_simps)
  let ?msg = "emptyPublishMsg\<lparr>pbTopic := ''other/topic''\<rparr>"
  have "\<forall>p \<in> set (topicPrefixes testConfig). \<not> hasPrefix (pbTopic ?msg) p"
    by (simp add: topicPrefixes_def test_simps)
  from foreign_topic_refused [OF ks this, where c = "''c''" and u = "''u''" and cn = testConn and upstream = "''up''"
      and syncQos = 1 and s = s0] ks show ?thesis by simp
qed

end
