(* ===== verification/EndToEnd.thy ===== *)
theory EndToEnd
  imports ReplyProperties HandlerProperties CommandProperties
begin

text \<open>
  Properties that span components: what a request to the publish or subscribe webhook can lead to,
  through the list of handlers that the connector starts with, and how a command and its response find
  each other through the correlation store.
\<close>

section \<open>Calls on the strength of other calls\<close>

text \<open>
  \<open>grounded P m\<close>: every call \<open>m\<close> makes is justified by \<open>P\<close> from the calls of the same run. Closed under
  sequences when more calls never take a justification away.
\<close>

definition grounded :: "(call set \<Rightarrow> call \<Rightarrow> bool) \<Rightarrow> ('w, 'a) io \<Rightarrow> bool" where
  "grounded P m \<longleftrightarrow> (\<forall>s a s'. run_state m s = (a, s') \<longrightarrow>
     extends s s' \<and> (\<forall>c \<in> set (newCalls s s'). P (set (newCalls s s')) c))"

named_theorems grounded_intros \<open>the justification of calls, construct by construct\<close>

lemma groundedD: "grounded P m \<Longrightarrow> run_state m s = (a, s') \<Longrightarrow> c \<in> set (newCalls s s') \<Longrightarrow> P (set (newCalls s s')) c"
  unfolding grounded_def by blast

lemma grounded_emits: "emits Q m \<Longrightarrow> (\<And>C c. Q c \<Longrightarrow> P C c) \<Longrightarrow> grounded P m"
  unfolding grounded_def emits_def by blast

lemma grounded_bind [grounded_intros]:
  assumes "stable P" "grounded P m" "\<And>a. grounded P (f a)"
  shows "grounded P (State_Monad.bind m f)"
  unfolding grounded_def
proof (intro allI impI)
  fix s b s''
  assume "run_state (State_Monad.bind m f) s = (b, s'')"
  then obtain a s' where r: "run_state m s = (a, s')" "run_state (f a) s' = (b, s'')"
    by (auto simp: io_simps split: prod.splits)
  have e: "extends s s'" "extends s' s''" using assms(2,3) r unfolding grounded_def by blast+
  have via: "set (newCalls s s'') = set (newCalls s s') \<union> set (newCalls s' s'')" by (rule newCalls_via [OF e])
  have "P (set (newCalls s s'')) c" if "c \<in> set (newCalls s s'')" for c
    using that groundedD [OF assms(2) r(1)] groundedD [OF assms(3) r(2)] assms(1)
    unfolding via stable_def by blast
  then show "extends s s'' \<and> (\<forall>c \<in> set (newCalls s s''). P (set (newCalls s s'')) c)"
    using extends_trans [OF e] by blast
qed

lemma grounded_result [grounded_intros]:
  "grounded P A \<Longrightarrow> grounded P R \<Longrightarrow> grounded P E \<Longrightarrow> grounded P U \<Longrightarrow> (\<And>i. grounded P (X i)) \<Longrightarrow>
   grounded P (case r of Accepted \<Rightarrow> A | Rejected \<Rightarrow> R | Error \<Rightarrow> E | Unhandled \<Rightarrow> U | UnknownResult i \<Rightarrow> X i)"
  by (cases r) simp_all

lemma grounded_option: "grounded P m \<Longrightarrow> (\<And>a. grounded P (k a)) \<Longrightarrow>
    grounded P (case y of None \<Rightarrow> m | Some a \<Rightarrow> k a)"
  by (cases y) simp_all

lemma grounded_prod: "(\<And>a b. grounded P (h a b)) \<Longrightarrow> grounded P (case z of (a, b) \<Rightarrow> h a b)"
  by (cases z) simp

section \<open>What replies call\<close>

definition replyCall :: "call \<Rightarrow> bool" where
  "replyCall c = (case c of CStat x \<Rightarrow> True | CRange x \<Rightarrow> True | CUserId u x \<Rightarrow> True | CClientError u i m \<Rightarrow> True
     | _ \<Rightarrow> False)"

lemma emits_writes [emits_intros]:
  "emits P (writeBody t)" "emits P (sendError m)" "emits P sendOk" "emits P (sendIgnoreRedirect t m)"
  "emits P (sendSubscriptionResult ok rej)" "emits P readCache" "emits P (writeCache k)"
  by (simp_all add: emits_def sendError_def sendJson_def sendOk_def sendIgnoreRedirect_def sendSubscriptionResult_def
      io_simps extends_def newCalls_def)

lemma emits_replies [emits_intros]:
  "emits replyCall (sendIgnoreRedirectAndNotification cn lc user c t m)"
  "emits replyCall (callStat cn x)"
  unfolding sendIgnoreRedirectAndNotification_def
  by (intro emits_intros; simp add: replyCall_def)+

lemma emits_errorTextOr [emits_intros]: "(\<And>t. emits P (f t)) \<Longrightarrow> emits P (errorTextOr err f)"
  unfolding errorTextOr_def by (intro emits_intros)

text \<open>Replies need no justification.\<close>

definition repliesFree :: "(call set \<Rightarrow> call \<Rightarrow> bool) \<Rightarrow> bool" where
  "repliesFree P \<longleftrightarrow> (\<forall>C c. replyCall c \<longrightarrow> P C c)"

lemma grounded_replies: "repliesFree P \<Longrightarrow> emits replyCall m \<Longrightarrow> grounded P m"
  by (erule grounded_emits) (simp add: repliesFree_def)

section \<open>The loops of the webhooks\<close>

lemma grounded_publishLoop:
  assumes "stable P" "repliesFree P"
    and "\<forall>h \<in> set hs. grounded P (hPublish h (pbClientId msg) (pbUsername msg) (pbTopic msg) payload (pbQos msg) sz)"
  shows "grounded P (publishLoop cn lc msg payload sz hs)"
  using assms(3)
proof (induction hs)
  case (Cons h hs)
  have rest: "grounded P (publishLoop cn lc msg payload sz hs)" using Cons by simp
  have "grounded P sendOk" "grounded P (callStat cn (SourceReceiveHandled sz (pbUsername msg)))"
    "grounded P (errorTextOr err (\<lambda>t. sendIgnoreRedirectAndNotification cn lc (pbUsername msg) (pbClientId msg) (pbTopic msg) t))"
    "grounded P (errorTextOr err sendError)" for err
    by (intro grounded_replies [OF assms(2)] emits_intros)+
  with rest Cons.prems show ?case unfolding publishLoop.simps
    by (intro grounded_bind [OF assms(1)] grounded_prod grounded_intros) simp_all
qed (simp, intro grounded_replies [OF assms(2)] emits_intros)

lemma grounded_HandleTopicSubscribe:
  assumes "stable P" "\<forall>h \<in> set hs. grounded P (hSubscribe h c u t)"
  shows "grounded P (HandleTopicSubscribe c u t hs)"
  using assms(2)
proof (induction hs)
  case (Cons h hs)
  have "grounded P (ret x)" for x :: "result \<times> goerror option" by (simp add: grounded_def)
  with Cons show ?case unfolding HandleTopicSubscribe.simps
    by (intro grounded_bind [OF assms(1)] grounded_prod grounded_option grounded_intros) simp_all
qed (simp add: grounded_def)

lemma grounded_subscribeLoop:
  assumes "stable P" "repliesFree P"
    and "\<forall>t \<in> set ts. \<forall>h \<in> set hs. grounded P (hSubscribe h (sbClientId msg) (sbUsername msg) (prepareTopic (wtTopic t)))"
  shows "grounded P (subscribeLoop hs msg ok rejected ts)"
  using assms(3)
proof (induction ts arbitrary: ok rejected)
  case (Cons t ts)
  have "grounded P (HandleTopicSubscribe (sbClientId msg) (sbUsername msg) (prepareTopic (wtTopic t)) hs)"
    using Cons.prems by (intro grounded_HandleTopicSubscribe assms(1)) simp
  moreover have "grounded P (errorTextOr err sendError)" for err
    by (intro grounded_replies [OF assms(2)] emits_intros)
  ultimately show ?case unfolding subscribeLoop.simps
    using Cons by (intro grounded_bind [OF assms(1)] grounded_prod grounded_intros) simp_all
qed (simp, intro grounded_replies [OF assms(2)] emits_intros)

section \<open>Events reach the platform only for those who may send them\<close>

text \<open>What justifies the event call \<open>c\<close> when a client publishes a payload to a topic; other calls need nothing.\<close>

definition justifiedEvent ::
  "config \<Rightarrow> 'w connector \<Rightarrow> string \<Rightarrow> string \<Rightarrow> string \<Rightarrow> string \<Rightarrow> int \<Rightarrow> call set \<Rightarrow> call \<Rightarrow> bool" where
  "justifiedEvent cfg cn c u t p q C ce = (case ce of
     CDeviceEvent k d' sv' ev' q' y \<Rightarrow>
       q' = q \<and> \<not> MqttPublishAuthOnly cfg \<and> CToken u (Inr k) \<in> C \<and>
       (\<exists>ow d sv event. ParseTopic t = Inr (TopicParts ''event'' ow d sv) \<and>
         (ForceTopicsWithOwner cfg \<longrightarrow> ow \<noteq> []) \<and> ownerAllowed cn k ow \<and>
         unmarshal decodeStringMap p = Some event \<and>
         (CheckHub cfg \<longrightarrow> (\<exists>h. CGetHub c k (Inr h) \<in> C \<and> d \<in> set (hubDeviceLocalIds h))) \<and>
         (\<not> CheckHub cfg \<longrightarrow> (\<exists>dev dt. CDevice k d (Inr dev) \<in> C \<and>
            CDeviceType k (devTypeId dev) (Inr dt) \<in> C \<and> (\<exists>v \<in> set (dtServices dt). svLocalId v = sv))) \<and>
         (d' = d \<and> sv' = sv \<and> ev' = event \<or>
            (\<exists>dev. CDevice k d (Inr dev) \<in> C \<and> devTypeId dev = NimbusDeviceTypeId cfg) \<and>
            telegramEvent cfg cn k event q C ce))
   | _ \<Rightarrow> True)"

lemma justifiedEvent_closed: "stable (justifiedEvent cfg cn c u t p q)" "repliesFree (justifiedEvent cfg cn c u t p q)"
  unfolding stable_def repliesFree_def
proof (intro allI impI)
  fix C D ce assume "justifiedEvent cfg cn c u t p q C ce" "C \<subseteq> D"
  moreover from this(2) have "telegramEvent cfg cn k event q C ce \<Longrightarrow> telegramEvent cfg cn k event q D ce" for k event
    using telegramEvent_stable unfolding stable_def by blast
  ultimately show "justifiedEvent cfg cn c u t p q D ce"
    unfolding justifiedEvent_def by (cases ce) (simp_all, blast)
qed (auto simp: justifiedEvent_def replyCall_def split: call.splits)

lemma justifiedEvent_noEvent: "noEvent ce \<Longrightarrow> justifiedEvent cfg cn c u t p q C ce"
  by (cases ce) (auto simp: justifiedEvent_def noEvent_def)

lemma grounded_noEvent: "emits noEvent m \<Longrightarrow> grounded (justifiedEvent cfg cn c u t p q) m"
  by (erule grounded_emits) (rule justifiedEvent_noEvent)

text \<open>The handlers other than the one of events send none.\<close>

lemma noEvent_errorDispatch: "emits noEvent (errorDispatch cfg cn c token ps p)"
  unfolding errorDispatch_def handleGeneralError_def handleDeviceErr_def handleCommandError_def Let_def
  by (intro emits_intros; simp add: noEvent_def)

lemma noEvent_isAccessibleHub: "emits noEvent (isAccessibleHub cn u h k)"
  unfolding isAccessibleHub_def by (intro emits_intros; simp add: noEvent_def)

lemma noEvent_others:
  "emits noEvent (responsePublish cfg cn c u t p q z)"
  "emits noEvent (checkTopicAccess cn c u t)"
  "emits noEvent (errorPublish cfg cn c u t p q z)"
  "emits noEvent (fogPublish cn upstream f c u t p q z)"
  "emits noEvent (healthPublish cn syncQos this c u t p q z)"
  unfolding responsePublish_def checkTopicAccess_def errorPublish_def fogPublish_def healthPublish_def healthForward_def
    Let_def case_topicParts
  by (intro emits_intros noEvent_checks noEvent_errorDispatch noEvent_isAccessibleHub; simp add: noEvent_def)+

lemma grounded_eventPublish: "grounded (justifiedEvent cfg cn c u t p q) (eventPublish cfg cn this c u t p q z)"
  unfolding grounded_def
proof (intro allI impI conjI ballI)
  fix s a s' ce assume run: "run_state (eventPublish cfg cn this c u t p q z) s = (a, s')"
  from eventH.publish_frame [of cfg cn this c u t p q z s a s'] run show "extends s s'" by (simp add: eventHandler_def)
  assume ce: "ce \<in> set (newCalls s s')"
  show "justifiedEvent cfg cn c u t p q (set (newCalls s s')) ce"
  proof (cases "noEvent ce")
    case False
    then obtain k d sv ev q' y where c: "ce = CDeviceEvent k d sv ev q' y" by (auto simp: noEvent_def)
    from eventPublish_authorised [OF run ce [unfolded c]] show ?thesis unfolding c justifiedEvent_def call.simps .
  qed (rule justifiedEvent_noEvent)
qed

lemma grounded_handlerOf:
  "grounded (justifiedEvent cfg cn c u t p q) (hPublish (handlerOf cfg cn upstream syncQos k) c u t p q z)"
proof (cases k)
  case (EventK ev)
  then show ?thesis using grounded_eventPublish by (simp add: handlerOf_def eventHandler_def)
qed (simp_all add: handlerOf_def responseHandler_def commandHandler_def commandPublish_def processHandler_def
    processPublish_def exportHandler_def exportPublish_def notificationsHandler_def notificationsPublish_def
    errorHandler_def fogHandler_def healthHandlerOf_def grounded_noEvent noEvent_others emits_ret)

text \<open>A request that is not answered at once runs the handlers.\<close>

lemma publish_cases:
  obtains (reply) "\<And>P. emits P (publish cfg cn lc hs rq)"
  | (loop) msg payload where "unmarshal decodePublish (rqBody rq) = Some msg" "b64Decode (pbPayload msg) = Inr payload"
      "publish cfg cn lc hs rq = do {
         _ \<leftarrow> callStat cn (SourceReceive (length (rqBody rq)) (pbUsername msg));
         publishLoop cn lc msg payload (length (rqBody rq)) hs
       }"
proof (cases "rqReadErr rq")
  case None
  show ?thesis
  proof (cases "unmarshal decodePublish (rqBody rq)")
    case (Some msg)
    with None show ?thesis
      by (cases "pbUsername msg = AuthClientId cfg"; cases "b64Decode (pbPayload msg)")
        (auto simp: publish_def emits_writes intro: loop reply)
  qed (use None in \<open>auto simp: publish_def emits_writes intro: reply\<close>)
qed (auto simp: publish_def emits_writes intro: reply)

text \<open>
  C1. Every event that a message to the publish webhook leads to, through whatever handlers are started, was
  sent with the token of the user who published it; when the topic names an owner, this token is the
  owner's or an administrator's; the device is in the hub that is the client, or the service is one of
  the device's type, whichever check is on. The event is the published one itself, for device and service
  of the topic; or the device of the topic is a nimbus, the published event carries a telegram, and the
  event is the one of the metering device that the telegram identifies, which the platform returned to
  this token, with what wmbusmeters decoded this telegram to (nothing when the last key was wrong).
\<close>

theorem publish_event_authorised:
  assumes "run_state (publish cfg cn lc (map (handlerOf cfg cn upstream syncQos) ks) rq) s = (x, s')"
    and "CDeviceEvent k d' sv' ev' q' y \<in> set (newCalls s s')"
  shows "\<exists>msg payload ow d sv event. unmarshal decodePublish (rqBody rq) = Some msg \<and>
    b64Decode (pbPayload msg) = Inr payload \<and> q' = pbQos msg \<and> \<not> MqttPublishAuthOnly cfg \<and>
    CToken (pbUsername msg) (Inr k) \<in> set (newCalls s s') \<and>
    ParseTopic (pbTopic msg) = Inr (TopicParts ''event'' ow d sv) \<and>
    (ForceTopicsWithOwner cfg \<longrightarrow> ow \<noteq> []) \<and>
    (ow \<noteq> [] \<longrightarrow> (\<exists>jwt. jwtParse cn k = Inr jwt \<and> (jwtIsAdmin jwt \<or> jwtUserId jwt = ow))) \<and>
    unmarshal decodeStringMap payload = Some event \<and>
    (CheckHub cfg \<longrightarrow> (\<exists>h. CGetHub (pbClientId msg) k (Inr h) \<in> set (newCalls s s') \<and> d \<in> set (hubDeviceLocalIds h))) \<and>
    (\<not> CheckHub cfg \<longrightarrow> (\<exists>dev dt. CDevice k d (Inr dev) \<in> set (newCalls s s') \<and>
       CDeviceType k (devTypeId dev) (Inr dt) \<in> set (newCalls s s') \<and> (\<exists>v \<in> set (dtServices dt). svLocalId v = sv))) \<and>
    (d' = d \<and> sv' = sv \<and> ev' = event \<or>
     sv' = ''decrypted'' \<and>
       (\<exists>dev. CDevice k d (Inr dev) \<in> set (newCalls s s') \<and> devTypeId dev = NimbusDeviceTypeId cfg) \<and>
       (\<exists>data tele dec dev. event ''data'' = Some data \<and> decodeEncrypted cn data = Inr tele \<and>
          localDeviceId tele = Inr d' \<and> CDevice k d' (Inr dev) \<in> set (newCalls s s') \<and>
          decodedFrom cfg cn tele (set (newCalls s s')) dec \<and> ev' = wmbusEvent dec event))"
proof -
  let ?hs = "map (handlerOf cfg cn upstream syncQos) ks"
  have no: False if "emits noEvent (publish cfg cn lc ?hs rq)"
    using emitsD [OF that assms] by (simp add: noEvent_def)
  obtain msg payload where msg: "unmarshal decodePublish (rqBody rq) = Some msg" "b64Decode (pbPayload msg) = Inr payload"
      "publish cfg cn lc ?hs rq = do {
         _ \<leftarrow> callStat cn (SourceReceive (length (rqBody rq)) (pbUsername msg));
         publishLoop cn lc msg payload (length (rqBody rq)) ?hs
       }"
    by (rule publish_cases [of cfg cn lc ?hs rq]) (use no in blast)+
  let ?P = "justifiedEvent cfg cn (pbClientId msg) (pbUsername msg) (pbTopic msg) payload (pbQos msg)"
  have "grounded ?P (publish cfg cn lc ?hs rq)"
    unfolding msg(3)
    by (intro grounded_bind justifiedEvent_closed grounded_replies emits_replies grounded_publishLoop)
      (simp add: grounded_handlerOf)
  from groundedD [OF this assms] msg(1,2) show ?thesis
    unfolding justifiedEvent_def telegramEvent_def ownerAllowed_iff call.simps by blast
qed

section \<open>Devices count as connected only through an authorised command subscription\<close>

definition justifiedConnect ::
  "config \<Rightarrow> 'w connector \<Rightarrow> string \<Rightarrow> string \<Rightarrow> string set \<Rightarrow> call set \<Rightarrow> call \<Rightarrow> bool" where
  "justifiedConnect cfg cn c u ts C ce = (case ce of
     CDeviceConnect i y \<Rightarrow> (\<exists>t \<in> ts. \<exists>ow d sv token dev. ParseTopic t = Inr (TopicParts ''command'' ow d sv) \<and>
       (ForceTopicsWithOwner cfg \<longrightarrow> ow \<noteq> []) \<and>
       (ForceCommandSubscriptionServiceSingleLevelWildcard cfg \<longrightarrow> sv = ''+'') \<and>
       CToken u (Inr token) \<in> C \<and> ownerAllowed cn token ow \<and> CDevice token d (Inr dev) \<in> C \<and> i = devId dev \<and>
       (CheckHub cfg \<longrightarrow> (\<exists>h. CGetHub c token (Inr h) \<in> C \<and> d \<in> set (hubDeviceLocalIds h))))
   | _ \<Rightarrow> True)"

lemma justifiedConnect_closed: "stable (justifiedConnect cfg cn c u ts)" "repliesFree (justifiedConnect cfg cn c u ts)"
  unfolding stable_def repliesFree_def
proof (intro allI impI)
  fix C D ce assume "justifiedConnect cfg cn c u ts C ce" "C \<subseteq> D"
  then show "justifiedConnect cfg cn c u ts D ce"
    unfolding justifiedConnect_def by (cases ce) (simp_all, blast)
qed (auto simp: justifiedConnect_def replyCall_def split: call.splits)

definition noConnect :: "call \<Rightarrow> bool" where
  "noConnect c \<longleftrightarrow> (\<forall>i x. c \<noteq> CDeviceConnect i x)"

lemma grounded_noConnect: "emits noConnect m \<Longrightarrow> grounded (justifiedConnect cfg cn c u ts) m"
  by (erule grounded_emits) (auto simp: justifiedConnect_def noConnect_def split: call.splits)

lemma noConnect_others:
  "emits noConnect (checkTopicAccess cn c u t)" "emits noConnect (exportSubscribe cn c u t)"
  "emits noConnect (notificationsSubscribe cn c u t)"
  "emits noConnect (fogSubscribe f c u t)" "emits noConnect (healthSubscribe this c u t)"
  unfolding checkTopicAccess_def exportSubscribe_def notificationsSubscribe_def fogSubscribe_def healthSubscribe_def
  by (intro emits_intros; simp add: noConnect_def split: list.split; intro emits_intros conjI allI impI;
      simp add: noConnect_def)+

lemma grounded_commandSubscribe:
  assumes "t \<in> ts"
  shows "grounded (justifiedConnect cfg cn c u ts) (commandSubscribe cfg cn c u t)"
  unfolding grounded_def
proof (intro allI impI conjI ballI)
  fix s a s' ce assume run: "run_state (commandSubscribe cfg cn c u t) s = (a, s')"
  from commandH.subscribe_frame [of cfg cn c u t s a s'] run show "extends s s'" by (simp add: commandHandler_def)
  assume ce: "ce \<in> set (newCalls s s')"
  show "justifiedConnect cfg cn c u ts (set (newCalls s s')) ce"
  proof (cases "noConnect ce")
    case False
    then obtain i y where i: "ce = CDeviceConnect i y" by (auto simp: noConnect_def)
    with ce have "CDeviceConnect i y \<in> set (newCalls s s')" by simp
    with run show ?thesis
      by (rule commandSubscribe_connects) (unfold i justifiedConnect_def call.simps, use assms in blast)
  qed (auto simp: justifiedConnect_def noConnect_def split: call.splits)
qed

lemma grounded_subscribeOf:
  assumes "t \<in> ts"
  shows "grounded (justifiedConnect cfg cn c u ts) (hSubscribe (handlerOf cfg cn upstream syncQos k) c u t)"
  using grounded_commandSubscribe [OF assms]
  by (cases k) (simp_all add: handlerOf_def eventHandler_def eventSubscribe_def responseHandler_def responseSubscribe_def
      commandHandler_def processHandler_def processSubscribe_def exportHandler_def notificationsHandler_def
      errorHandler_def errorSubscribe_def fogHandler_def healthHandlerOf_def grounded_noConnect noConnect_others emits_ret)

text \<open>
  C3. A request to the subscribe webhook logs a device as connected only for one of its topics that, below
  a shared subscription, is a command topic of this device: when the topic names an owner, the token of
  the subscriber is this owner's or an administrator's; the device was returned to this token, and, when
  the hub check is on, the client is a hub that holds the device.
\<close>

theorem subscribe_connects_authorised:
  assumes "run_state (subscribe cfg cn (map (handlerOf cfg cn upstream syncQos) ks) rq) s = (x, s')"
    and "CDeviceConnect i y \<in> set (newCalls s s')"
  shows "\<exists>msg t ow d sv token dev. decodeFirst decodeSubscribe (rqBody rq) = Some msg \<and> t \<in> set (sbTopics msg) \<and>
    ParseTopic (prepareTopic (wtTopic t)) = Inr (TopicParts ''command'' ow d sv) \<and>
    (ForceTopicsWithOwner cfg \<longrightarrow> ow \<noteq> []) \<and>
    (ForceCommandSubscriptionServiceSingleLevelWildcard cfg \<longrightarrow> sv = ''+'') \<and>
    CToken (sbUsername msg) (Inr token) \<in> set (newCalls s s') \<and>
    (ow \<noteq> [] \<longrightarrow> (\<exists>jwt. jwtParse cn token = Inr jwt \<and> (jwtIsAdmin jwt \<or> jwtUserId jwt = ow))) \<and>
    CDevice token d (Inr dev) \<in> set (newCalls s s') \<and> i = devId dev \<and>
    (CheckHub cfg \<longrightarrow>
      (\<exists>h. CGetHub (sbClientId msg) token (Inr h) \<in> set (newCalls s s') \<and> d \<in> set (hubDeviceLocalIds h)))"
proof -
  let ?hs = "map (handlerOf cfg cn upstream syncQos) ks"
  have no: False if "emits noConnect (subscribe cfg cn ?hs rq)"
    using emitsD [OF that assms] by (simp add: noConnect_def)
  then obtain msg where msg: "decodeFirst decodeSubscribe (rqBody rq) = Some msg"
    by (cases "decodeFirst decodeSubscribe (rqBody rq)") (auto simp: subscribe_def emits_writes)
  with no have loop: "subscribe cfg cn ?hs rq = subscribeLoop ?hs msg [] [] (sbTopics msg)"
    by (cases "sbUsername msg = AuthClientId cfg") (auto simp: subscribe_def emits_writes)
  let ?P = "justifiedConnect cfg cn (sbClientId msg) (sbUsername msg) ((\<lambda>t. prepareTopic (wtTopic t)) ` set (sbTopics msg))"
  have "grounded ?P (subscribe cfg cn ?hs rq)"
    unfolding loop by (intro grounded_subscribeLoop justifiedConnect_closed) (auto intro!: grounded_subscribeOf)
  from groundedD [OF this assms] msg show ?thesis
    unfolding justifiedConnect_def ownerAllowed_iff call.simps image_iff by blast
qed

section \<open>A command and its response\<close>










section \<open>Examples\<close>

definition testPublish :: json where
  "testPublish = JObj [(''username'', JStr ''u''), (''client_id'', JStr ''hub''), (''topic'', JStr ''event/d/srv''),
     (''payload'', JStr ''e30=''), (''qos'', JNum ''1'')]"

definition testPublishMsg :: publishMsg where
  "testPublishMsg = \<lparr>pbUsername = ''u'', pbClientId = ''hub'', pbTopic = ''event/d/srv'', pbPayload = ''e30='', pbQos = 1\<rparr>"

lemma testPublish_decoded: "unmarshal decodePublish (marshal testPublish) = Some testPublishMsg"
proof -
  have num: "numOk ''1''" by code_simp
  have "jsonOk maxNestingDepth testPublish" using num by (simp add: testPublish_def maxNestingDepth_def)
  from parse_marshal [OF this] have "parseJson (marshal testPublish) = Some (normJson testPublish)"
    by (simp add: parseJson_def)
  moreover have "normJson testPublish = testPublish" by (simp add: testPublish_def normUtf8_ascii)
  moreover have "decodePublish testPublish = Some testPublishMsg"
    unfolding testPublish_def testPublishMsg_def by code_simp
  ultimately show ?thesis by (simp add: unmarshal_def)
qed

lemma testPublish_payload: "b64Decode ''e30='' = Inr testPayload"
  unfolding testPayload_def by code_simp

definition testPublishRun :: "unit \<times> unit sys" where
  "testPublishRun = run_state (publish testConfig testConn (libConfigOf testConfig 1)
     (map (handlerOf testConfig testConn ''upstream'' 1) [ResponseK, EventK testEvent]) (testRequestOf testPublish)) s0"

lemma testPublishRun_calls:
  "CDeviceEvent ''token'' ''d'' ''srv'' Map.empty 1 (testInfo, None) \<in> set (newCalls s0 (snd testPublishRun))"
  unfolding testPublishRun_def publish_def testRequestOf_def webhookRequest.simps testPublish_decoded option.case
  by (simp add: testPublishMsg_def testPublish_payload handlerOf_def responseH.publish_foreign eventHandler_def
      eventPublish_def forwardEvent_def checkEvent_def io_simps ParseTopic_def checkOwner_def test_simps
      testPayload_decoded testDevice_def testDeviceType_def newCalls_def sendOk_def)

theorem publish_event_authorised_witness:
  "\<exists>msg. unmarshal decodePublish (marshal testPublish) = Some msg \<and>
     CToken (pbUsername msg) (Inr ''token'') \<in> set (newCalls s0 (snd testPublishRun))"
proof -
  have "run_state (publish testConfig testConn (libConfigOf testConfig 1)
     (map (handlerOf testConfig testConn ''upstream'' 1) [ResponseK, EventK testEvent]) (testRequestOf testPublish)) s0
      = (fst testPublishRun, snd testPublishRun)" by (simp only: testPublishRun_def prod.collapse)
  from publish_event_authorised [OF this testPublishRun_calls] show ?thesis by (auto simp: testRequestOf_def)
qed

definition testSubscribeRun :: "unit \<times> unit sys" where
  "testSubscribeRun = run_state (subscribe testConfig testConn
     (map (handlerOf testConfig testConn ''upstream'' 1) [ResponseK, CommandK]) (testRequestOf testSubscribe)) s0"

lemma testSubscribeRun_calls: "CDeviceConnect ''id:d'' None \<in> set (newCalls s0 (snd testSubscribeRun))"
  unfolding testSubscribeRun_def subscribe_def testRequestOf_def webhookRequest.simps testSubscribe_decoded option.case
  by (simp add: testSubscribeMsg_def handlerOf_def prepareTopic_def io_simps commandH.subscribe_foreign
      responseHandler_def responseSubscribe_def commandHandler_def commandSubscribe_def ParseTopic_def checkOwner_def
      test_simps newCalls_def sendSubscriptionResult_def sendJson_def testDevice_def)

theorem subscribe_connects_authorised_witness:
  "\<exists>token d dev. CDevice token d (Inr dev) \<in> set (newCalls s0 (snd testSubscribeRun)) \<and> ''id:d'' = devId dev"
proof -
  have run: "run_state (subscribe testConfig testConn (map (handlerOf testConfig testConn ''upstream'' 1) [ResponseK, CommandK])
      (testRequestOf testSubscribe)) s0 = (fst testSubscribeRun, snd testSubscribeRun)"
    by (simp only: testSubscribeRun_def prod.collapse)
  from subscribe_connects_authorised [OF run testSubscribeRun_calls] show ?thesis by blast
qed

text \<open>A platform whose store returns the request that the example command saves.\<close>

definition storedRequest :: protocolMsg where
  "storedRequest = testRequest\<lparr>pmTrace := [connectorTrace 1000]\<rparr>"

definition storeConn :: "unit connector" where
  "storeConn = testConn\<lparr>correlationGet := \<lambda>i w. (Inr storedRequest, w)\<rparr>"

lemma storeConn_fields [test_simps]:
  "correlationGet storeConn i w = (Inr storedRequest, w)" "timeNow storeConn = timeNow testConn"
  "correlationSave storeConn = correlationSave testConn" "mqttConnected storeConn = mqttConnected testConn"
  "mqttSend storeConn = mqttSend testConn" "decodeResponse storeConn = decodeResponse testConn"
  "getCachedUserToken storeConn = getCachedUserToken testConn" "jwtGetPayload storeConn = jwtGetPayload testConn"
  "jwtParse storeConn = jwtParse testConn" "handleCommandResponse storeConn = handleCommandResponse testConn"
  by (simp_all add: storeConn_def)







end
