(* ===== verification/AsyncApi.thy ===== *)
theory AsyncApi
  imports StartProperties
begin

text \<open>
  \<open>docs/asyncapi-gen/main.go\<close>, the program that writes \<open>docs/asyncapi.json\<close>, the document of the topics:
  the channels with their messages, and the program itself. The reflector, which adds a channel to the
  schema, and the marshalling are parameters. What the connector uploads when it starts is the file as it
  was embedded in the binary, the argument \<open>slAsyncDoc\<close> of \<open>Startup\<close>. A lemma compares the names of the
  documented MQTT topics with the prefixes of the handlers.
\<close>

section \<open>Channels\<close>

text \<open>The types whose JSON form is reflected; \<open>NoSample\<close> where the program gives none.\<close>

datatype sampleType =
    NoSample | OfText | OfEnvelope | OfProtocolMsg | OfDeviceTypeCommand | OfHubLog | OfGatewayHealthMessage
  | OfDeviceLog | OfRequestEnvelope | OfResponseEnvelope | OfEventMsg | OfHealthReport

record messageSample =
  msName :: string
  msTitle :: string
  msDescription :: string
  msSample :: sampleType

record channelInfo =
  chName :: string
  chServers :: "string list"
  chDescription :: string
  chSubscribe :: "messageSample option"
  chPublish :: "messageSample option"

definition sampleOf :: "string \<Rightarrow> sampleType \<Rightarrow> messageSample" where
  "sampleOf n t = \<lparr>msName = n, msTitle = n, msDescription = [], msSample = t\<rparr>"

definition emptySample :: messageSample where
  "emptySample = sampleOf [] NoSample"

definition kafkaChannels :: "config \<Rightarrow> channelInfo list" where
  "kafkaChannels cfg = [
     \<lparr>chName = ''[service-topic]'', chServers = [''kafka''],
      chDescription = ''[service-topic] is a service.Id with replaced '#' and ':' by '_'' @ [CHR 0x27],
      chSubscribe = Some (sampleOf ''Envelope'' OfEnvelope), chPublish = None\<rparr>,
     \<lparr>chName = KafkaResponseTopic cfg, chServers = [''kafka''],
      chDescription = ''may be configured by config.KafkaResponseTopic'',
      chSubscribe = Some (sampleOf ''ProtocolMsg'' OfProtocolMsg), chPublish = None\<rparr>,
     \<lparr>chName = Protocol cfg, chServers = [''kafka''],
      chDescription = ''may be configured by config.Protocol'',
      chSubscribe = None, chPublish = Some (sampleOf ''ProtocolMsg'' OfProtocolMsg)\<rparr>,
     \<lparr>chName = DeviceTypeTopic cfg, chServers = [''kafka''],
      chDescription = [],
      chSubscribe = None, chPublish = Some (sampleOf ''DeviceTypeCommand'' OfDeviceTypeCommand)\<rparr>,
     \<lparr>chName = GatewayLogTopic cfg, chServers = [''kafka''],
      chDescription = [],
      chSubscribe = Some (sampleOf ''HubLog'' OfHubLog), chPublish = None\<rparr>,
     \<lparr>chName = GatewayHealthTopic cfg, chServers = [''kafka''],
      chDescription = ''may be configured by config.GatewayHealthTopic; message key is the hub id'',
      chSubscribe = Some (sampleOf ''GatewayHealth'' OfGatewayHealthMessage), chPublish = None\<rparr>,
     \<lparr>chName = DeviceLogTopic cfg, chServers = [''kafka''],
      chDescription = [],
      chSubscribe = Some (sampleOf ''DeviceLog'' OfDeviceLog), chPublish = None\<rparr>]"

definition commandChannels :: "channelInfo list" where
  "commandChannels = [
     \<lparr>chName = ''command/[owner]/[device-local-id]/[service-local-id]'', chServers = [''mqtt''],
      chDescription = ''if config.ForceTopicsWithOwner==false -> topic = command/[device-local-id]/[service-local-id]'',
      chSubscribe = Some (sampleOf ''DeviceCommand'' OfRequestEnvelope), chPublish = None\<rparr>,
     \<lparr>chName = ''response/[owner]/[device-local-id]/[service-local-id]'', chServers = [''mqtt''],
      chDescription = ''technically not received by mqtt subscription. published mqtt messages will be received by '' @
        ''vernemqtt webhooks. if config.ForceTopicsWithOwner==false -> topic = '' @
        ''response/[device-local-id]/[service-local-id]'',
      chSubscribe = None, chPublish = Some (sampleOf ''CommandResponse'' OfResponseEnvelope)\<rparr>]"

definition accessChannels :: "channelInfo list" where
  "accessChannels = [
     \<lparr>chName = ''event/[owner]/[device-local-id]/[service-local-id]'', chServers = [''mqtt''],
      chDescription = ''technically not received by mqtt subscription. published mqtt messages will be received by '' @
        ''vernemqtt webhooks. if config.ForceTopicsWithOwner==false -> topic = '' @
        ''event/[device-local-id]/[service-local-id]'',
      chSubscribe = None, chPublish = Some \<lparr>msName = ''Event'', msTitle = ''Event'', msDescription =
        ''map of protocol-segment-name to raw payload. the payload is described in DeviceType.Service'', msSample = OfEventMsg\<rparr>\<rparr>,
     \<lparr>chName = ''processes/[hub-id]/[anything]'', chServers = [''mqtt''],
      chDescription = ''connector checks only access rights. real handling is performed by '' @
        ''github.com/SENERGY-Platform/process-sync. technically not received by mqtt subscription. published '' @
        ''mqtt messages will be received by vernemqtt webhooks.'',
      chSubscribe = None, chPublish = Some emptySample\<rparr>,
     \<lparr>chName = ''export/[user-id]/[anything]'', chServers = [''mqtt''],
      chDescription = ''connector checks only access rights. real handling is performed by other service. technically no '' @
        ''mqtt interaction but vernemqtt webhook. connector checks if user may subscribe to this topic.'',
      chSubscribe = Some emptySample, chPublish = None\<rparr>,
     \<lparr>chName = ''notifications/[user-id]/[anything]'', chServers = [''mqtt''],
      chDescription = ''connector checks only access rights. real handling is performed by other service. technically no '' @
        ''mqtt interaction but vernemqtt webhook. connector checks if user may subscribe to this topic.'',
      chSubscribe = Some emptySample, chPublish = None\<rparr>]"

definition errorChannels :: "channelInfo list" where
  "errorChannels = [
     \<lparr>chName = ''error'', chServers = [''mqtt''],
      chDescription = ''connector notifies user of the received error. technically no mqtt interaction but vernemqtt '' @
        ''webhook.'',
      chSubscribe = None, chPublish = Some (sampleOf ''Error-Message'' OfText)\<rparr>,
     \<lparr>chName = ''error/device/[local-device-id]'', chServers = [''mqtt''],
      chDescription = ''connector notifies user of the received error. technically no mqtt interaction but vernemqtt '' @
        ''webhook.'',
      chSubscribe = None, chPublish = Some (sampleOf ''Error-Message'' OfText)\<rparr>,
     \<lparr>chName = ''error/command/[correlation-id]'', chServers = [''mqtt''],
      chDescription = ''connector notifies user of the received error and sends a command response with '' @
        ''the error to kafka. technically no mqtt interaction but vernemqtt webhook.'',
      chSubscribe = None, chPublish = Some (sampleOf ''Error-Message'' OfText)\<rparr>,
     \<lparr>chName = ''error/device/[owner-id]/[local-device-id]'', chServers = [''mqtt''],
      chDescription = ''connector notifies user of the received error. technically no mqtt interaction but vernemqtt '' @
        ''webhook.'',
      chSubscribe = None, chPublish = Some (sampleOf ''Error-Message'' OfText)\<rparr>,
     \<lparr>chName = ''error/command/[owner-id]/[correlation-id]'', chServers = [''mqtt''],
      chDescription = ''connector notifies user of the received error and sends a command response with '' @
        ''the error to kafka. technically no mqtt interaction but vernemqtt webhook.'',
      chSubscribe = None, chPublish = Some (sampleOf ''Error-Message'' OfText)\<rparr>]"

definition optionalChannels :: "channelInfo list" where
  "optionalChannels = [
     \<lparr>chName = ''health'', chServers = [''mqtt''],
      chDescription = ''may be configured by config.HealthTopic, disabled by default. the client id must be a hub the user '' @
        ''may access; accepted reports are forwarded to config.GatewayHealthTopic. subscriptions are '' @
        ''rejected. technically not received by mqtt subscription. published mqtt messages will be received '' @
        ''by vernemqtt webhooks.'',
      chSubscribe = None, chPublish = Some (sampleOf ''HealthReport'' OfHealthReport)\<rparr>,
     \<lparr>chName = ''fog/analytics/[anything]'', chServers = [''mqtt''],
      chDescription = ''technically not received by mqtt subscription. published mqtt messages will be received by '' @
        ''vernemqtt webhooks.'',
      chSubscribe = None, chPublish = Some emptySample\<rparr>]"

definition asyncChannels :: "config \<Rightarrow> channelInfo list" where
  "asyncChannels cfg = kafkaChannels cfg @ commandChannels @ accessChannels @ errorChannels @ optionalChannels"

section \<open>The documented payloads\<close>

text \<open>A field of a struct as the reflector sees it: its JSON name, its Go type, its tags.\<close>

datatype schemaField =
  SchemaField (sfName: string) (sfType: string) (sfFormat: string) (sfDescription: string) (sfOmitEmpty: bool)

definition anyMap :: string where
  "anyMap = ''map[string]interface{}''"

definition envelopeFields :: "schemaField list" where
  "envelopeFields = [SchemaField ''device_id'' ''string'' [] [] True, SchemaField ''service_id'' ''string'' [] [] True,
     SchemaField ''value'' anyMap [] [] False]"

definition healthReportFields :: "schemaField list" where
  "healthReportFields = [SchemaField ''version'' ''int'' [] [] False, SchemaField ''time'' ''string'' ''date-time'' [] False,
     SchemaField ''state'' ''int'' [] ''0 undetermined, 1 healthy, 2 unhealthy'' False,
     SchemaField ''reasons'' ''[]string'' [] [] False,
     SchemaField ''core'' anyMap [] ''body of core-manager GET /health or null'' False,
     SchemaField ''core_error'' ''string'' [] [] False,
     SchemaField ''modules'' anyMap [] ''body of module-manager GET /health/deployments or null'' False,
     SchemaField ''modules_error'' ''string'' [] [] False]"

definition gatewayHealthFields :: "schemaField list" where
  "gatewayHealthFields = [SchemaField ''hub_id'' ''string'' [] [] False, SchemaField ''user_id'' ''string'' [] [] False,
     SchemaField ''time'' ''string'' ''date-time'' ''when the connector accepted the publish'' False,
     SchemaField ''report'' ''HealthReport'' [] [] False]"

section \<open>The program\<close>

record apiServer = asName :: string  asUrl :: string  asProtocol :: string

record 's apiDoc =
  adTitle :: string
  adDescription :: string
  adServers :: "apiServer list"
  adSchema :: 's

definition initialDoc :: "'s \<Rightarrow> config \<Rightarrow> 's apiDoc" where
  "initialDoc schema cfg = \<lparr>adTitle = ''Senergy-Platform-Connector'',
     adDescription = ''topics or parts of topics in '' @ [CHR 0x27] @ ''[]'' @ [CHR 0x27] @ '' are placeholders'',
     adServers = [\<lparr>asName = ''kafka'', asUrl = KafkaUrl cfg, asProtocol = ''kafka''\<rparr>,
       \<lparr>asName = ''mqtt'', asUrl = MqttBroker cfg, asProtocol = ''mqtt''\<rparr>],
     adSchema = schema\<rparr>"

text \<open>A failure of \<open>mustNotFail\<close> is a panic with the text of the error.\<close>

fun addChannels :: "('s \<Rightarrow> channelInfo \<Rightarrow> goerror + 's) \<Rightarrow> 's \<Rightarrow> channelInfo list \<Rightarrow> goerror + 's" where
  "addChannels add schema [] = Inr schema"
| "addChannels add schema (c # cs) = (case add schema c of
     Inl e \<Rightarrow> Inl e
   | Inr schema' \<Rightarrow> addChannels add schema' cs)"

datatype genResult = GenFatal goerror | GenCrash | GenPanic string | GenWritten

text \<open>
  What is printed, what is asked to be written, and how the program ends; \<open>write\<close> is the error of
  writing the file.
\<close>

definition writeDoc ::
  "('s apiDoc \<Rightarrow> goerror + string) \<Rightarrow> (string \<Rightarrow> string \<Rightarrow> goerror option) \<Rightarrow> 's apiDoc \<Rightarrow>
   string list \<times> (string \<times> string) list \<times> genResult" where
  "writeDoc toJson write doc = (case toJson doc of
     Inl e \<Rightarrow> ([], [], GenPanic (errText e))
   | Inr buff \<Rightarrow> ([buff], [(''asyncapi.json'', buff)],
       (case write ''asyncapi.json'' buff of None \<Rightarrow> GenWritten | Some e \<Rightarrow> GenPanic (errText e))))"

definition asyncapiMain ::
  "('s \<Rightarrow> channelInfo \<Rightarrow> goerror + 's) \<Rightarrow> ('s apiDoc \<Rightarrow> goerror + string) \<Rightarrow>
   (string \<Rightarrow> string \<Rightarrow> goerror option) \<Rightarrow> 's \<Rightarrow> loadResult \<Rightarrow>
   string list \<times> (string \<times> string) list \<times> genResult" where
  "asyncapiMain add toJson write schema loaded = (case loaded of
     LoadError e \<Rightarrow> ([], [], GenFatal e)
   | LoadCrash \<Rightarrow> ([], [], GenCrash)
   | Loaded cfg \<Rightarrow>
       (let doc = initialDoc schema cfg in case addChannels add (adSchema doc) (asyncChannels cfg) of
          Inl e \<Rightarrow> ([], [], GenPanic (errText e))
        | Inr schema' \<Rightarrow> writeDoc toJson write (doc\<lparr>adSchema := schema'\<rparr>)))"

section \<open>Documented topics are handled\<close>

lemma startHandlers_has:
  assumes "startHandlers cfg ev = Inr ks"
  shows "{EventK ev, ResponseK, CommandK, ProcessK, ExportK, NotificationsK, ErrorK} \<subseteq> set ks"
    and "FogHandlerTopicPrefix cfg \<noteq> [] \<Longrightarrow> FogHandlerTopicPrefix cfg \<noteq> ''-'' \<Longrightarrow>
      FogK \<lparr>fogTopicPrefix = FogHandlerTopicPrefix cfg\<rparr> \<in> set ks"
    and "Enabled (HealthTopic cfg) \<Longrightarrow> \<exists>k \<in> set ks. kindPrefix k = HealthTopic cfg"
  using assms
  by (auto simp: startHandlers_def Let_def kindPrefix_def NewFromConfig_def newHealth_def split: if_splits sum.splits)

lemma mqtt_channels:
  "ch \<in> set (asyncChannels cfg) \<Longrightarrow> chServers ch = [''mqtt''] \<Longrightarrow>
   (\<exists>p \<in> {''command'', ''response'', ''event'', ''processes/'', ''export'', ''notifications'', ''error''}. hasPrefix (chName ch) p) \<or>
   chName ch = ''health'' \<or> chName ch = ''fog/analytics/'' @ ''[anything]''"
  by (auto simp: asyncChannels_def kafkaChannels_def commandChannels_def accessChannels_def errorChannels_def
      optionalChannels_def)

text \<open>
  Every MQTT topic that the program documents begins with the prefix of a handler that is started, when
  the two that are optional are switched on under their documented names.
\<close>

lemma documented_topics_handled:
  assumes "startHandlers cfg ev = Inr ks" and "HealthTopic cfg = ''health''"
    and "hasPrefix ''fog/analytics/'' (FogHandlerTopicPrefix cfg)" and "FogHandlerTopicPrefix cfg \<noteq> []"
  shows "\<forall>ch \<in> set (asyncChannels cfg). chServers ch = [''mqtt''] \<longrightarrow>
    (\<exists>k \<in> set ks. hasPrefix (chName ch) (kindPrefix k))"
proof (intro ballI impI)
  fix ch assume ch: "ch \<in> set (asyncChannels cfg)" "chServers ch = [''mqtt'']"
  note has = startHandlers_has [OF assms(1)]
  have dash: "FogHandlerTopicPrefix cfg \<noteq> ''-''" using assms(3) by auto
  obtain t where t: "''fog/analytics/'' = FogHandlerTopicPrefix cfg @ t" using assms(3) by (auto simp only: hasPrefix_iff)
  from mqtt_channels [OF ch] consider
      (base) p where "p \<in> {''command'', ''response'', ''event'', ''processes/'', ''export'', ''notifications'', ''error''}"
        "hasPrefix (chName ch) p"
    | (health) "chName ch = ''health''" | (fog) "chName ch = ''fog/analytics/'' @ ''[anything]''" by blast
  then show "\<exists>k \<in> set ks. hasPrefix (chName ch) (kindPrefix k)"
  proof cases
    case (base p)
    have "p \<in> kindPrefix ` set ks"
      using base(1) image_mono [OF has(1), of kindPrefix] by (auto simp: kindPrefix_def)
    then show ?thesis using base(2) by auto
  next
    case health
    then obtain k where "k \<in> set ks" "kindPrefix k = chName ch" using has(3) assms(2) by (auto simp: Enabled_def)
    then show ?thesis by (intro bexI [of _ k]) simp_all
  next
    case fog
    have "hasPrefix (chName ch) (FogHandlerTopicPrefix cfg)"
      unfolding fog t hasPrefix_iff by (intro exI [of _ "t @ ''[anything]''"]) simp
    then show ?thesis using has(2) [OF assms(4) dash] by (intro bexI) (simp_all add: kindPrefix_def)
  qed
qed

end
