(* ===== verification/HubCheckSteps.thy ===== *)
theory HubCheckSteps
  imports HealthProperties
begin

text \<open>
  Health reports are checked by as many goroutines at once as there are requests, and they share the
  cache of hub checks. \<open>isAccessibleHub\<close> of \<open>lib/handler/health/handler.go\<close> as the steps of one goroutine
  between its uses of shared state: the lookup and the addition, each under the mutex, and the request
  to the hub service between them, during which others go on. The steps interleave in any order, and the
  times they read may too.
\<close>

section \<open>The steps\<close>

text \<open>Where a check stands; its user, client id and token stay the same.\<close>

datatype checkPhase = Entered | Asking | Adding | Checked "goerror + bool"

record hubCheck =
  chkUser :: string
  chkHub :: string
  chkToken :: string
  chkPhase :: checkPhase

text \<open>
  \<open>csConfirmed\<close> and \<open>csAdded\<close> are history: the hubs the service has shown to a token of a user, and what
  was put into the cache, with the time read for it.
\<close>

record checkSys =
  csCache :: hubCheckCache
  csChecks :: "hubCheck list"
  csConfirmed :: "(string \<times> string \<times> string) list"
  csAdded :: "(hubCheckKey \<times> int) list"

definition newChecks :: "hubCheckCache \<Rightarrow> checkSys" where
  "newChecks c = \<lparr>csCache = c, csChecks = [], csConfirmed = [], csAdded = []\<rparr>"

definition setPhase :: "nat \<Rightarrow> checkPhase \<Rightarrow> checkSys \<Rightarrow> checkSys" where
  "setPhase i p q = q\<lparr>csChecks := (csChecks q)[i := (csChecks q ! i)\<lparr>chkPhase := p\<rparr>]\<rparr>"

definition checkKey :: "hubCheck \<Rightarrow> hubCheckKey" where
  "checkKey k = (chkUser k, chkHub k)"

definition inPhase :: "checkSys \<Rightarrow> nat \<Rightarrow> checkPhase \<Rightarrow> hubCheck \<Rightarrow> bool" where
  "inPhase q i p k \<longleftrightarrow> i < length (csChecks q) \<and> csChecks q ! i = k \<and> chkPhase k = p"

datatype checkEvent =
    Arrives string string string | Looks nat int | Answered nat "bool \<times> goerror option" | Adds nat int

inductive hubStep :: "checkSys \<Rightarrow> checkEvent \<Rightarrow> checkSys \<Rightarrow> bool" where
  arrive: "hubStep q (Arrives u h t) (q\<lparr>csChecks := csChecks q @ [\<lparr>chkUser = u, chkHub = h, chkToken = t,
      chkPhase = (if badHubId h then Checked (Inr False) else Entered)\<rparr>]\<rparr>)"
| look: "inPhase q i Entered k \<Longrightarrow>
    hubStep q (Looks i now) (setPhase i (if cacheHas (csCache q) (checkKey k) now then Checked (Inr True) else Asking) q)"
| failed: "inPhase q i Asking k \<Longrightarrow> hubStep q (Answered i (b, Some e)) (setPhase i (Checked (Inl e)) q)"
| refused: "inPhase q i Asking k \<Longrightarrow> hubStep q (Answered i (False, None)) (setPhase i (Checked (Inr False)) q)"
| confirmed: "inPhase q i Asking k \<Longrightarrow> hubStep q (Answered i (True, None))
    ((setPhase i Adding q)\<lparr>csConfirmed := csConfirmed q @ [(chkUser k, chkHub k, chkToken k)]\<rparr>)"
| add: "inPhase q i Adding k \<Longrightarrow> hubStep q (Adds i now)
    ((setPhase i (Checked (Inr True)) q)\<lparr>csCache := cacheAdd (csCache q) (checkKey k) now,
       csAdded := csAdded q @ [(checkKey k, now)]\<rparr>)"

inductive hubSteps :: "checkSys \<Rightarrow> checkEvent list \<Rightarrow> checkSys \<Rightarrow> bool" where
  refl: "hubSteps q [] q"
| step: "hubSteps q es q' \<Longrightarrow> hubStep q' e q'' \<Longrightarrow> hubSteps q (es @ [e]) q''"

lemma setPhase_same [simp]: "(setPhase i p q)\<lparr>csConfirmed := csConfirmed q\<rparr> = setPhase i p q"
  by (simp add: setPhase_def)

section \<open>The invariant\<close>

lemma adds_append: "hcc.adds c (h @ h') = hcc.adds (hcc.adds c h) h'"
  by (induction c h rule: hcc.adds.induct) simp_all

definition confirmedFor :: "checkSys \<Rightarrow> hubCheckKey \<Rightarrow> bool" where
  "confirmedFor q k \<longleftrightarrow> (\<exists>t. (fst k, snd k, t) \<in> set (csConfirmed q))"

text \<open>What a check may rely on in its phase.\<close>

definition checkOk :: "checkSys \<Rightarrow> hubCheck \<Rightarrow> bool" where
  "checkOk q k \<longleftrightarrow> (chkPhase k \<noteq> Checked (Inr False) \<longrightarrow> \<not> badHubId (chkHub k)) \<and>
     (chkPhase k = Adding \<or> chkPhase k = Checked (Inr True) \<longrightarrow> confirmedFor q (checkKey k))"

definition checkInv :: "hubCheckCache \<Rightarrow> checkSys \<Rightarrow> bool" where
  "checkInv c q \<longleftrightarrow> csCache q = hcc.adds c (csAdded q) \<and>
     (\<forall>(k, t) \<in> set (csAdded q). confirmedFor q k) \<and> (\<forall>k \<in> set (csChecks q). checkOk q k)"

lemma confirmedFor_later: "confirmedFor q k \<Longrightarrow> set (csConfirmed q) \<subseteq> set (csConfirmed q') \<Longrightarrow> confirmedFor q' k"
  unfolding confirmedFor_def by blast

lemma checkOk_later: "checkOk q k \<Longrightarrow> set (csConfirmed q) \<subseteq> set (csConfirmed q') \<Longrightarrow> checkOk q' k"
  unfolding checkOk_def confirmedFor_def by blast

lemma inPhase_ok: "inPhase q i p k \<Longrightarrow> checkInv c q \<Longrightarrow> checkOk q k \<and> chkPhase k = p"
  unfolding inPhase_def checkInv_def by auto

text \<open>A step of one check changes its phase only; what the others rely on stays.\<close>

lemma setPhase_inv:
  assumes "checkInv c q" "inPhase q i p0 k" "p0 \<noteq> Checked (Inr False)"
    and "p = Adding \<or> p = Checked (Inr True) \<Longrightarrow> confirmedFor (q\<lparr>csConfirmed := cf\<rparr>) (checkKey k)"
    and "set (csConfirmed q) \<subseteq> set cf"
  shows "checkInv c ((setPhase i p q)\<lparr>csConfirmed := cf\<rparr>)"
proof -
  let ?q = "(setPhase i p q)\<lparr>csConfirmed := cf\<rparr>"
  have k: "csChecks q ! i = k" using assms(2) by (simp add: inPhase_def)
  have "checkOk ?q (k\<lparr>chkPhase := p\<rparr>)"
    using inPhase_ok [OF assms(2,1)] assms(3,4) by (auto simp: checkOk_def confirmedFor_def checkKey_def)
  moreover have "checkOk ?q k'" if "k' \<in> set (csChecks q)" for k'
    using that assms(1,5) checkOk_later [of q k' ?q] by (simp add: checkInv_def setPhase_def)
  ultimately have "\<forall>k' \<in> set (csChecks ?q). checkOk ?q k'"
    using set_update_subset_insert [of "csChecks q" i "k\<lparr>chkPhase := p\<rparr>"] k by (auto simp: setPhase_def)
  moreover have "\<forall>(k, t) \<in> set (csAdded q). confirmedFor ?q k"
    using assms(1,5) confirmedFor_later [of q _ ?q] by (fastforce simp: checkInv_def)
  ultimately show ?thesis using assms(1) by (simp add: checkInv_def setPhase_def)
qed

lemma cached_added:
  assumes "\<forall>k t. \<not> cacheHas c k t" "checkInv c q" "cacheHas (csCache q) k t"
  shows "\<exists>u. (k, u) \<in> set (csAdded q) \<and> t < u + duration c" "confirmedFor q k"
proof -
  have "cacheHas (hcc.adds c (csAdded q)) k t" using assms(2,3) by (simp add: checkInv_def)
  from hcc.has_fresh [OF assms(1) this] show added: "\<exists>u. (k, u) \<in> set (csAdded q) \<and> t < u + duration c" .
  then show "confirmedFor q k" using assms(2) by (fastforce simp: checkInv_def)
qed

lemma checkInv_step:
  assumes "\<forall>k t. \<not> cacheHas c k t" "hubStep q e q'" "checkInv c q"
  shows "checkInv c q'"
  using assms(2,3)
proof (induction rule: hubStep.induct)
  case (arrive q u h t)
  then show ?case by (auto simp: checkInv_def checkOk_def confirmedFor_def)
next
  case (look q i k now)
  have "confirmedFor q (checkKey k)" if "cacheHas (csCache q) (checkKey k) now"
    using that by (rule cached_added(2) [OF assms(1) look(2)])
  then show ?case
    using setPhase_inv [OF look(2,1), of "Checked (Inr True)" "csConfirmed q"]
      setPhase_inv [OF look(2,1), of Asking "csConfirmed q"] by simp
next
  case (failed q i k b e)
  then show ?case using setPhase_inv [of c q i Asking k "Checked (Inl e)" "csConfirmed q"] by simp
next
  case (refused q i k)
  then show ?case using setPhase_inv [of c q i Asking k "Checked (Inr False)" "csConfirmed q"] by simp
next
  case (confirmed q i k)
  let ?cf = "csConfirmed q @ [(chkUser k, chkHub k, chkToken k)]"
  have "confirmedFor (q\<lparr>csConfirmed := ?cf\<rparr>) (checkKey k)" by (auto simp: confirmedFor_def checkKey_def)
  then show ?case using setPhase_inv [OF confirmed(2,1), of Adding ?cf] by auto
next
  case (add q i k now)
  have conf: "confirmedFor q (checkKey k)" using inPhase_ok [OF add] by (simp add: checkOk_def)
  then have "checkInv c ((setPhase i (Checked (Inr True)) q)\<lparr>csConfirmed := csConfirmed q\<rparr>)"
    using setPhase_inv [OF add(2,1), of "Checked (Inr True)" "csConfirmed q"] by simp
  with conf show ?case by (auto simp: checkInv_def setPhase_def adds_append checkOk_def confirmedFor_def)
qed

lemma checkInv_steps:
  assumes "\<forall>k t. \<not> cacheHas c k t" "hubSteps (newChecks c) es q"
  shows "checkInv c q"
proof -
  have "checkInv c (newChecks c)" by (simp add: checkInv_def newChecks_def)
  from assms(2) this show ?thesis
  proof (induction "newChecks c" es q rule: hubSteps.induct)
    case (step es q' e q'')
    then show ?case using checkInv_step [OF assms(1)] by blast
  qed simp
qed

text \<open>
  C9. However many health reports are checked at the same time, and however their steps interleave: a check
  ends with yes only for a user to one of whose tokens the hub service has shown this very hub; what the
  cache answers was added less than its duration before, after such an answer; and the cache never holds
  more than its hundred thousand entries.
\<close>

theorem concurrent_hub_checks:
  assumes "NewFromConfig cfg = Inr (h, c)" and "hubSteps (newChecks c) es q"
  shows "(\<forall>k \<in> set (csChecks q). chkPhase k = Checked (Inr True) \<longrightarrow>
      chkHub k \<notin> {[], ''.'', ''..''} \<and> (\<exists>t. (chkUser k, chkHub k, t) \<in> set (csConfirmed q))) \<and>
    (cacheHas (csCache q) (u, hub) now \<longrightarrow>
      (\<exists>added. ((u, hub), added) \<in> set (csAdded q) \<and> now < added + hcDuration (hhConfig h)) \<and>
      (\<exists>t. (u, hub, t) \<in> set (csConfirmed q))) \<and>
    cacheSize (csCache q) \<le> 100000"
proof -
  note new = NewFromConfig_cache [OF assms(1)]
  have empty: "\<forall>k t. \<not> cacheHas c k t" using new by (simp add: newHubCheckCache_def cacheHas_def)
  have inv: "checkInv c q" by (rule checkInv_steps [OF empty assms(2)])
  have "withinMax c" "maxEntries c = 100000"
    using new withinMax_new [of 100000] by (auto simp: newHubCheckCache_def)
  with withinMax_adds [of c "csAdded q"] inv have size: "cacheSize (csCache q) \<le> 100000"
    by (simp add: withinMax_def checkInv_def)
  have "chkHub k \<notin> {[], ''.'', ''..''} \<and> (\<exists>t. (chkUser k, chkHub k, t) \<in> set (csConfirmed q))"
    if "k \<in> set (csChecks q)" "chkPhase k = Checked (Inr True)" for k
    using that inv by (auto simp: checkInv_def checkOk_def confirmedFor_def checkKey_def badHubId_def)
  moreover have "duration c = hcDuration (hhConfig h)" using new by (simp add: newHubCheckCache_def)
  ultimately show ?thesis
    using size cached_added [OF empty inv, of "(u, hub)" now] by (auto simp: confirmedFor_def)
qed

section \<open>The handler takes these steps\<close>

definition newCheck :: "checkSys \<Rightarrow> string \<Rightarrow> string \<Rightarrow> string \<Rightarrow> checkPhase \<Rightarrow> checkSys" where
  "newCheck q u h t p = q\<lparr>csChecks := csChecks q @ [\<lparr>chkUser = u, chkHub = h, chkToken = t, chkPhase = p\<rparr>]\<rparr>"

lemma newCheck_phase:
  "inPhase (newCheck q u h t p) (length (csChecks q)) p \<lparr>chkUser = u, chkHub = h, chkToken = t, chkPhase = p\<rparr>"
  by (simp add: inPhase_def newCheck_def)

lemma newCheck_simps [simp]:
  "setPhase (length (csChecks q)) p' (newCheck q u h t p) = newCheck q u h t p'"
  "csCache (newCheck q u h t p) = csCache q" "csConfirmed (newCheck q u h t p) = csConfirmed q"
  "csChecks (newCheck q u h t p) = csChecks q @ [\<lparr>chkUser = u, chkHub = h, chkToken = t, chkPhase = p\<rparr>]"
  "checkKey \<lparr>chkUser = u, chkHub = h, chkToken = t, chkPhase = p\<rparr> = (u, h)"
  by (simp_all add: setPhase_def newCheck_def checkKey_def)

text \<open>The calls that a step of a check of the hub \<open>h\<close> with the token \<open>k\<close> stands for, and whose step it is.\<close>

fun stepCalls :: "string \<Rightarrow> string \<Rightarrow> checkEvent \<Rightarrow> call list" where
  "stepCalls h k (Arrives u h' k') = []"
| "stepCalls h k (Looks i now) = [CNow now]"
| "stepCalls h k (Answered i answer) = [CExistsHub h k answer]"
| "stepCalls h k (Adds i now) = [CNow now]"

fun stepOf :: "nat \<Rightarrow> checkEvent \<Rightarrow> bool" where
  "stepOf n (Arrives u h k) = False"
| "stepOf n (Looks i now) = (i = n)"
| "stepOf n (Answered i answer) = (i = n)"
| "stepOf n (Adds i now) = (i = n)"

text \<open>
  C10. Run from any state of the other checks, the access check of the health handler
  does what a new check does that takes its steps one after the other, with the times that the handler
  read and the answers of the hub service that it got: its calls are the calls of these steps, it ends
  with the same answer and leaves the same cache.
\<close>

theorem hub_check_refines:
  assumes "run_state (isAccessibleHub cn u h k) s = (r, s')" and "csCache q = hubCache s"
  shows "\<exists>es q'. hubSteps q (Arrives u h k # es) q' \<and> list_all (stepOf (length (csChecks q))) es \<and>
    newCalls s s' = concat (map (stepCalls h k) es) \<and>
    csCache q' = hubCache s' \<and> butlast (csChecks q') = csChecks q \<and>
    last (csChecks q') = \<lparr>chkUser = u, chkHub = h, chkToken = k, chkPhase = Checked r\<rparr>"
proof -
  let ?new = "newCheck q u h k" and ?n = "length (csChecks q)"
  have start: "hubSteps q [Arrives u h k] (?new (if badHubId h then Checked (Inr False) else Entered))"
    using hubSteps.step [OF hubSteps.refl hubStep.arrive, of q u h k] by (simp add: newCheck_def)
  have asked: "hubSteps q [Arrives u h k, Looks ?n t]
      (?new (if cacheHas (csCache q) (u, h) t then Checked (Inr True) else Asking))" if "\<not> badHubId h" for t
    using hubSteps.step [OF start [unfolded if_not_P [OF that]] hubStep.look [OF newCheck_phase], of t] by simp
  have finish: ?thesis if "hubSteps q (Arrives u h k # es) q'" "list_all (stepOf ?n) es"
      "newCalls s s' = concat (map (stepCalls h k) es)" "csCache q' = hubCache s'"
      "csChecks q' = csChecks (?new (Checked r))" for es q'
    using that by (intro exI [of _ es] exI [of _ q']) simp
  show ?thesis
    using assms(1)
  proof (cases rule: isAccessibleHub_run)
    case empty
    with start assms(2) show ?thesis by (intro finish [of "[]" "?new (Checked r)"]) simp_all
  next
    case (cached t)
    with asked [of t] assms(2) show ?thesis by (intro finish [of "[Looks ?n t]" "?new (Checked r)"]) (simp_all add: newCalls_def)
  next
    case (failed t x e)
    with asked [of t] assms(2) have "hubSteps q [Arrives u h k, Looks ?n t] (?new Asking)" by simp
    from hubSteps.step [OF this hubStep.failed [OF newCheck_phase], of x e] failed assms(2) show ?thesis
      by (intro finish [of "[Looks ?n t, Answered ?n (x, Some e)]" "?new (Checked r)"]) (simp_all add: newCalls_def)
  next
    case (denied t)
    with asked [of t] assms(2) have "hubSteps q [Arrives u h k, Looks ?n t] (?new Asking)" by simp
    from hubSteps.step [OF this hubStep.refused [OF newCheck_phase]] denied assms(2) show ?thesis
      by (intro finish [of "[Looks ?n t, Answered ?n (False, None)]" "?new (Checked r)"]) (simp_all add: newCalls_def)
  next
    case (checked t t')
    with asked [of t] assms(2) have "hubSteps q [Arrives u h k, Looks ?n t] (?new Asking)" by simp
    note hubSteps.step [OF this hubStep.confirmed [OF newCheck_phase]]
    from hubSteps.step [OF this hubStep.add, of ?n "\<lparr>chkUser = u, chkHub = h, chkToken = k, chkPhase = Adding\<rparr>" t']
      checked assms(2) show ?thesis
      by (intro finish [of "[Looks ?n t, Answered ?n (True, None), Adds ?n t']"
            "(newCheck (q\<lparr>csConfirmed := csConfirmed q @ [(u, h, k)]\<rparr>) u h k (Checked (Inr True)))\<lparr>
               csCache := cacheAdd (csCache q) (u, h) t', csAdded := csAdded q @ [((u, h), t')]\<rparr>"])
        (simp_all add: inPhase_def setPhase_def newCheck_def checkKey_def newCalls_def)
  qed
qed

section \<open>Examples\<close>

text \<open>Two checks of one hub at once: the second looks while the first has asked the service, and both add.\<close>

definition testCheck :: "checkPhase \<Rightarrow> hubCheck" where
  "testCheck p = \<lparr>chkUser = ''u'', chkHub = ''hub'', chkToken = ''token'', chkPhase = p\<rparr>"

definition testChecks :: "hubCheckCache \<Rightarrow> checkPhase list \<Rightarrow> nat \<Rightarrow> (hubCheckKey \<times> int) list \<Rightarrow> checkSys" where
  "testChecks c ps n as = \<lparr>csCache = hcc.adds c as, csChecks = map testCheck ps,
     csConfirmed = replicate n (''u'', ''hub'', ''token''), csAdded = as\<rparr>"

lemma testChecks_steps:
  fixes d m :: int
  defines "c \<equiv> newHubCheckCache d m"
  shows "hubSteps (newChecks c) [Arrives ''u'' ''hub'' ''token'', Arrives ''u'' ''hub'' ''token'', Looks 0 5,
      Answered 0 (True, None), Looks 1 5, Adds 0 6, Answered 1 (True, None)]
    (testChecks c [Checked (Inr True), Adding] 2 [((''u'', ''hub''), 6)])"
proof -
  note step = hubSteps.step [rotated]
  have no: "\<not> cacheHas c k t" for k t by (simp add: c_def newHubCheckCache_def cacheHas_def)
  note simps = testChecks_def testCheck_def inPhase_def setPhase_def checkKey_def no newChecks_def badHubId_def adds_append
  have "hubSteps (newChecks c) [Arrives ''u'' ''hub'' ''token''] (testChecks c [Entered] 0 [])"
    using step [OF hubStep.arrive hubSteps.refl, of "newChecks c" "''u''" "''hub''" "''token''"] by (simp add: simps)
  from step [OF hubStep.arrive this, of "''u''" "''hub''" "''token''"]
  have "hubSteps (newChecks c) [Arrives ''u'' ''hub'' ''token'', Arrives ''u'' ''hub'' ''token'']
      (testChecks c [Entered, Entered] 0 [])" by (simp add: simps)
  from step [OF hubStep.look this, of 0 "testCheck Entered" 5]
  have "hubSteps (newChecks c) [Arrives ''u'' ''hub'' ''token'', Arrives ''u'' ''hub'' ''token'', Looks 0 5]
      (testChecks c [Asking, Entered] 0 [])" by (simp add: simps)
  from step [OF hubStep.confirmed this, of 0 "testCheck Asking"]
  have "hubSteps (newChecks c) [Arrives ''u'' ''hub'' ''token'', Arrives ''u'' ''hub'' ''token'', Looks 0 5,
      Answered 0 (True, None)] (testChecks c [Adding, Entered] 1 [])" by (simp add: simps)
  from step [OF hubStep.look this, of 1 "testCheck Entered" 5]
  have "hubSteps (newChecks c) [Arrives ''u'' ''hub'' ''token'', Arrives ''u'' ''hub'' ''token'', Looks 0 5,
      Answered 0 (True, None), Looks 1 5] (testChecks c [Adding, Asking] 1 [])" by (simp add: simps)
  from step [OF hubStep.add this, of 0 "testCheck Adding" 6]
  have "hubSteps (newChecks c) [Arrives ''u'' ''hub'' ''token'', Arrives ''u'' ''hub'' ''token'', Looks 0 5,
      Answered 0 (True, None), Looks 1 5, Adds 0 6] (testChecks c [Checked (Inr True), Asking] 1 [((''u'', ''hub''), 6)])"
    by (simp add: simps)
  from step [OF hubStep.confirmed this, of 1 "testCheck Asking"] show ?thesis
    by (simp add: simps numeral_2_eq_2 replicate_append_same)
qed

theorem concurrent_hub_checks_witness:
  "\<exists>q :: checkSys. map chkPhase (csChecks q) = [Checked (Inr True), Adding] \<and>
     (\<exists>t. (''u'', ''hub'', t) \<in> set (csConfirmed q)) \<and> cacheSize (csCache q) \<le> 100000"
proof -
  let ?q = "testChecks (newHubCheckCache (10 * 10 ^ 9) 100000) [Checked (Inr True), Adding] 2 [((''u'', ''hub''), 6)]"
  have k: "testCheck (Checked (Inr True)) \<in> set (csChecks ?q)" by (simp add: testChecks_def)
  note all = concurrent_hub_checks [OF testConfig_health testChecks_steps]
  show ?thesis
  proof (rule exI [of _ ?q], intro conjI)
    show "map chkPhase (csChecks ?q) = [Checked (Inr True), Adding]" by (simp add: testChecks_def testCheck_def)
    show "\<exists>t. (''u'', ''hub'', t) \<in> set (csConfirmed ?q)"
      using bspec [OF conjunct1 [OF all] k] by (simp add: testCheck_def)
    show "cacheSize (csCache ?q) \<le> 100000" using all by blast
  qed
qed

theorem hub_check_refines_witness:
  "\<exists>es q'. hubSteps (newChecks (hubCache s0)) (Arrives ''u'' ''hub'' ''token'' # es) q' \<and>
     concat (map (stepCalls ''hub'' ''token'') es) = [CNow 1000, CExistsHub ''hub'' ''token'' (True, None), CNow 1000] \<and>
     chkPhase (last (csChecks q')) = Checked (Inr True)"
proof -
  obtain s' where run: "run_state (isAccessibleHub testConn ''u'' ''hub'' ''token'') s0 = (Inr True, s')"
    and calls: "newCalls s0 s' = [CNow 1000, CExistsHub ''hub'' ''token'' (True, None), CNow 1000]"
    by (simp add: isAccessibleHub_def io_simps test_simps cacheHas_def newHubCheckCache_def newCalls_def)
  from hub_check_refines [OF run, of "newChecks (hubCache s0)"] obtain es q' where
    "hubSteps (newChecks (hubCache s0)) (Arrives ''u'' ''hub'' ''token'' # es) q'"
    "newCalls s0 s' = concat (map (stepCalls ''hub'' ''token'') es)"
    "last (csChecks q') = \<lparr>chkUser = ''u'', chkHub = ''hub'', chkToken = ''token'', chkPhase = Checked (Inr True)\<rparr>"
    by (auto simp: newChecks_def)
  with calls show ?thesis by (intro exI [of _ es] exI [of _ q']) simp
qed

end
