(* ===== verification/KeyStatus.thy ===== *)
theory KeyStatus
  imports WmbusProperties
begin

text \<open>
  The decryption status of a metering device, \<open>updateDeviceDecryptionStatus\<close> and \<open>replaceLegacyKeyOk\<close>
  of \<open>lib/handler/event/nimbus.go\<close>: which request is sent to the device manager, and what the device
  has afterwards, when the device manager does what \<open>update-only-same-origin-attributes\<close> says.
\<close>

section \<open>The request for a status of an earlier version\<close>

lemma legacyOrigins_set:
  "set (legacyOrigins o1 attrs) = insert o1 (attrOrigin ` {a \<in> set attrs. isLegacyKeyOk a})"
  by (induction attrs rule: rev_induct) (auto simp: legacyOrigins_def)

lemma legacyOrigins_distinct: "distinct (legacyOrigins o1 attrs)"
  by (induction attrs rule: rev_induct) (auto simp: legacyOrigins_def)

lemma keptAttributes_set:
  "set (keptAttributes k os attrs) =
     insert k {a \<in> set attrs. attrKey a \<noteq> attrKey k \<and> attrOrigin a \<in> set os}"
  by (auto simp: keptAttributes_def)

text \<open>The attribute that is written.\<close>

definition keyOkAttr :: "string \<Rightarrow> attribute" where
  "keyOkAttr v = \<lparr>attrKey = wmbusKeyOkAttribute, attrValue = v, attrOrigin = connectorOrigin\<rparr>"

lemma keyOkAttr_fields [simp]:
  "attrKey (keyOkAttr v) = wmbusKeyOkAttribute" "attrOrigin (keyOkAttr v) = connectorOrigin"
  by (simp_all add: keyOkAttr_def)

lemma origins_differ: "connectorOrigin \<noteq> defaultAttributeOrigin"
  by (simp add: connectorOrigin_def defaultAttributeOrigin_def)

text \<open>
  A run without an error in which attributes are sent: the status was neither the one of the device nor
  remembered, and the request is for the connector's origin alone or, for a device with a status of an
  earlier version, for the origins found on the device just read.
\<close>

lemma updateStatus_put:
  assumes run: "run_state (updateDeviceDecryptionStatus cfg cn token dev v) s = (None, s')"
    and put: "CPutAttributes url t attrs r \<in> set (newCalls s s')"
  obtains (same) "\<not> list_ex isLegacyKeyOk (devAttributes dev)" "t = token"
      "url = attributesUrl cfg (devId dev) [connectorOrigin]" "attrs = [keyOkAttr v]"
  | (legacy) d where "list_ex isLegacyKeyOk (devAttributes dev)" "t = token"
      "CGetJsonDevice (DeviceManagerUrl cfg @ ''/devices/'' @ pathEscape (devId dev)) token (Inr d) \<in> set (newCalls s s')"
      "url = attributesUrl cfg (devId dev) (legacyOrigins connectorOrigin (devAttributes d))"
      "attrs = keptAttributes (keyOkAttr v) (legacyOrigins connectorOrigin (devAttributes d)) (devAttributes d)"
proof (cases "list_ex isLegacyKeyOk (devAttributes dev)")
  case True
  with run put that(2) show ?thesis
    by (auto simp: updateDeviceDecryptionStatus_def replaceLegacyKeyOk_def setSameOriginAttributes_def io_simps
        newCalls_def attributesUrl_def keyOkAttr_def Let_def
        split: if_splits prod.splits option.splits sum.splits)
next
  case False
  with run put that(1) show ?thesis
    by (auto simp: updateDeviceDecryptionStatus_def setSameOriginAttributes_def io_simps
        newCalls_def attributesUrl_def keyOkAttr_def Let_def
        split: if_splits prod.splits option.splits sum.splits)
qed

section \<open>What the device has afterwards\<close>

text \<open>
  The device manager is not part of the repository, but its tests bring a mock that mirrors this
  request (\<open>test/server/mock/iot\<close>): the names of origins are split at commas, and the attributes sent
  replace those of these origins, while all others stay.
\<close>

definition requestOrigins :: "string \<Rightarrow> string list" where
  "requestOrigins query = splitOn CHR '','' query"

definition PublishDeviceAttributesUpdate ::
  "attribute list \<Rightarrow> attribute list \<Rightarrow> string list \<Rightarrow> attribute list" where
  "PublishDeviceAttributesUpdate stored attributes origins =
     (if 0 < length origins then
        filter (\<lambda>a. attrOrigin a \<notin> set origins) stored @ filter (\<lambda>a. attrOrigin a \<in> set origins) attributes
      else attributes)"

locale attribute_store =
  fixes update :: "attribute list \<Rightarrow> attribute list \<Rightarrow> string list \<Rightarrow> attribute list"
  assumes update_set: "os \<noteq> [] \<Longrightarrow> a \<in> set (update old new os) \<longleftrightarrow>
      (if attrOrigin a \<in> set os then a \<in> set new else a \<in> set old)"
begin

lemma update_same:
  "a \<in> set (update old [keyOkAttr v] [connectorOrigin]) \<longleftrightarrow>
     a = keyOkAttr v \<or> a \<in> set old \<and> attrOrigin a \<noteq> connectorOrigin"
  by (auto simp: update_set)

text \<open>The request for a status of an earlier version removes just what has the key of the status.\<close>

lemma update_legacy:
  assumes "os = legacyOrigins connectorOrigin old"
  shows "a \<in> set (update old (keptAttributes (keyOkAttr v) os old) os) \<longleftrightarrow>
     a = keyOkAttr v \<or> a \<in> set old \<and> (attrKey a = wmbusKeyOkAttribute \<longrightarrow> attrOrigin a = defaultAttributeOrigin)"
proof -
  have "os \<noteq> []" using assms legacyOrigins_set [of connectorOrigin old] by auto
  then show ?thesis
    using origins_differ
    by (auto simp: update_set keptAttributes_set assms legacyOrigins_set isLegacyKeyOk_def)
qed

lemma update_legacy_gone:
  assumes "os = legacyOrigins connectorOrigin old"
    and "a \<in> set (update old (keptAttributes (keyOkAttr v) os old) os)"
  shows "\<not> isLegacyKeyOk a"
  using assms by (auto simp: update_legacy isLegacyKeyOk_def)

end

interpretation deviceManager: attribute_store PublishDeviceAttributesUpdate
  by unfold_locales (simp add: PublishDeviceAttributesUpdate_def)

text \<open>What the mock reads from the request, when no origin has a comma in it.\<close>

lemma requestOrigins_join:
  "os \<noteq> [] \<Longrightarrow> \<forall>p \<in> set os. CHR '','' \<notin> set p \<Longrightarrow> requestOrigins (joinWith CHR '','' os) = os"
  by (simp add: requestOrigins_def splitOn_join)

lemma connectorOrigin_plain: "CHR '','' \<notin> set connectorOrigin"
  by (simp add: connectorOrigin_def)

lemma legacyOrigins_request:
  assumes "\<forall>a \<in> set attrs. isLegacyKeyOk a \<longrightarrow> CHR '','' \<notin> set (attrOrigin a)"
  shows "requestOrigins (joinWith CHR '','' (legacyOrigins connectorOrigin attrs)) = legacyOrigins connectorOrigin attrs"
proof (rule requestOrigins_join)
  show "legacyOrigins connectorOrigin attrs \<noteq> []" using legacyOrigins_set [of connectorOrigin attrs] by auto
  show "\<forall>p \<in> set (legacyOrigins connectorOrigin attrs). CHR '','' \<notin> set p"
    using assms connectorOrigin_plain by (auto simp: legacyOrigins_set)
qed

text \<open>
  C25. When the decryption status is written without an error, the device has it afterwards, as the
  connector's: in the usual case besides all its attributes but the connector's, and for a device with
  a status of an earlier version besides all its attributes but any status other than an account's
  default. This holds when the device manager returns, for the device's own address, the attributes that
  it then updates, and when no origin of a status of an earlier version has a comma in it.
\<close>

theorem decryption_status_stored:
  assumes "run_state (updateDeviceDecryptionStatus cfg cn token dev v) s = (None, s')"
    and "CPutAttributes url t attrs r \<in> set (newCalls s s')"
    and "\<forall>d. CGetJsonDevice (DeviceManagerUrl cfg @ ''/devices/'' @ pathEscape (devId dev)) token (Inr d)
      \<in> set (newCalls s s') \<longrightarrow> devAttributes d = stored"
    and "\<forall>a \<in> set stored. isLegacyKeyOk a \<longrightarrow> CHR '','' \<notin> set (attrOrigin a)"
  shows "\<exists>query. t = token \<and> url = DeviceManagerUrl cfg @ ''/devices/'' @ pathEscape (devId dev) @
      ''/attributes?update-only-same-origin-attributes='' @ queryEscape query \<and>
    (\<forall>a. a \<in> set (PublishDeviceAttributesUpdate stored attrs (requestOrigins query)) \<longleftrightarrow>
      a = keyOkAttr v \<or> a \<in> set stored \<and>
        (if list_ex isLegacyKeyOk (devAttributes dev)
         then attrKey a = wmbusKeyOkAttribute \<longrightarrow> attrOrigin a = defaultAttributeOrigin
         else attrOrigin a \<noteq> connectorOrigin))"
  using assms(1,2)
proof (cases rule: updateStatus_put)
  case same
  then show ?thesis
    using requestOrigins_join [of "[connectorOrigin]"] connectorOrigin_plain
    by (intro exI [of _ "joinWith CHR '','' [connectorOrigin]"])
      (simp add: attributesUrl_def deviceManager.update_same)
next
  case (legacy d)
  have d: "devAttributes d = stored" using assms(3) legacy(3) by blast
  show ?thesis
    using legacy legacyOrigins_request [OF assms(4)]
    by (intro exI [of _ "joinWith CHR '','' (legacyOrigins connectorOrigin stored)"])
      (simp add: d attributesUrl_def deviceManager.update_legacy)
qed

text \<open>
  The device of the repository's own test of this: two statuses of earlier versions, one without an
  origin and one of the web interface, a key changed since, and attributes of others.
\<close>

definition legacyStored :: "attribute list" where
  "legacyStored =
     [\<lparr>attrKey = ''wmbus/key'', attrValue = ''000102030405060708090A0B0C0D0E0F'', attrOrigin = []\<rparr>,
      \<lparr>attrKey = ''wmbus/key-ok'', attrValue = ''false'', attrOrigin = []\<rparr>,
      \<lparr>attrKey = ''wmbus/key-ok'', attrValue = ''false'', attrOrigin = ''web-ui''\<rparr>,
      \<lparr>attrKey = ''location'', attrValue = ''basement'', attrOrigin = ''web-ui''\<rparr>,
      \<lparr>attrKey = ''wmbus/last_seen/nimbus'', attrValue = ''2026-10-26T12:00:00Z'', attrOrigin = ''nimbus''\<rparr>]"

definition legacyMeter :: device where
  "legacyMeter = (testDevice ''m'')\<lparr>devAttributes := legacyStored\<rparr>"

definition legacyConn :: "unit connector" where
  "legacyConn = testConn\<lparr>getJsonDevice := \<lambda>u t w. (Inr legacyMeter, w)\<rparr>"

lemma legacyConn_fields:
  "getJsonDevice legacyConn u1 t1 w1 = (Inr legacyMeter, w1)"
  "cacheGet legacyConn k2 w2 = (Inl (GoError ''not found'' [CacheErrNotFound]), w2)"
  "putAttributes legacyConn u3 t3 as3 w3 = (None, w3)"
  by (simp_all add: legacyConn_def test_simps)

lemma legacyMeter_fields: "devAttributes legacyMeter = legacyStored" "devId legacyMeter = ''id:m''"
  by (simp_all add: legacyMeter_def testDevice_def)

definition legacySent :: "attribute list" where
  "legacySent = [keyOkAttr ''true'', hd legacyStored, legacyStored ! 3]"

lemma legacy_run:
  obtains s' where
    "run_state (updateDeviceDecryptionStatus testConfig legacyConn ''token'' legacyMeter ''true'') s0 = (None, s')"
    "newCalls s0 s' = [CCacheGet ''wmbus.key-ok.id:m'' (Inl (GoError ''not found'' [CacheErrNotFound])),
       CGetJsonDevice ''/devices/id:m'' ''token'' (Inr legacyMeter),
       CPutAttributes (attributesUrl testConfig ''id:m'' [connectorOrigin, [], ''web-ui'']) ''token'' legacySent None]"
proof -
  have shape: "list_ex isLegacyKeyOk legacyStored" "legacyOrigins connectorOrigin legacyStored = [connectorOrigin, [], ''web-ui'']"
    "keptAttributes (keyOkAttr ''true'') [connectorOrigin, [], ''web-ui''] legacyStored = legacySent"
    "pathEscape ''id:m'' = ''id:m''"
    by code_simp+
  have none: "find (\<lambda>a. attrKey a = wmbusKeyOkAttribute \<and> attrOrigin a = connectorOrigin) legacyStored = None"
    by code_simp
  show ?thesis
    by (rule that [of "snd (run_state (updateDeviceDecryptionStatus testConfig legacyConn ''token'' legacyMeter ''true'') s0)"])
      (simp_all add: updateDeviceDecryptionStatus_def replaceLegacyKeyOk_def setSameOriginAttributes_def io_simps
        legacyConn_fields legacyMeter_fields shape none keyOkAttr_def [symmetric] connectorOrigin_def [symmetric]
        attributesUrl_def newCalls_def Let_def test_simps)
qed

theorem decryption_status_stored_witness:
  "\<exists>query. \<forall>a. a \<in> set (PublishDeviceAttributesUpdate legacyStored legacySent (requestOrigins query)) \<longleftrightarrow>
     a = keyOkAttr ''true'' \<or> a \<in> set legacyStored \<and> attrKey a \<noteq> wmbusKeyOkAttribute"
proof -
  obtain s' where run: "run_state (updateDeviceDecryptionStatus testConfig legacyConn ''token'' legacyMeter ''true'') s0 = (None, s')"
    and calls: "newCalls s0 s' = [CCacheGet ''wmbus.key-ok.id:m'' (Inl (GoError ''not found'' [CacheErrNotFound])),
       CGetJsonDevice ''/devices/id:m'' ''token'' (Inr legacyMeter),
       CPutAttributes (attributesUrl testConfig ''id:m'' [connectorOrigin, [], ''web-ui'']) ''token'' legacySent None]"
    by (rule legacy_run)
  have put: "CPutAttributes (attributesUrl testConfig ''id:m'' [connectorOrigin, [], ''web-ui'']) ''token'' legacySent None
      \<in> set (newCalls s0 s')" by (simp add: calls)
  have facts: "list_ex isLegacyKeyOk legacyStored" "\<forall>a \<in> set legacyStored. attrOrigin a \<noteq> defaultAttributeOrigin"
    "\<forall>a \<in> set legacyStored. isLegacyKeyOk a \<longrightarrow> CHR '','' \<notin> set (attrOrigin a)"
    by code_simp+
  have "\<forall>d. CGetJsonDevice (DeviceManagerUrl testConfig @ ''/devices/'' @ pathEscape (devId legacyMeter)) ''token'' (Inr d)
      \<in> set (newCalls s0 s') \<longrightarrow> devAttributes d = legacyStored"
    by (auto simp: calls legacyMeter_fields)
  from decryption_status_stored [OF run put this facts(3)] facts(1,2) show ?thesis
    by (auto simp: legacyMeter_fields)
qed

text \<open>
  The names are joined without escaping: a status of an earlier version whose origin has a comma stays,
  and attributes of the origins that its parts name are lost.
\<close>

definition commaStored :: "attribute list" where
  "commaStored =
     [\<lparr>attrKey = ''wmbus/key-ok'', attrValue = ''false'', attrOrigin = ''a,b''\<rparr>,
      \<lparr>attrKey = ''location'', attrValue = ''basement'', attrOrigin = ''a''\<rparr>]"

lemma comma_origin:
  "let os = legacyOrigins connectorOrigin commaStored in
   PublishDeviceAttributesUpdate commaStored (keptAttributes (keyOkAttr ''true'') os commaStored)
     (requestOrigins (joinWith CHR '','' os)) = [hd commaStored, keyOkAttr ''true'']"
  by code_simp

end
