(* ===== verification/AttributeUpdates.thy ===== *)
theory AttributeUpdates
  imports KeyStatus TelegramEvents
begin

text \<open>
  Which attributes the handling of a telegram writes: the requests to the device manager, one by one, the
  device each is for, and the origins that it replaces.
\<close>

section \<open>The origins of a request\<close>

lemma splitOn_append: "splitOn c (a @ c # b) = splitOn c a @ splitOn c b"
  by (induction a) (auto split: list.splits)

text \<open>The origins are joined with commas: what the device manager splits off has every origin without one.\<close>

lemma splitOn_joinWith: "ps \<noteq> [] \<Longrightarrow> splitOn c (joinWith c ps) = concat (map (splitOn c) ps)"
  by (induction c ps rule: joinWith.induct) (simp_all add: splitOn_append)

lemma origin_replaced:
  assumes "p \<in> set ps" "CHR '','' \<notin> set p"
  shows "p \<in> set (requestOrigins (joinWith CHR '','' ps))"
proof -
  have "ps \<noteq> []" using assms(1) by auto
  moreover have "p \<in> set (splitOn CHR '','' p)" using assms(2) by simp
  ultimately show ?thesis using assms(1) by (auto simp: requestOrigins_def splitOn_joinWith)
qed

section \<open>The requests\<close>

text \<open>
  The requests for the device \<open>dev\<close>: the time at which the nimbus last saw it, of the origin of the
  nimbus; the decryption status, of the origin of the connector; or this status with what it keeps, of the
  origins of the statuses that the device, read before, has.
\<close>

definition seenAttr :: "device \<Rightarrow> int \<Rightarrow> attribute" where
  "seenAttr nimbus now = \<lparr>attrKey = ''wmbus/last_seen/'' @ devId nimbus, attrValue = formatRFC3339 now,
     attrOrigin = devId nimbus\<rparr>"

definition sentRequest ::
  "config \<Rightarrow> string \<Rightarrow> device \<Rightarrow> device \<Rightarrow> call set \<Rightarrow> string list \<Rightarrow> attribute list \<Rightarrow> bool" where
  "sentRequest cfg token nimbus dev C origins attrs \<longleftrightarrow>
     (\<exists>now. origins = [devId nimbus] \<and> attrs = [seenAttr nimbus now]) \<or>
     (\<exists>v \<in> {''true'', ''false''}. origins = [connectorOrigin] \<and> attrs = [keyOkAttr v]) \<or>
     (\<exists>v \<in> {''true'', ''false''}. \<exists>d.
        CGetJsonDevice (DeviceManagerUrl cfg @ ''/devices/'' @ pathEscape (devId dev)) token (Inr d) \<in> C \<and>
        origins = legacyOrigins connectorOrigin (devAttributes d) \<and>
        attrs = keptAttributes (keyOkAttr v) origins (devAttributes d))"

definition telegramUpdate :: "config \<Rightarrow> string \<Rightarrow> device \<Rightarrow> call set \<Rightarrow> call \<Rightarrow> bool" where
  "telegramUpdate cfg token nimbus C c = (case c of
     CPutAttributes url t attrs x \<Rightarrow> t = token \<and> (\<exists>local dev origins.
       CDevice token local (Inr dev) \<in> C \<and> url = attributesUrl cfg (devId dev) origins \<and>
       sentRequest cfg token nimbus dev C origins attrs)
   | _ \<Rightarrow> True)"

definition noUpdate :: "call \<Rightarrow> bool" where
  "noUpdate c \<longleftrightarrow> (\<forall>url t attrs x. c \<noteq> CPutAttributes url t attrs x)"

lemma sentRequest_mono: "sentRequest cfg token nimbus dev C os as \<Longrightarrow> C \<subseteq> D \<Longrightarrow> sentRequest cfg token nimbus dev D os as"
  unfolding sentRequest_def by blast

lemma telegramUpdate_stable: "stable (telegramUpdate cfg token nimbus)"
  unfolding stable_def
proof (intro allI impI)
  fix C D c assume "telegramUpdate cfg token nimbus C c" "C \<subseteq> D"
  then show "telegramUpdate cfg token nimbus D c"
    unfolding telegramUpdate_def using sentRequest_mono [of cfg token nimbus _ C _ _ D] by (cases c) (simp_all, blast)
qed

lemma noUpdate_telegramUpdate: "noUpdate c \<Longrightarrow> telegramUpdate cfg token nimbus C c"
  by (cases c) (auto simp: telegramUpdate_def noUpdate_def)

lemma emits_noUpdate [emits_intros]:
  "emits noUpdate (EnsureWaitingRoom cn wr token stub)"
  "emits noUpdate (decryptAndDecodeTelegram cn ex dirs driver key tele)"
  "emits noUpdate (getWmbusDeviceType cn i)"
  "emits noUpdate (dedupTelegram cn user local tele)"
  "emits noUpdate (publishDecoded cn token local dec event qos)"
  unfolding EnsureWaitingRoom_def decryptAndDecodeTelegram_def getWmbusDeviceType_def dedupTelegram_def
    publishDecoded_def Let_def
  by (intro emits_intros; simp add: noUpdate_def)+

lemma emits_noUpdate_steps [emits_intros]:
  "emits noUpdate (ensureWmbusDeviceType cfg cn i msg dec)"
  "emits noUpdate (useWaitingRoom cn wr token stub)"
  "emits noUpdate (tryKeys cfg cn driver tele ks d ok)"
  unfolding ensureWmbusDeviceType_def useWaitingRoom_def Let_def
   by (intro emits_intros; simp add: noUpdate_def)+
     (induction ks arbitrary: d ok, simp, intro emits_intros, simp, intro emits_intros)

lemma follows_noUpdate: "emits noUpdate m \<Longrightarrow> follows (telegramUpdate cfg token nimbus) D m anyAnswer"
  by (erule follows_emits) (rule noUpdate_telegramUpdate)

lemmas update_binds = follows_bind [OF telegramUpdate_stable follows_noUpdate]

lemma follows_request:
  assumes "CDevice token local (Inr dev) \<in> D" "sentRequest cfg token nimbus dev D os as"
  shows "follows (telegramUpdate cfg token nimbus) D (setSameOriginAttributes cfg cn token (devId dev) os as) anyAnswer"
proof -
  have "telegramUpdate cfg token nimbus (insert (CPutAttributes (attributesUrl cfg (devId dev) os) token as x) D)
      (CPutAttributes (attributesUrl cfg (devId dev) os) token as x)" for x
    unfolding telegramUpdate_def call.simps
    by (intro conjI refl exI [of _ local] exI [of _ dev] exI [of _ os])
      (use assms sentRequest_mono [OF assms(2)] in auto)
  then show ?thesis
    unfolding setSameOriginAttributes_def Let_def attributesUrl_def [symmetric] by (intro follows_perform) simp_all
qed

lemma follows_receiver:
  assumes "CDevice token local (Inr dev) \<in> D"
  shows "follows (telegramUpdate cfg token nimbus) D (recordWmbusReceiver cfg cn token dev nimbus) anyAnswer"
proof -
  have "sentRequest cfg token nimbus dev C [devId nimbus] [seenAttr nimbus now]" for C now
    by (auto simp: sentRequest_def)
  then show ?thesis
    unfolding recordWmbusReceiver_def Let_def seenAttr_def [symmetric]
    by (intro follows_cases follows_ret update_binds follows_request [where local = local] emits_perform)
      (use assms in \<open>auto simp: noUpdate_def\<close>)
qed

lemma follows_status:
  assumes "CDevice token local (Inr dev) \<in> D" "v \<in> {''true'', ''false''}"
  shows "follows (telegramUpdate cfg token nimbus) D (updateDeviceDecryptionStatus cfg cn token dev v) anyAnswer"
proof -
  let ?url = "DeviceManagerUrl cfg @ ''/devices/'' @ pathEscape (devId dev)"
  let ?read = "\<lambda>C g. case g of Inl e \<Rightarrow> True | Inr d \<Rightarrow> CGetJsonDevice ?url token (Inr d) \<in> C"
  have one: "sentRequest cfg token nimbus dev C [connectorOrigin] [keyOkAttr v]" for C
    using assms(2) by (auto simp: sentRequest_def)
  have "follows (telegramUpdate cfg token nimbus) C (replaceLegacyKeyOk cfg cn token (devId dev) (keyOkAttr v)) anyAnswer"
    if "D \<subseteq> C" for C
    unfolding replaceLegacyKeyOk_def Let_def keyOkAttr_fields
    by (intro follows_bind [OF telegramUpdate_stable, where Q = ?read] follows_perform follows_cases follows_ret
        follows_request [where local = local])
      (use assms that in \<open>auto simp: telegramUpdate_def sentRequest_def split: sum.splits\<close>)
  then show ?thesis
    unfolding updateDeviceDecryptionStatus_def Let_def keyOkAttr_def [symmetric]
    by (intro follows_cases follows_ret update_binds follows_bind [OF telegramUpdate_stable, where Q = anyAnswer]
        follows_request [where local = local] emits_perform)
      (use assms one in \<open>auto simp: noUpdate_def\<close>)
qed

lemma follows_decryptWithKeys:
  assumes "CDevice token local (Inr dev) \<in> D"
  shows "follows (telegramUpdate cfg token nimbus) D (decryptWithKeys cfg cn token dev driver i msg) anyAnswer"
  unfolding decryptWithKeys_def
  by (intro update_binds follows_bind [OF telegramUpdate_stable follows_status [where local = local]]
      follows_cases follows_ret emits_noUpdate_steps) (use assms in auto)

lemma follows_updates:
  assumes "case found of None \<Rightarrow> True | Some dev \<Rightarrow> CDevice token local (Inr dev) \<in> D"
  shows "follows (telegramUpdate cfg token nimbus) D
    (processTelegram cfg cn wr user token event qos msg i local found driver) anyAnswer"
proof -
  have keys: "follows (telegramUpdate cfg token nimbus) C (decryptWithKeys cfg cn token dev driver i msg) anyAnswer"
    if "found = Some dev" "D \<subseteq> C" for C dev
    by (rule follows_decryptWithKeys [where local = local]) (use assms that in auto)
  show ?thesis
    unfolding processTelegram_def
    by (intro update_binds follows_bind [OF telegramUpdate_stable keys] follows_cases follows_ret
        follows_noUpdate emits_noUpdate emits_noUpdate_steps TrueI) auto
qed

lemma follows_telegram:
  "follows (telegramUpdate cfg token nimbus) D (handleWmbusEvent cfg cn ns wr user token event qos nimbus) anyAnswer"
proof -
  let ?found = "\<lambda>d. case d of Inl e \<Rightarrow> if errorsIs e ErrorNotFound then Inr None else Inl e | Inr dev \<Rightarrow> Inr (Some dev)"
  let ?known = "\<lambda>local C found. case found of None \<Rightarrow> True | Some dev \<Rightarrow> CDevice token local (Inr dev) \<in> C"
  have dev: "follows (telegramUpdate cfg token nimbus) C (callDevice cn token local)
      (\<lambda>C d. case ?found d of Inl e \<Rightarrow> True | Inr found \<Rightarrow> ?known local C found)" for C local
    by (intro follows_perform) (auto simp: telegramUpdate_def split: sum.splits if_splits)
  have seen: "follows (telegramUpdate cfg token nimbus) C
      (case found of None \<Rightarrow> ret None | Some dev \<Rightarrow> recordWmbusReceiver cfg cn token dev nimbus) anyAnswer"
    if "?known local C found" for C found local
    using that follows_receiver [of token local _ C cfg nimbus cn] by (auto intro: follows_ret split: option.splits)
  show ?thesis
    unfolding handleWmbusEvent_def
    by (intro follows_bind [OF telegramUpdate_stable dev] follows_bind [OF telegramUpdate_stable seen]
        follows_bind [OF telegramUpdate_stable follows_updates] update_binds
        follows_cases follows_ret emits_noUpdate TrueI)
      (auto split: option.splits)
qed

text \<open>
  C35. Attributes are only written with the token of the nimbus, and only to the metering device that the
  platform returned to this token. Each request is one of three: the time the nimbus saw the device, of the
  nimbus' own origin; the decryption status, of the connector's origin; or this status together with the
  attributes kept from the device just read, of the connector's origin and those of the statuses found on
  it. Every attribute sent has one of the origins that the request names; when this has no comma in it,
  it is one of those that the device manager reads from the request and replaces.
\<close>

theorem attributes_same_origin:
  assumes "run_state (handleWmbusEvent cfg cn ns wr user token event qos nimbus) s = (x, s')"
    and "CPutAttributes url t attrs r \<in> set (newCalls s s')"
  shows "t = token \<and> (\<exists>local dev origins. CDevice token local (Inr dev) \<in> set (newCalls s s') \<and>
    url = attributesUrl cfg (devId dev) origins \<and>
    sentRequest cfg token nimbus dev (set (newCalls s s')) origins attrs \<and>
    (\<forall>a \<in> set attrs. attrOrigin a \<in> set origins \<and>
      (CHR '','' \<notin> set (attrOrigin a) \<longrightarrow> attrOrigin a \<in> set (requestOrigins (joinWith CHR '','' origins)))))"
proof -
  from followsD(2) [OF follows_telegram [where D = "{}"] assms] obtain local dev origins where
    sent: "t = token" "CDevice token local (Inr dev) \<in> set (newCalls s s')" "url = attributesUrl cfg (devId dev) origins"
    "sentRequest cfg token nimbus dev (set (newCalls s s')) origins attrs"
    by (auto simp: telegramUpdate_def)
  have "attrOrigin a \<in> set origins" if "a \<in> set attrs" for a
    using that sent(4) by (auto simp: sentRequest_def seenAttr_def keptAttributes_set legacyOrigins_set)
  with sent origin_replaced [of _ origins] show ?thesis
    by (intro conjI exI [of _ local] exI [of _ dev] exI [of _ origins]) auto
qed

theorem attributes_same_origin_witness:
  "\<exists>(dev :: device) origins. attributesUrl testConfig ''id:m'' [''id:n''] = attributesUrl testConfig (devId dev) origins \<and>
     attrOrigin seenAttribute \<in> set (requestOrigins (joinWith CHR '','' origins))"
proof -
  obtain s' where run: "run_state (handleWmbusEvent testConfig testNoProgram ''ns'' TestWaitingRoom ''u'' ''token''
      testTelegram 1 (testDevice ''n'')) s0 = ((Some (errorsNew ''no program''), False), s')"
    and call: "CPutAttributes (attributesUrl testConfig ''id:m'' [''id:n'']) ''token'' [seenAttribute] None \<in> set (newCalls s0 s')"
    by (rule testNoProgram_run)
  have "CHR '','' \<notin> set (attrOrigin seenAttribute)" by (simp add: seenAttribute_def)
  moreover from attributes_same_origin [OF run call] obtain dev :: device and origins where
    "attributesUrl testConfig ''id:m'' [''id:n''] = attributesUrl testConfig (devId dev) origins"
    "\<forall>a \<in> set [seenAttribute]. attrOrigin a \<in> set origins \<and>
      (CHR '','' \<notin> set (attrOrigin a) \<longrightarrow> attrOrigin a \<in> set (requestOrigins (joinWith CHR '','' origins)))"
    by blast
  ultimately show ?thesis by (intro exI [of _ dev] exI [of _ origins]) simp
qed

end
