(* ===== verification/RepoTests.thy ===== *)
theory RepoTests
  imports KeyStatus HealthProperties StartProperties OwnTopicHandlers FogHandler
begin

text \<open>
  The unit tests that come with the code, run on the model: \<open>handler_test.go\<close> of the export,
  notifications, fog and health packages, \<open>nimbus_test.go\<close> as far as it needs no running program,
  \<open>config_test.go\<close>. A mock is a change of \<open>testConn\<close> of \<open>TestServices\<close>; what a test changes on its mocks between two
  calls is a change of the connector here. Each test is one equation.
\<close>

section \<open>export and notifications\<close>

definition secConn :: "unit connector" where
  "secConn = testConn\<lparr>getUserId := \<lambda>u w. (Inr u, w)\<rparr>"

lemma secConn_user: "getUserId secConn u w = (Inr u, w)"
  by (simp add: secConn_def)

lemma export_TestHandlerSubscribe:
  "map (\<lambda>(t, u). fst (run_state (exportSubscribe secConn [] u t) s0))
     [(''something/else'', ''unknown''), (''export/'', ''user''), (''export/#'', ''user''),
      (''export/differentUser'', ''user''), (''export/user'', ''user''), (''export/user/#'', ''user''),
      (''export/user/deep'', ''user'')] =
   [(Unhandled, None), (Rejected, None), (Rejected, None), (Rejected, None), (Accepted, None),
    (Accepted, None), (Accepted, None)]"
  by (simp add: exportSubscribe_def io_simps secConn_user)

lemma export_TestHandlerPublish:
  "map (\<lambda>t. fst (run_state (exportPublish [] [] t ''unknown'' 2 0) s))
     [''something/else'', ''export/else'', ''export''] = replicate 3 (Unhandled, None)"
  by (simp add: exportPublish_def numeral_eq_Suc)

lemma notifications_TestHandlerSubscribe:
  "map (\<lambda>(t, u). fst (run_state (notificationsSubscribe secConn [] u t) s0))
     [(''something/else'', ''unknown''), (''notifications/'', ''user''), (''notifications/#'', ''user''),
      (''notifications/differentUser'', ''user''), (''notifications/user'', ''user''),
      (''notifications/user/#'', ''user''), (''notifications/user/deep'', ''user'')] =
   [(Unhandled, None), (Rejected, None), (Rejected, None), (Rejected, None), (Accepted, None),
    (Accepted, None), (Accepted, None)]"
  by (simp add: notificationsSubscribe_def io_simps secConn_user)

section \<open>fog\<close>

definition fogConf :: fogHandlerConf where "fogConf = \<lparr>fogTopicPrefix = ''fog/''\<rparr>"

definition fogTest :: "fogHandlerConf option \<Rightarrow> string \<Rightarrow> string \<Rightarrow> result \<times> (string \<times> string \<times> string) list" where
  "fogTest h topic payload =
     (case run_state (fogPublish testConn ''fog/analytics/upstream/messages'' h [] [] topic payload 2 0) s0 of
        ((r, e), s) \<Rightarrow> (r, concat (map (\<lambda>c. case c of CProduce q t m k None \<Rightarrow> [(t, k, m)] | _ \<Rightarrow> []) (calls s))))"

lemma operator_id:
  "getKey testConn (CHR ''{'' # quote ''operator_id'' @ CHR '':'' # quote ''bar'' @ ''}'') = Inr ''bar''"
  "getKey testConn [] = Inl (errorsNew ''invalid json'')"
proof -
  have "unmarshal (\<lambda>v. decodeStruct keyWrapperFields v \<lparr>kwKey = []\<rparr>)
      (CHR ''{'' # quote ''operator_id'' @ CHR '':'' # quote ''bar'' @ ''}'') = Some \<lparr>kwKey = ''bar''\<rparr>"
    "unmarshal (\<lambda>v. decodeStruct keyWrapperFields v \<lparr>kwKey = []\<rparr>) [] = None"
    by code_simp+
  then show "getKey testConn (CHR ''{'' # quote ''operator_id'' @ CHR '':'' # quote ''bar'' @ ''}'') = Inr ''bar''"
    "getKey testConn [] = Inl (errorsNew ''invalid json'')"
    by (simp_all add: getKey_def test_simps)
qed

lemma fog_TestHandlerPublish:
  assumes "bar = CHR ''{'' # quote ''operator_id'' @ CHR '':'' # quote ''bar'' @ ''}''"
  shows "fogTest None ''fog/analytics/foo'' bar = (Unhandled, [])"
    "fogTest (Some fogConf) ''somthing/fog/analytics/foo'' p = (Unhandled, [])"
    "fogTest (Some fogConf) ''fog/foo'' bar = (Accepted, [])"
    "fogTest (Some fogConf) ''fog/analytics/upstream/messages/foo'' [] = (Error, [])"
    "fogTest (Some fogConf) ''fog/analytics/upstream/messages/foo'' bar = (Accepted, [(''foo'', ''bar'', bar)])"
  using operator_id fogTarget [of "''fog/analytics/upstream/messages''" "''foo''"]
  by (simp_all add: assms fogTest_def fogPublish_def fogConf_def io_simps Let_def test_simps)

lemma fog_TestHandlerSubscribe:
  "map (\<lambda>(t, h). fst (run_state (fogSubscribe h [] [] t) s))
     [(''fog/analytics/nil'', None), (''foo/bar'', Some fogConf), (''fog/foo'', Some fogConf),
      (''fog/analytics'', Some fogConf)] =
   [(Unhandled, None), (Unhandled, None), (Accepted, None), (Accepted, None)]"
  by (simp add: fogSubscribe_def fogConf_def)

section \<open>Wireless M-Bus\<close>

definition driverAttr :: "string \<Rightarrow> attribute list" where
  "driverAttr v = [\<lparr>attrKey = wmbusDriverAttribute, attrValue = v, attrOrigin = []\<rparr>]"

lemma TestWmbusDriver:
  assumes "dt = emptyDeviceType\<lparr>dtAttributes := driverAttr ''fromDeviceType''\<rparr>"
  shows "wmbusDriver (emptyDevice\<lparr>devAttributes := driverAttr ''fromDevice''\<rparr>) dt = ''fromDevice''"
    "wmbusDriver emptyDevice dt = ''fromDeviceType''"
    "wmbusDriver (emptyDevice\<lparr>devAttributes := driverAttr []\<rparr>) dt = ''fromDeviceType''"
    "wmbusDriver emptyDevice emptyDeviceType = []"
  by (simp_all add: assms wmbusDriver_def forcedDriver_def driverAttr_def emptyDevice_def emptyDeviceType_def)

lemma TestKeepUnmanagedAttributes:
  assumes "v = (\<lambda>x. \<lparr>attrKey = ''wmbus/version'', attrValue = x, attrOrigin = []\<rparr>)"
  shows "keepUnmanagedAttributes (v ''0x1a'' # driverAttr ''multical21'') [v ''0x1b''] =
    v ''0x1b'' # driverAttr ''multical21''"
  by (simp add: assms keepUnmanagedAttributes_def driverAttr_def wmbusDriverAttribute_def)

text \<open>The output of wmbusmeters with the decode tree of manufacturer data before the telegram's object.\<close>

definition bracedOutput :: "string list" where
  "bracedOutput = [''Auto driver    : fhkvdataiii'', ''011 C!: 019F29 mfct specific'', ''decode(off = 0)'', ''{'',
     ''    version_01(off = 0)'', ''    {'', ''        PrevDate(dvk = 02FD3A'',
     ''                 off = 2) = 9F29'', ''    }'', ''}'', ''012 C!: *** 9F29'', [],
     ''{'', ''    '' @ quote ''_'' @ '':'' @ quote ''telegram'' @ '','',
     ''    '' @ quote ''meter'' @ '':'' @ quote ''fhkvdataiii'' @ '','',
     ''    '' @ quote ''id'' @ '':'' @ quote ''93231141'' @ '','',
     ''    '' @ quote ''previous_hca'' @ '':1274'', ''}'', []]"

lemma TestJsonOfAnalysisWithBracedBlocks:
  "length (jsonBlocks bracedOutput) = 2"
  "unmarshal (decodeAnyMap Some) (last (jsonBlocks bracedOutput)) = Some (JObj [(''_'', JStr ''telegram''),
     (''id'', JStr ''93231141''), (''meter'', JStr ''fhkvdataiii''), (''previous_hca'', JNum ''1274'')])"
  by code_simp+

text \<open>The test telegram's device, and the status written for it in the tests without an earlier one.\<close>

lemma wmbusTestMessage:
  "localDeviceId (testMsg\<lparr>emManufacturer := ''(KAM) Kamstrup Energi (0x2c2d)'', emMeterId := ''77231605'',
     emType := ''Cold water meter (0x16) encrypted'', emVersion := ''0x1b''\<rparr>) = Inr ''wmbus_2c2d_1b_16_77231605''"
  by code_simp

lemma statusWritten:
  assumes "\<not> list_ex isLegacyKeyOk (devAttributes dev)"
    and "find (\<lambda>a. attrKey a = wmbusKeyOkAttribute \<and> attrOrigin a = connectorOrigin) (devAttributes dev) = None"
    and "run_state (updateDeviceDecryptionStatus testConfig testConn ''token'' dev v) s0 = (r, s)"
  shows "r = None" "last (calls s) =
    CPutAttributes (attributesUrl testConfig (devId dev) [connectorOrigin]) ''token'' [keyOkAttr v] None"
  using assms by (auto simp: updateDeviceDecryptionStatus_def setSameOriginAttributes_def io_simps Let_def test_simps
      attributesUrl_def keyOkAttr_def)

abbreviation attr :: "string \<Rightarrow> string \<Rightarrow> string \<Rightarrow> attribute" where
  "attr k v ori \<equiv> \<lparr>attrKey = k, attrValue = v, attrOrigin = ori\<rparr>"

lemma TestDecryptionStatusKeepsChangedKey:
  assumes "dev = (testDevice ''m'')\<lparr>devAttributes := [attr ''wmbus/key'' ''0102030405060708090A0B0C0D0E0F11'' []]\<rparr>"
    and "run_state (updateDeviceDecryptionStatus testConfig testConn ''token'' dev ''true'') s0 = (r, s)"
  shows "r = None \<and> (\<exists>url sent. last (calls s) = CPutAttributes url ''token'' sent None \<and>
    PublishDeviceAttributesUpdate [attr ''wmbus/key'' ''000102030405060708090A0B0C0D0E0F'' []] sent [connectorOrigin] =
      [attr ''wmbus/key'' ''000102030405060708090A0B0C0D0E0F'' [], keyOkAttr ''true''])"
proof -
  have plain: "\<not> list_ex isLegacyKeyOk (devAttributes dev)"
    "find (\<lambda>a. attrKey a = wmbusKeyOkAttribute \<and> attrOrigin a = connectorOrigin) (devAttributes dev) = None"
    by (simp_all add: assms(1) isLegacyKeyOk_def wmbusKeyOkAttribute_def)
  show ?thesis
    using statusWritten [OF plain assms(2)]
    by (simp add: PublishDeviceAttributesUpdate_def connectorOrigin_def [symmetric])
      (simp add: connectorOrigin_def)
qed

lemma TestDecryptionStatusIgnoresDefaultKeyOk:
  assumes "dev = (testDevice ''m'')\<lparr>devAttributes := [attr ''wmbus/key'' ''01'' [], attr ''wmbus/key-ok'' ''false'' ''default'',
      attr ''last_message_max_age'' ''6h'' ''default'']\<rparr>"
    and "run_state (updateDeviceDecryptionStatus testConfig testConn ''token'' dev ''true'') s0 = (r, s)"
  shows "r = None \<and> (\<exists>url sent. last (calls s) = CPutAttributes url ''token'' sent None \<and>
    PublishDeviceAttributesUpdate (devAttributes dev) sent [connectorOrigin] = devAttributes dev @ [keyOkAttr ''true''])"
proof -
  have plain: "\<not> list_ex isLegacyKeyOk (devAttributes dev)"
    "find (\<lambda>a. attrKey a = wmbusKeyOkAttribute \<and> attrOrigin a = connectorOrigin) (devAttributes dev) = None"
    by (simp_all add: assms(1) isLegacyKeyOk_def wmbusKeyOkAttribute_def connectorOrigin_def defaultAttributeOrigin_def)
  show ?thesis
    using statusWritten [OF plain assms(2)]
    by (simp add: PublishDeviceAttributesUpdate_def assms(1)) (simp add: connectorOrigin_def)
qed

section \<open>health: what is refused before anything is asked\<close>

definition healthTest :: healthHandler where
  "healthTest = \<lparr>hhConfig = \<lparr>hcTopic = ''health'', hcKafkaTopic = ''gateway_health'', hcMaxPayloadSize = 1024,
     hcDuration = 600 * 10 ^ 9\<rparr>\<rparr>"

lemma healthTest_fields:
  "hcTopic (hhConfig healthTest) = ''health''" "hcKafkaTopic (hhConfig healthTest) = ''gateway_health''"
  "hcMaxPayloadSize (hhConfig healthTest) = 1024"
  by (simp_all add: healthTest_def)

lemma TestPublishOtherTopicUnhandled:
  "map (\<lambda>t. run_state (healthPublish cn 2 healthTest c u t p 2 0) s)
     [[], ''health/'', ''health/x'', ''Health'', ''xhealth'', ''event/a/b/c'', ''fog/health'', ''$share/g/health''] =
   replicate 8 ((Unhandled, None), s)"
  by (simp add: healthPublish_def healthTest_fields numeral_eq_Suc)

lemma TestSubscribe:
  "map (\<lambda>t. run_state (healthSubscribe healthTest c u t) s) [''health'', ''health/x'', ''#'', ''+'', ''event/a/b/c''] =
   ((Rejected, None), s) # replicate 4 ((Unhandled, None), s)"
  by (simp add: healthSubscribe_def healthTest_fields numeral_eq_Suc)

lemma TestPublishPayloadSize:
  "length p = 1025 \<Longrightarrow> run_state (healthPublish cn 2 healthTest c u ''health'' p 2 n) s =
     ((Rejected, Some (reportTooLargeErr 1025 1024)), s)"
  "errorsIs (reportTooLargeErr 1025 1024) ErrReportTooLarge"
  by (simp_all add: healthPublish_def healthTest_fields errorsIs_def reportTooLargeErr_def)

definition invalidReports :: "string list" where
  "invalidReports = [[], ''   '', ''not json'', ''[1,2]'', quote ''string'', ''null'', ''42'', ''{'',
     ''{'' @ quote ''a'' @ '':1} {'' @ quote ''b'' @ '':2}'',
     ''{'' @ quote ''a'' @ '':1},'' @ quote ''hub_id'' @ '':'' @ quote ''x'',
     ''{'' @ quote ''a'' @ '':'' @ [CHR 0x22, CHR 0xFF, CHR 0x22] @ ''}'',
     [CHR 0xEF, CHR 0xBB, CHR 0xBF] @ ''{}'']"

lemma invalidReports: "\<not> list_ex isJsonObject invalidReports" "\<not> list_ex (\<lambda>p. 1024 < length p) invalidReports"
  by code_simp+

lemma TestPublishInvalidJson:
  "p \<in> set invalidReports \<Longrightarrow>
   run_state (healthPublish cn 2 healthTest c u ''health'' p 2 n) s = ((Rejected, Some invalidReportErr), s)"
  "errorsIs invalidReportErr ErrInvalidReport"
  using invalidReports
  by (auto simp: healthPublish_def healthTest_fields errorsIs_def invalidReportErr_def list_ex_iff)

lemma TestEnabled: "map Enabled [[], ''-'', ''health''] = [False, False, True]"
  by (simp add: Enabled_def)

lemma padNum_numeral:
  "padNum (numeral k) n = char_of (48 + n div 10 ^ pred_numeral k mod 10) # padNum (pred_numeral k) n"
  "padNum 0 n = []"
  by (simp_all only: numeral_eq_Suc padNum_Suc) (simp add: padNum_def)

lemmas pad_simps = padNum_numeral padNum_Suc char_of_def bit_Suc_0_iff

lemma testDay:
  assumes "k \<in> {0, 1, 3}"
  shows "dateText (63928702800 + 3600 * k) = ''2026-10-27T'' @ padNum 2 (13 + k) @ '':00:00''"
proof -
  have "yearDay 739915 = (2026, 299)" by (simp add: yearDay_def)
  moreover have "monthDay (isLeap 2026) 299 = (10, 27)" by (simp add: monthDay_def daysBefore_def isLeap_def)
  moreover have "padNum 4 2026 = ''2026''" "padNum 2 10 = ''10''" "padNum 2 27 = ''27''" "padNum 2 0 = ''00''"
    by (simp_all add: pad_simps)
  ultimately show ?thesis using assms by (auto simp: dateText_def)
qed

lemma TestMessageTimeFixedWidth:
  "formatTimeFixed (63928706400 * 10 ^ 9) = ''2026-10-27T14:00:00.000000000Z''"
  "formatTimeFixed (63928706400 * 10 ^ 9 + 100000000) = ''2026-10-27T14:00:00.100000000Z''"
  "formatTimeFixed (63928713600 * 10 ^ 9 + 1) = ''2026-10-27T16:00:00.000000001Z''"
  "formatTimeFixed (63928702800 * 10 ^ 9 + 123456789) = ''2026-10-27T13:00:00.123456789Z''"
  using testDay [of 0] testDay [of 1] testDay [of 3]
  by (simp_all add: formatTimeFixed_def nanosPerSecond_def pad_simps)

section \<open>health: the services asked\<close>

text \<open>
  The mocks: the token of a user names the user, the hubs one and two are those of the first user, the
  first one also of the other two, of whom one has a token without an id. The clock stands at \<open>now\<close>.
\<close>

definition healthEnv :: "int \<Rightarrow> unit connector" where
  "healthEnv now = testConn\<lparr>getCachedUserToken := \<lambda>u w. (Inr (''Bearer '' @ u), w),
     existsHub := \<lambda>h t w. (((h, t) \<in> {(''hub:1'', ''Bearer gateway-user''), (''hub:2'', ''Bearer gateway-user''),
       (''hub:1'', ''Bearer other-user''), (''hub:1'', ''Bearer no-sub'')}, None), w),
     jwtGetPayload := \<lambda>t. Inr \<lparr>plUserId = (if t = ''Bearer gateway-user'' then ''user-id-1''
       else if t = ''Bearer other-user'' then ''other-user-id'' else []), plRoles = []\<rparr>,
     timeNow := \<lambda>w. (now, w)\<rparr>"

lemma healthEnv_fields:
  "getCachedUserToken (healthEnv now) u1 w1 = (Inr (''Bearer '' @ u1), w1)"
  "existsHub (healthEnv now) h2 t2 w2 = (((h2, t2) \<in> {(''hub:1'', ''Bearer gateway-user''),
     (''hub:2'', ''Bearer gateway-user''), (''hub:1'', ''Bearer other-user''), (''hub:1'', ''Bearer no-sub'')}, None), w2)"
  "jwtGetPayload (healthEnv now) t3 = Inr \<lparr>plUserId = (if t3 = ''Bearer gateway-user'' then ''user-id-1''
     else if t3 = ''Bearer other-user'' then ''other-user-id'' else []), plRoles = []\<rparr>"
  "timeNow (healthEnv now) w4 = (now, w4)"
  "getProducer (healthEnv now) q5 w5 = (None, w5)"
  "produceWithKey (healthEnv now) q6 t6 m6 k6 w6 = (None, w6)"
  by (simp_all add: healthEnv_def test_simps)

definition testClock :: int where "testClock = 63928702800 * 10 ^ 9 + 123456789"

definition healthStart :: "unit sys" where
  "healthStart = s0\<lparr>hubCache := newHubCheckCache (600 * 10 ^ 9) 100000\<rparr>"

text \<open>One report of \<open>client\<close> and \<open>user\<close>, with the services \<open>cn\<close>.\<close>

definition report :: string where "report = ''{}''"

definition send :: "unit connector \<Rightarrow> string \<Rightarrow> string \<Rightarrow> (unit, result \<times> goerror option) io" where
  "send cn client user = healthPublish cn 0 healthTest client user ''health'' report 2 2"

definition hubAsked :: "unit sys \<Rightarrow> nat" where
  "hubAsked s = length (filter (\<lambda>c. case c of CExistsHub h t x \<Rightarrow> True | _ \<Rightarrow> False) (calls s))"

definition produced :: "unit sys \<Rightarrow> (string \<times> string) list" where
  "produced s = concat (map (\<lambda>c. case c of CProduce q t m k None \<Rightarrow> [(t, k)] | _ \<Rightarrow> []) (calls s))"

lemmas send_simps = send_def report_def healthPublish_def healthTest_fields isJsonObject_empty isAccessibleHub_def
  healthForward_def encodeMessage_def io_simps healthEnv_fields healthStart_def s0_fields newHubCheckCache_def
  hubAsked_def produced_def Let_def

lemma TestPublishTokenError:
  assumes "cn = (healthEnv t)\<lparr>getCachedUserToken := \<lambda>u w. (Inl (errorsNew ''keycloak down''), w)\<rparr>"
    and "run_state (send cn ''hub:1'' ''gateway-user'') healthStart = ((r, e), s)"
  shows "r = Error" "hubAsked s = 0" "produced s = []"
  using assms by (auto simp: send_simps)

lemma TestPublishInvalidClientIdRejectedWithoutLookup:
  assumes "client \<in> {[], ''.'', ''..''}"
    and "run_state (send (healthEnv t) client ''gateway-user'') healthStart = ((r, e), s)"
  shows "r = Rejected" "e = Some hubNotAccessibleErr" "hubAsked s = 0" "produced s = []"
  using assms by (auto simp: send_simps)

lemma TestPublishForeignHubRejected:
  assumes "run_state (do { a \<leftarrow> send (healthEnv t) ''hub:foreign'' ''gateway-user'';
      b \<leftarrow> send (healthEnv t) ''hub:foreign'' ''gateway-user''; ret [a, b] }) healthStart = (rs, s)"
  shows "rs = replicate 2 (Rejected, Some hubNotAccessibleErr)" "hubAsked s = 2" "produced s = []"
  using assms by (auto simp: send_simps cacheHas_def numeral_eq_Suc)

fun sendAll :: "(unit connector \<times> string \<times> string) list \<Rightarrow> (unit, result list) io" where
  "sendAll [] = ret []"
| "sendAll ((cn, client, user) # xs) = do {
     (r, e) \<leftarrow> send cn client user;
     rs \<leftarrow> sendAll xs;
     ret (r # rs)
   }"

text \<open>The services without any accessible hub, and with a hub service that fails.\<close>

definition noHubs :: "unit connector \<Rightarrow> unit connector" where
  "noHubs cn = cn\<lparr>existsHub := \<lambda>h t w. ((False, None), w)\<rparr>"

definition hubsDown :: "unit connector \<Rightarrow> unit connector" where
  "hubsDown cn = cn\<lparr>existsHub := \<lambda>h t w. ((True, Some (errorsNew ''connection refused'')), w)\<rparr>"

text \<open>An addition to a cache, as far as the tests need it: no pruning due, with room or without, or due.\<close>

abbreviation cacheOf :: "int \<Rightarrow> int \<Rightarrow> (hubCheckKey, int) fmap \<Rightarrow> int \<Rightarrow> hubCheckCache" where
  "cacheOf d mx m np \<equiv> \<lparr>duration = d, maxEntries = mx, expiry = m, nextPrune = np\<rparr>"

abbreviation unexpired :: "int \<Rightarrow> (hubCheckKey, int) fmap \<Rightarrow> (hubCheckKey, int) fmap" where
  "unexpired now m \<equiv> fmfilter (\<lambda>k. case fmlookup m k of None \<Rightarrow> True | Some e \<Rightarrow> now < e) m"

lemma prune_steps:
  "np \<le> now \<Longrightarrow> prune (cacheOf d mx m np) now = cacheOf d mx (unexpired now m) (now + d)"
  "now < np \<Longrightarrow> prune (cacheOf d mx m np) now = cacheOf d mx m np"
  unfolding prune_def hubCheckCache.simps by simp_all

lemma cacheAdd_steps:
  "0 < d \<Longrightarrow> now < np \<Longrightarrow> fmlookup m k \<noteq> None \<or> int (fcard (fmdom m)) < mx \<Longrightarrow>
   cacheAdd (cacheOf d mx m np) k now = cacheOf d mx (fmupd k (now + d) m) np"
  "0 < d \<Longrightarrow> now < np \<Longrightarrow> fmlookup m k = None \<Longrightarrow> mx \<le> int (fcard (fmdom m)) \<Longrightarrow>
   cacheAdd (cacheOf d mx m np) k now = cacheOf d mx (fmupd k (now + d) fmempty) np"
  "0 < d \<Longrightarrow> np \<le> now \<Longrightarrow> int (fcard (fmdom (unexpired now m))) < mx \<Longrightarrow>
   cacheAdd (cacheOf d mx m np) k now = cacheOf d mx (fmupd k (now + d) (unexpired now m)) (now + d)"
  "d \<le> 0 \<Longrightarrow> cacheAdd (cacheOf d mx m np) k now = cacheOf d mx m np"
  by (auto simp: cacheAdd_def prune_steps cacheSize_def Let_def)

lemmas cache_simps = cacheHas_def cacheAdd_steps fcard_finsert_if fcard_fempty

lemma TestPublishHubCheckErrorNotCached:
  assumes "0 \<le> t" and "run_state (sendAll [(hubsDown (healthEnv t), ''hub:1'', ''gateway-user''),
      (noHubs (healthEnv t), ''hub:1'', ''gateway-user'')]) healthStart = (rs, s)"
  shows "rs = [Error, Rejected]" "hubAsked s = 2" "produced s = []"
  using assms by (auto simp: send_simps cache_simps hubsDown_def noHubs_def)

lemma TestPublishMissingUserId:
  assumes "run_state (send (healthEnv 1) ''hub:1'' ''no-sub'') healthStart = ((r, e), s)"
  shows "r = Error" "e = Some missingUserIdErr" "errorsIs missingUserIdErr ErrMissingUserId" "produced s = []"
  using assms by (auto simp: send_simps cache_simps errorsIs_def missingUserIdErr_def)

lemma TestPublishProducerErrors:
  assumes "run_state (sendAll [((healthEnv 1)\<lparr>getProducer := \<lambda>q w. (Some (errorsNew ''no producer''), w)\<rparr>,
      ''hub:1'', ''gateway-user''), ((healthEnv 1)\<lparr>produceWithKey := \<lambda>q t m k w. (Some (errorsNew ''kafka down''), w)\<rparr>,
      ''hub:1'', ''gateway-user'')]) healthStart = (rs, s)"
  shows "rs = [Error, Error]" "produced s = []"
  using assms by (auto simp: send_simps cache_simps)

lemma TestPublishAccepted:
  assumes "run_state (send (healthEnv testClock) ''hub:1'' ''gateway-user'') healthStart = ((r, e), s)"
  shows "r = Accepted" "last (calls s) = CProduce 0 ''gateway_health'' (''{'' @ quote ''hub_id'' @ '':'' @ quote ''hub:1'' @
     '','' @ quote ''user_id'' @ '':'' @ quote ''user-id-1'' @ '','' @ quote ''time'' @ '':'' @
     quote ''2026-10-27T13:00:00.123456789Z'' @ '','' @ quote ''report'' @ '':'' @ report @ ''}'') ''hub:1'' None"
  using assms TestMessageTimeFixedWidth(4) encodeMessage_text [of "''hub:1''" "''user-id-1''" testClock report]
  by (auto simp: send_def report_def healthPublish_def healthTest_fields isJsonObject_empty isAccessibleHub_def
      healthForward_def io_simps healthEnv_fields healthStart_def s0_fields newHubCheckCache_def testClock_def
      cache_simps Let_def)

section \<open>health: the cache\<close>

lemma TestHubCheckCache:
  assumes "0 \<le> t" and "run_state (sendAll [(healthEnv t, ''hub:1'', ''gateway-user''), (healthEnv t, ''hub:1'', ''gateway-user''),
      (healthEnv t, ''hub:1'', ''other-user''), (healthEnv t, ''hub:2'', ''gateway-user''),
      (healthEnv t, ''hub:2'', ''other-user'')]) healthStart = (rs, s)"
  shows "rs = [Accepted, Accepted, Accepted, Accepted, Rejected]" "hubAsked s = 4"
    "produced s = map (Pair ''gateway_health'') [''hub:1'', ''hub:1'', ''hub:1'', ''hub:2'']"
  using assms by (auto simp: send_simps cache_simps)

lemma TestHubCheckCacheExpiry:
  assumes "0 \<le> t" and "run_state (sendAll [(healthEnv t, ''hub:1'', ''gateway-user''),
      (healthEnv (t + 600 * 10 ^ 9 - 1), ''hub:1'', ''gateway-user''),
      (noHubs (healthEnv (t + 600 * 10 ^ 9)), ''hub:1'', ''gateway-user''),
      (noHubs (healthEnv (t + 600 * 10 ^ 9)), ''hub:1'', ''gateway-user'')]) healthStart = (rs, s)"
  shows "rs = [Accepted, Accepted, Rejected, Rejected]" "hubAsked s = 3"
  using assms by (auto simp: send_simps cache_simps noHubs_def)

lemma TestHubCheckCacheDisabled:
  assumes "run_state (sendAll [(healthEnv t, ''hub:1'', ''gateway-user''), (healthEnv t, ''hub:1'', ''gateway-user'')])
      (healthStart\<lparr>hubCache := newHubCheckCache 0 100000\<rparr>) = (rs, s)"
  shows "rs = [Accepted, Accepted]" "hubAsked s = 2"
  using assms by (auto simp: send_simps cache_simps)

text \<open>Times are seconds after the start of 2026.\<close>

definition at2026 :: "int \<Rightarrow> int" where "at2026 sec = (63902822400 + sec) * 10 ^ 9"

definition addHubs :: "int \<Rightarrow> (string \<times> int) list \<Rightarrow> hubCheckCache" where
  "addHubs m xs = fold (\<lambda>(h, sec) c. cacheAdd c (''u'', h) (at2026 sec)) xs (newHubCheckCache (60 * 10 ^ 9) m)"

lemma TestHubCheckCacheBound:
  assumes "abc = [(''a'', 0), (''b'', 1), (''c'', 2)]"
  shows "cacheSize (addHubs 3 abc) = 3" "cacheSize (addHubs 3 (abc @ [(''a'', 3)])) = 3"
    "cacheSize (addHubs 3 (abc @ [(''a'', 3), (''d'', 4)])) = 1"
    "cacheHas (addHubs 3 (abc @ [(''a'', 3), (''d'', 4)])) (''u'', ''d'') (at2026 5)"
  by (auto simp: assms addHubs_def at2026_def newHubCheckCache_def cacheSize_def cache_simps)

lemma TestHubCheckCachePrune:
  assumes "abc = [(''a'', 0), (''b'', 30), (''c'', 60)]"
  shows "cacheSize (addHubs 100 abc) = 2" "\<not> cacheHas (addHubs 100 abc) (''u'', ''a'') (at2026 0)"
    "cacheSize (addHubs 100 (abc @ [(''d'', 120)])) = 1"
  by (auto simp: assms addHubs_def at2026_def newHubCheckCache_def cacheSize_def cache_simps)

lemma duration_texts:
  "parseDuration ''10m'' = Inr (600 * 10 ^ 9)" "\<exists>e. parseDuration ''10'' = Inl e" "\<exists>e. parseDuration [] = Inl e"
proof -
  have "durItem ''10m'' ''10m'' = Inr (10 * 60000000000, [])"
    by (simp add: durItem_def durDigit_def durUnit_def Let_def)
  moreover obtain e where "durItem ''10'' ''10'' = Inl e"
    by (simp add: durItem_def durDigit_def durUnit_def Let_def)
  ultimately show "parseDuration ''10m'' = Inr (600 * 10 ^ 9)" "\<exists>e. parseDuration ''10'' = Inl e"
    "\<exists>e. parseDuration [] = Inl e"
    by (simp_all add: parseDuration_def durLoop_numeral Let_def)
qed

lemma TestNewFromConfig:
  assumes "valid = emptyConfig\<lparr>HealthTopic := ''health'', GatewayHealthTopic := ''gateway_health'',
     HealthHubCheckCacheDuration := ''10m'', HealthMaxPayloadSize := 65536\<rparr>"
  shows "\<exists>h c. NewFromConfig valid = Inr (h, c) \<and> hcDuration (hhConfig h) = 600 * 10 ^ 9 \<and>
      hcMaxPayloadSize (hhConfig h) = 65536 \<and> hcKafkaTopic (hhConfig h) = ''gateway_health''"
    and "cfg \<in> {valid\<lparr>HealthHubCheckCacheDuration := ''10''\<rparr>, valid\<lparr>HealthHubCheckCacheDuration := []\<rparr>,
       valid\<lparr>HealthMaxPayloadSize := 0\<rparr>, valid\<lparr>HealthMaxPayloadSize := -1\<rparr>, valid\<lparr>GatewayHealthTopic := ''-''\<rparr>,
       valid\<lparr>GatewayHealthTopic := []\<rparr>, valid\<lparr>HealthTopic := ''-''\<rparr>} \<Longrightarrow> \<exists>e. NewFromConfig cfg = Inl e"
  using duration_texts by (auto simp: assms NewFromConfig_def newHealth_def Enabled_def)

section \<open>The environment\<close>

lemma environment_two:
  assumes split: "configFields = fs @ f # gs @ g # hs" and "v \<noteq> []" "w \<noteq> []"
  shows "HandleEnvironmentVars lib (\<lambda>n. if n = envName f then v else if n = envName g then w else []) cfg =
    (case setField lib (cfKind f) v cfg of None \<Rightarrow> None | Some c \<Rightarrow> setField lib (cfKind g) w c)"
proof -
  let ?env = "\<lambda>n. if n = envName f then v else if n = envName g then w else []"
  have d: "distinct (fs @ f # gs @ g # hs)" using configFields_distinct by (simp add: split)
  have mem: "f \<in> set configFields" "g \<in> set configFields" by (simp_all add: split)
  have "envName x \<noteq> envName f \<and> envName x \<noteq> envName g" if "x \<in> set (fs @ gs @ hs)" for x
  proof -
    have "x \<in> set configFields" using that unfolding split by auto
    moreover have "x \<noteq> f" "x \<noteq> g" using that d by auto
    ultimately show ?thesis using envNames_inj mem by metis
  qed
  then have unset: "envFields lib ?env xs c = Some c" if "set xs \<subseteq> set (fs @ gs @ hs)" for xs c
    using that by (intro envFields_unset) (auto simp: envName_def [symmetric])
  have one: "envFields lib ?env (f # xs) c = (case setField lib (cfKind f) v c of None \<Rightarrow> None | Some c \<Rightarrow> envFields lib ?env xs c)"
    for xs c using assms(2) by (simp add: envName_def [symmetric] Let_def)
  have "f \<noteq> g" using d by auto
  then have "envName g \<noteq> envName f" using envNames_inj mem by metis
  then have two: "envFields lib ?env (g # xs) c = (case setField lib (cfKind g) w c of None \<Rightarrow> None | Some c \<Rightarrow> envFields lib ?env xs c)"
    for xs c using assms(3) by (simp add: envName_def [symmetric] Let_def)
  have "envFields lib ?env fs c = Some c" "envFields lib ?env gs c = Some c" "envFields lib ?env hs c = Some c" for c
    by (rule unset; auto)+
  then show ?thesis
    unfolding HandleEnvironmentVars_def split envFields_append one two
    by (auto simp: envFields_append two split: option.splits)
qed

lemma TestHandleEnvironmentVarsSetsKafkaTopicSettings:
  assumes "unmarshal (elDecodeTopics lib) topics = Some [(''urn_infai_ses_service_'', [(''retention.ms'', ''604800000'')])]"
    and "topics \<noteq> []"
  shows "HandleEnvironmentVars lib
     (\<lambda>n. if n = fieldNameToEnvName ''KafkaReplicationFactor'' then ''2''
          else if n = fieldNameToEnvName ''KafkaTopicConfigs'' then topics else [])
     (emptyConfig\<lparr>KafkaReplicationFactor := 1\<rparr>) =
   Some (emptyConfig\<lparr>KafkaReplicationFactor := 2,
     KafkaTopicConfigs := [(''urn_infai_ses_service_'', [(''retention.ms'', ''604800000'')])]\<rparr>)"
proof -
  let ?f = "plainField ''KafkaReplicationFactor'' (IntF KafkaReplicationFactor_update)"
  let ?g = "plainField ''KafkaTopicConfigs'' (TopicMapF KafkaTopicConfigs_update)"
  have "configFields = take 44 configFields @ ?f # take 29 (drop 45 configFields) @ ?g # drop 75 configFields"
    by (simp add: configFields_def)
  note two = environment_two [OF this, of "''2''" topics lib "emptyConfig\<lparr>KafkaReplicationFactor := 1\<rparr>"]
  have names: "fieldNameToEnvName ''KafkaReplicationFactor'' = envName ?f" "fieldNameToEnvName ''KafkaTopicConfigs'' = envName ?g"
    and kinds: "cfKind ?f = IntF KafkaReplicationFactor_update" "cfKind ?g = TopicMapF KafkaTopicConfigs_update"
    by (simp_all add: envName_def plainField_def)
  have "parseInt64 ''2'' = 2" by code_simp
  then show ?thesis
    unfolding names using two assms by (simp add: kinds setField_def)
qed

lemma kafka_names: "fieldNameToEnvName ''KafkaReplicationFactor'' = ''KAFKA_REPLICATION_FACTOR''"
  "fieldNameToEnvName ''KafkaTopicConfigs'' = ''KAFKA_TOPIC_CONFIGS''"
  by code_simp+

end
