(* ===== verification/Spec2Isabelle.thy ===== *)
theory Spec2Isabelle
  imports CommandProperties QueueProperties HandlerProperties MessageProperties ErrorProperties HealthProperties
    ReplyProperties SecretProperties SessionProperties WmbusProperties StartProperties EndToEnd AsyncApi
    HubCheckSteps KeyStatus AttributeUpdates TelegramEvents CommandWorkers EnvTable RepoTests
begin

text \<open>
  A model of the senergy-platform-connector, which connects the MQTT broker VerneMQ to the SENERGY
  platform, and the theorems that make it correct. File names are below \<open>src/\<close>.

  The program. \<open>main.go\<close> loads a configuration and calls \<open>Start\<close> of \<open>lib/lib.go\<close>, which builds the
  platform connector library, opens the webhooks of \<open>lib/webhooks/vernemqtt\<close>, connects to the broker and
  starts to consume commands. The broker asks a webhook about every login, subscription and published
  message, and reports clients that come and go. A subscription or a message goes through the list of
  topic handlers of \<open>lib/handler\<close>, each of which owns a part of the topic space, checks who asks, and
  hands events, command responses, process and fog messages, health reports and errors to the
  platform. A command of the platform goes the other way: \<open>lib/command.go\<close> stores its request under a
  correlation id and publishes it to the device, at once or through a bounded queue with workers.
  Telegrams of wireless M-Bus meters are decrypted by an external program on the way.

  How it is modelled. An operation is a program of the state monad over \<open>sys\<close> (theory \<open>Services\<close>): the
  world of the services, the list of the calls made to them with their arguments and answers, the body
  of the response being written, and the hub check cache, the one state a handler owns. Everything that is not
  code of the repository, the platform connector library, its clients, the broker, HTTP, the token
  parser, the external program, is a field of the record \<open>connector\<close>, a function of which nothing is assumed: what a
  theorem says holds for whatever the services answer. A theorem about access reads off the calls: an event was sent
  only if a token was returned to this user, and so on. Errors are values, with the sentinel errors that
  \<open>errors.Is\<close> looks for; a Go panic is a value of its own where the code can reach one. Loops over lists
  are recursive functions, a map is walked in an order the services choose.

  Theories and code.
  \<open>Prelude\<close>: running programs of the state monad, shared collections.
  \<open>GoStrings\<close>, \<open>GoTime\<close>, \<open>TimeOrder\<close>, \<open>GoUrl\<close>, \<open>GoBase64\<close>, \<open>GoJson\<close>, \<open>GoJsonFacts\<close>, \<open>JsonNumbers\<close>, \<open>JsonDepth\<close>,
  \<open>GoUnmarshal\<close>: what the code uses of \<open>strings\<close>, \<open>time\<close>, \<open>net/url\<close>, \<open>encoding/base64\<close> and
  \<open>encoding/json\<close>, on byte strings, with their round trips.
  \<open>Configuration\<close>, \<open>ConfigEnv\<close>, \<open>LibConfig\<close>: \<open>lib/configuration/config.go\<close>, and the library's
  configuration in \<open>lib/lib.go\<close> and \<open>lib/helper.go\<close>.
  \<open>Services\<close>: the connector's services and the state.
  \<open>HandlerCore\<close>: \<open>lib/handler/handler.go\<close> and \<open>helper.go\<close>, with the interface of a handler as the locales
  \<open>topic_handler\<close> and \<open>prefix_handler\<close>; each handler is an interpretation of them.
  \<open>OwnerTopics\<close>: the check of the owner of a topic, shared by three handlers.
  \<open>OwnTopicHandlers\<close> (export, notifications), \<open>ProcessHandler\<close>, \<open>FogHandler\<close>, \<open>CommandHandler\<close>,
  \<open>ResponseHandler\<close>, \<open>ErrorMessageHandler\<close>, \<open>EventHandler\<close>, \<open>HealthHandler\<close>: the packages of
  \<open>lib/handler\<close>. \<open>HubCheckCache\<close>: \<open>lib/handler/health/cache.go\<close>, an interpretation of the locale
  \<open>positive_cache\<close>. \<open>Wmbus\<close>: \<open>lib/handler/event/nimbus.go\<close> and \<open>waiting_room.go\<close>.
  \<open>CommandSend\<close>: the handler of commands of \<open>lib/command.go\<close>, \<open>lib/model.go\<close> and the publishing of
  \<open>lib/mqtt.go\<close>. \<open>CommandWorkers\<close>: \<open>GetQueuedCommandHandler\<close> of \<open>lib/command.go\<close>, the bounded channel (its
  capacity is \<open>qCap\<close>) and its workers, as the step relation \<open>qstep\<close>. A worker runs the handler one call at
  a time (\<open>commandStep\<close>), so that the calls of the workers, the callers and the end of the context
  interleave in any order.
  \<open>WebhookReplies\<close>, \<open>PublishHook\<close>, \<open>SessionHooks\<close>, \<open>DisconnectCommand\<close>, \<open>Webhooks\<close>: the files of
  \<open>lib/webhooks\<close> and \<open>lib/webhooks.go\<close>. \<open>Startup\<close>: \<open>lib/lib.go\<close>, \<open>lib/mqtt.go\<close>,
  \<open>lib/metrics/metrics.go\<close>, \<open>main.go\<close>; every constructor of a library that is called, every goroutine that
  waits for the end, is an entry of a log, and \<open>shutdown\<close> runs those goroutines. \<open>AsyncApi\<close>: the generator
  \<open>docs/asyncapi-gen/main.go\<close>; the document that the connector uploads is the checked-in file, the argument
  \<open>slAsyncDoc\<close> of the start.
  \<open>TestServices\<close>: one concrete platform, on which the theorems are applied as examples.

  What is shown. \<open>CommandProperties\<close> and \<open>QueueProperties\<close>: commands reach the topics that devices
  listen on, as messages that read back; the queue is bounded, first in first out, loses and doubles
  nothing, and drains when closed, whatever its workers' schedule; the calls it makes are those of its
  commands, for each in the order of the handler, which a worker left alone simulates. \<open>HandlerProperties\<close>, \<open>MessageProperties\<close>, \<open>ErrorProperties\<close>,
  \<open>HealthProperties\<close>: on the strength of which answers a handler accepts, and exactly what it then
  sends; the hub check cache is bounded and only repeats answers that are fresh. \<open>HubCheckSteps\<close>: the
  same for any number of checks at once, as the step relation \<open>hubStep\<close>, which the handler refines. \<open>ReplyProperties\<close>,
  \<open>SessionProperties\<close>, \<open>SecretProperties\<close>: every reply is one document and says what the handlers
  decided, who is let in, what a leaving client does to its devices, and that no secret is sent out.
  \<open>WmbusProperties\<close>: what reaches the external program, how keys are tried. \<open>TelegramEvents\<close>: which
  events a telegram leads to, from what was decoded and looked up before them (\<open>follows\<close>: each call is
  justified by the calls before it). \<open>AttributeUpdates\<close>: which attributes it writes, request by request.
  \<open>KeyStatus\<close>: what a meter has in the device manager once its decryption status is written; the update
  of attributes is that of the repository's mock, which mirrors the device manager, as an instance of
  the locale \<open>attribute_store\<close>.
  \<open>EnvTable\<close>: the field and the value each environment variable sets, as the table \<open>fieldTable\<close> of names and
  updates of the record, which the table \<open>configFields\<close> that the loop runs over is shown to agree with.
  \<open>StartProperties\<close>: the order of the start, what failed attempts to connect leave behind and what the end
  of the program disconnects, topics nobody handles. \<open>EndToEnd\<close>: what a request to a webhook can lead to through the started
  handlers, and that a command and its response meet.
  \<open>RepoTests\<close>: the unit tests that come with the code, as equations about the model.
  \<open>Emits\<close> and the collections \<open>quiet_intros\<close>, \<open>logs_intros\<close>, \<open>yields_intros\<close>, \<open>answers_intros\<close>,
  \<open>emits_intros\<close>, \<open>grounded_intros\<close> carry these proofs: a property of all calls, answers or replies, or of
  each call on the strength of the others, is checked along the text of an operation.

  Bounds and fuel. The parser of JSON runs on fuel \<open>fuelFor\<close>, twice the length of the text and one,
  which \<open>pValue_enough\<close> shows to be enough, at the nesting limit 10000 of Go; the loop of
  \<open>parseDuration\<close> has one round for each character and one more, and every round takes a character; decoding Base64
  takes four characters a round. A worker needs at most six steps for the calls of a command, one to take it
  and one to be free again; so a closed queue is empty after eight steps for each command in the
  channel and seven for each busy worker, fifteen for each worker. Other loops are structural or come with a measure.

  Not modelled. The generated text of \<open>docs/docs.go\<close>, one string constant; test code, but for the unit
  tests in \<open>RepoTests\<close> and the mock in \<open>KeyStatus\<close>. Of the listener and its mux only
  the settings and the exact paths; logging; the wire formats below the clients of MQTT, Kafka, HTTP and
  memcached, which are parameters. That the disconnects of the end are done before the program returns:
  the code only waits a second for them.
  The text of a float64, \<open>time.Parse\<close> and the error texts of \<open>encoding/json\<close> are parameters. A
  repeated member of a JSON object that holds a list reuses the old elements in Go; here the last
  member counts. Times are before the year 10000, and products of configured seconds do not overflow.
  The hub check cache is guarded by a mutex, so its operations are single steps. Webhook requests are
  modelled one at a time, each from any state: requests that run at the same time can only change what
  the services answer, of which nothing is assumed, and the cache, whose sharing is modelled in
  \<open>HubCheckSteps\<close>.
\<close>

end
